theory Spec2Isabelle
  imports Complex_Main
begin

section \<open>JavaScript numbers\<close>

text \<open>
  The engine computes on JavaScript numbers. A number is modelled as a real (a finite
  value; \<open>Fin 0\<close> is the positive zero), the negative zero, one of the two infinities,
  or NaN. The operations below follow ECMAScript on the special values (division by a
  zero, sign of a zero result, NaN propagation, comparisons with NaN). Finite results
  are exact reals: rounding, overflow and underflow of binary64 are not part of the
  model, except in the sample-size planner, whose result depends on the rounding and
  whose operations round to binary64 (section Binary64 arithmetic).
\<close>

datatype jsnum = Fin real | NZero | PInf | NInf | NaN

fun val :: "jsnum \<Rightarrow> real" where
  "val (Fin r) = r"
| "val NZero = 0"
| "val PInf = 0"
| "val NInf = 0"
| "val NaN = 0"

fun is_fin :: "jsnum \<Rightarrow> bool" where
  "is_fin (Fin r) = True"
| "is_fin NZero = True"
| "is_fin PInf = False"
| "is_fin NInf = False"
| "is_fin NaN = False"

fun is_inf :: "jsnum \<Rightarrow> bool" where
  "is_inf PInf = True"
| "is_inf NInf = True"
| "is_inf (Fin r) = False"
| "is_inf NZero = False"
| "is_inf NaN = False"

fun is_zero :: "jsnum \<Rightarrow> bool" where
  "is_zero (Fin r) = (r = 0)"
| "is_zero NZero = True"
| "is_zero PInf = False"
| "is_zero NInf = False"
| "is_zero NaN = False"

text \<open>The sign bit.\<close>

fun signbit :: "jsnum \<Rightarrow> bool" where
  "signbit (Fin r) = (r < 0)"
| "signbit NZero = True"
| "signbit PInf = False"
| "signbit NInf = True"
| "signbit NaN = False"

definition mk_zero :: "bool \<Rightarrow> jsnum" where
  "mk_zero s = (if s then NZero else Fin 0)"

definition mk_inf :: "bool \<Rightarrow> jsnum" where
  "mk_inf s = (if s then NInf else PInf)"

fun js_neg :: "jsnum \<Rightarrow> jsnum" where
  "js_neg (Fin r) = (if r = 0 then NZero else Fin (- r))"
| "js_neg NZero = Fin 0"
| "js_neg PInf = NInf"
| "js_neg NInf = PInf"
| "js_neg NaN = NaN"

definition js_add :: "jsnum \<Rightarrow> jsnum \<Rightarrow> jsnum" where
  "js_add a b =
     (if a = NaN \<or> b = NaN then NaN
      else if is_inf a then (if is_inf b \<and> a \<noteq> b then NaN else a)
      else if is_inf b then b
      else if a = NZero \<and> b = NZero then NZero
      else Fin (val a + val b))"

definition js_sub :: "jsnum \<Rightarrow> jsnum \<Rightarrow> jsnum" where
  "js_sub a b = js_add a (js_neg b)"

definition js_mul :: "jsnum \<Rightarrow> jsnum \<Rightarrow> jsnum" where
  "js_mul a b =
     (if a = NaN \<or> b = NaN then NaN
      else if is_inf a \<or> is_inf b then
        (if is_zero a \<or> is_zero b then NaN else mk_inf (signbit a \<noteq> signbit b))
      else if val a * val b = 0 then mk_zero (signbit a \<noteq> signbit b)
      else Fin (val a * val b))"

definition js_div :: "jsnum \<Rightarrow> jsnum \<Rightarrow> jsnum" where
  "js_div a b =
     (if a = NaN \<or> b = NaN then NaN
      else if is_inf a then (if is_inf b then NaN else mk_inf (signbit a \<noteq> signbit b))
      else if is_inf b then mk_zero (signbit a \<noteq> signbit b)
      else if is_zero b then (if is_zero a then NaN else mk_inf (signbit a \<noteq> signbit b))
      else if is_zero a then mk_zero (signbit a \<noteq> signbit b)
      else Fin (val a / val b))"

text \<open>The position of a value among the non-NaN numbers: first the rank, then the real.\<close>

fun rank :: "jsnum \<Rightarrow> int" where
  "rank NInf = - 1"
| "rank PInf = 1"
| "rank (Fin r) = 0"
| "rank NZero = 0"
| "rank NaN = 0"

definition js_lt :: "jsnum \<Rightarrow> jsnum \<Rightarrow> bool" where
  "js_lt a b = (a \<noteq> NaN \<and> b \<noteq> NaN \<and> (rank a < rank b \<or> (rank a = rank b \<and> val a < val b)))"

definition js_gt :: "jsnum \<Rightarrow> jsnum \<Rightarrow> bool" where
  "js_gt a b = js_lt b a"

text \<open>Strict equality \<open>===\<close> on numbers: NaN equals nothing, the two zeros are equal.\<close>

definition js_eq :: "jsnum \<Rightarrow> jsnum \<Rightarrow> bool" where
  "js_eq a b = (a \<noteq> NaN \<and> b \<noteq> NaN \<and> rank a = rank b \<and> val a = val b)"

fun js_sqrt :: "jsnum \<Rightarrow> jsnum" where
  "js_sqrt (Fin r) = (if r < 0 then NaN else Fin (sqrt r))"
| "js_sqrt NZero = NZero"
| "js_sqrt PInf = PInf"
| "js_sqrt NInf = NaN"
| "js_sqrt NaN = NaN"

fun js_exp :: "jsnum \<Rightarrow> jsnum" where
  "js_exp (Fin r) = Fin (exp r)"
| "js_exp NZero = Fin 1"
| "js_exp PInf = PInf"
| "js_exp NInf = Fin 0"
| "js_exp NaN = NaN"

fun js_abs :: "jsnum \<Rightarrow> jsnum" where
  "js_abs (Fin r) = Fin \<bar>r\<bar>"
| "js_abs NZero = Fin 0"
| "js_abs PInf = PInf"
| "js_abs NInf = PInf"
| "js_abs NaN = NaN"

fun js_ceil :: "jsnum \<Rightarrow> jsnum" where
  "js_ceil (Fin r) = (if r < 0 \<and> - 1 < r then NZero else Fin (of_int \<lceil>r\<rceil>))"
| "js_ceil NZero = NZero"
| "js_ceil PInf = PInf"
| "js_ceil NInf = NInf"
| "js_ceil NaN = NaN"

text \<open>Truthiness of a number: zero and NaN are falsy.\<close>

definition js_truthy :: "jsnum \<Rightarrow> bool" where
  "js_truthy x = (\<not> is_zero x \<and> x \<noteq> NaN)"

section \<open>Binary64 arithmetic\<close>

text \<open>
  The sample-size planner is modelled with the rounding of IEEE 754 binary64, the
  format of JavaScript numbers: each of its arithmetic operations returns the exact
  result rounded to the nearest binary64 number, ties to the even significand.
  \<open>rne\<close> rounds a real to the nearest integer, ties to even. \<open>round64 x\<close> rounds the
  real \<open>x\<close>: the unit in the last place is \<open>2 powr (e - 52)\<close>, where \<open>e\<close> is the binary
  exponent of \<open>x\<close> and at least \<open>-1022\<close> (subnormal numbers); a rounded magnitude of
  \<open>2 powr 1024\<close> or more overflows to an infinity, and a nonzero number that rounds
  to zero keeps its sign. \<open>rnd\<close> rounds the finite result of an exact operation,
  \<open>lit r\<close> is the number a decimal literal of value \<open>r\<close> denotes, and \<open>fl_add\<close>,
  \<open>fl_sub\<close>, \<open>fl_mul\<close>, \<open>fl_div\<close> are the four operations of the language.
  \<open>Math.pow(x, 2)\<close> is taken as the rounded product \<open>x * x\<close>.
\<close>

definition rne :: "real \<Rightarrow> int" where
  "rne t = (let f = \<lfloor>t\<rfloor>; r = t - of_int f
            in if r < 1 / 2 then f
               else if 1 / 2 < r then f + 1
               else if even f then f else f + 1)"

definition overflow_bound :: real where
  "overflow_bound = 2 powr 1024"

definition round64 :: "real \<Rightarrow> jsnum" where
  "round64 x =
     (if x = 0 then Fin 0
      else let e = max \<lfloor>log 2 \<bar>x\<bar>\<rfloor> (- 1022);
               ulp = 2 powr (of_int (e - 52));
               y = of_int (rne (x / ulp)) * ulp
           in if overflow_bound \<le> \<bar>y\<bar> then mk_inf (x < 0)
              else if y = 0 then mk_zero (x < 0)
              else Fin y)"

fun rnd :: "jsnum \<Rightarrow> jsnum" where
  "rnd (Fin r) = round64 r"
| "rnd NZero = NZero"
| "rnd PInf = PInf"
| "rnd NInf = NInf"
| "rnd NaN = NaN"

definition lit :: "real \<Rightarrow> jsnum" where
  "lit r = round64 r"

definition fl_add :: "jsnum \<Rightarrow> jsnum \<Rightarrow> jsnum" where
  "fl_add a b = rnd (js_add a b)"

definition fl_sub :: "jsnum \<Rightarrow> jsnum \<Rightarrow> jsnum" where
  "fl_sub a b = rnd (js_sub a b)"

definition fl_mul :: "jsnum \<Rightarrow> jsnum \<Rightarrow> jsnum" where
  "fl_mul a b = rnd (js_mul a b)"

definition fl_div :: "jsnum \<Rightarrow> jsnum \<Rightarrow> jsnum" where
  "fl_div a b = rnd (js_div a b)"

definition fl_pow2 :: "jsnum \<Rightarrow> jsnum" where
  "fl_pow2 x = fl_mul x x"

text \<open>The unit roundoff and a bound on the underflow error, for the error analysis.\<close>

definition u64 :: real where
  "u64 = 1 / 2 ^ 53"

definition eta64 :: real where
  "eta64 = 1 / 2 ^ 100"

section \<open>Data model\<close>

datatype MetricType = Cvr | Ctr | Cpa | Roas | Revenue | Cpc

datatype TestType = Ab_test | Multivariate | Bandit

record VariantMetrics =
  cvr :: jsnum
  ctr :: jsnum
  cpa :: jsnum
  roas :: jsnum
  cpc :: jsnum
  cpm :: jsnum

record VariantResult =
  variantId :: string
  variantName :: string
  isControl :: bool
  sampleSize :: jsnum
  conversions :: jsnum
  clicks :: jsnum
  impressions :: jsnum
  spend :: jsnum
  revenue :: jsnum
  metrics :: VariantMetrics

datatype Status = Winner | Loser | Tie | Insufficient_data

text \<open>
  A template literal is kept as its fragments: literal text, a number converted by the
  default conversion, and a number formatted by \<open>toFixed\<close> with the given digits.
\<close>

datatype frag = Txt string | NumStr jsnum | Fixed nat jsnum

record WinnerDecision =
  status :: Status
  winnerVariantId :: "string option"
  improvement :: "jsnum option"
  confidence :: jsnum
  reason :: "frag list"

record SignificanceResult =
  isSignificant :: bool
  pValue :: jsnum
  confidenceLevel :: jsnum
  standardError :: jsnum
  zScore :: jsnum
  minimumDetectableEffect :: jsnum

section \<open>Metrics deriver\<close>

definition calculateCVR :: "jsnum \<Rightarrow> jsnum \<Rightarrow> jsnum" where
  "calculateCVR conversions' clicks' =
     (if js_eq clicks' (Fin 0) then Fin 0
      else js_mul (js_div conversions' clicks') (Fin 100))"

definition calculateCTR :: "jsnum \<Rightarrow> jsnum \<Rightarrow> jsnum" where
  "calculateCTR clicks' impressions' =
     (if js_eq impressions' (Fin 0) then Fin 0
      else js_mul (js_div clicks' impressions') (Fin 100))"

definition calculateCPA :: "jsnum \<Rightarrow> jsnum \<Rightarrow> jsnum" where
  "calculateCPA spend' conversions' =
     (if js_eq conversions' (Fin 0) then PInf
      else js_div spend' conversions')"

definition calculateROAS :: "jsnum \<Rightarrow> jsnum \<Rightarrow> jsnum" where
  "calculateROAS revenue' spend' =
     (if js_eq spend' (Fin 0) then Fin 0
      else js_div revenue' spend')"

definition calculateCPC :: "jsnum \<Rightarrow> jsnum \<Rightarrow> jsnum" where
  "calculateCPC spend' clicks' =
     (if js_eq clicks' (Fin 0) then Fin 0
      else js_div spend' clicks')"

definition calculateCPM :: "jsnum \<Rightarrow> jsnum \<Rightarrow> jsnum" where
  "calculateCPM spend' impressions' =
     (if js_eq impressions' (Fin 0) then Fin 0
      else js_mul (js_div spend' impressions') (Fin 1000))"

definition calculateVariantMetrics :: "VariantResult \<Rightarrow> VariantMetrics" where
  "calculateVariantMetrics result =
     \<lparr> cvr = calculateCVR (conversions result) (clicks result),
       ctr = calculateCTR (clicks result) (impressions result),
       cpa = calculateCPA (spend result) (conversions result),
       roas = calculateROAS (revenue result) (spend result),
       cpc = calculateCPC (spend result) (clicks result),
       cpm = calculateCPM (spend result) (impressions result) \<rparr>"

section \<open>Significance tester\<close>

definition calculateStandardError :: "jsnum \<Rightarrow> jsnum \<Rightarrow> jsnum" where
  "calculateStandardError rate sampleSize' =
     (if js_eq sampleSize' (Fin 0) then Fin 0
      else let p = js_div rate (Fin 100)
           in js_sqrt (js_div (js_mul p (js_sub (Fin 1) p)) sampleSize'))"

definition calculateZScore :: "jsnum \<Rightarrow> jsnum \<Rightarrow> jsnum \<Rightarrow> jsnum \<Rightarrow> jsnum" where
  "calculateZScore rateA rateB seA seB =
     (let seDiff = js_sqrt (js_add (js_mul seA seA) (js_mul seB seB))
      in if js_eq seDiff (Fin 0) then Fin 0
         else js_div (js_div (js_sub rateA rateB) (Fin 100)) seDiff)"

definition calculatePValue :: "jsnum \<Rightarrow> jsnum" where
  "calculatePValue zScore' =
     (let absZ = js_abs zScore';
          t = js_div (Fin 1) (js_add (Fin 1) (js_mul (Fin (2316419 / 10000000)) absZ));
          d = js_mul (Fin (3989423 / 10000000))
                (js_exp (js_div (js_mul (js_neg absZ) absZ) (Fin 2)));
          p = js_mul (js_mul d t)
                (js_add (Fin (3193815 / 10000000))
                  (js_mul t (js_add (Fin (- (3565638 / 10000000)))
                    (js_mul t (js_add (Fin (1781478 / 1000000))
                      (js_mul t (js_add (Fin (- (1821256 / 1000000)))
                        (js_mul t (Fin (1330274 / 1000000))))))))))
      in js_mul (Fin 2) p)"

definition testSignificance ::
  "VariantResult \<Rightarrow> VariantResult \<Rightarrow> MetricType \<Rightarrow> jsnum \<Rightarrow> SignificanceResult" where
  "testSignificance controlResult treatmentResult metric confLevel =
     (let controlMetrics = calculateVariantMetrics controlResult;
          treatmentMetrics = calculateVariantMetrics treatmentResult;
          (controlRate, treatmentRate, controlN, treatmentN) =
            (case metric of
               Cvr \<Rightarrow> (cvr controlMetrics, cvr treatmentMetrics,
                        clicks controlResult, clicks treatmentResult)
             | Ctr \<Rightarrow> (ctr controlMetrics, ctr treatmentMetrics,
                        impressions controlResult, impressions treatmentResult)
             | _ \<Rightarrow> (cvr controlMetrics, cvr treatmentMetrics,
                      clicks controlResult, clicks treatmentResult));
          seControl = calculateStandardError controlRate controlN;
          seTreatment = calculateStandardError treatmentRate treatmentN;
          zScore' = calculateZScore treatmentRate controlRate seTreatment seControl;
          pValue' = calculatePValue zScore';
          criticalZ = Fin (196 / 100);
          isSignificant' = js_lt pValue' (js_sub (Fin 1) confLevel);
          pooledSE = js_sqrt (js_add (js_mul seControl seControl)
                                     (js_mul seTreatment seTreatment));
          mde = js_mul (js_mul criticalZ pooledSE) (Fin 100)
      in \<lparr> isSignificant = isSignificant',
           pValue = pValue',
           confidenceLevel = confLevel,
           standardError = pooledSE,
           zScore = zScore',
           minimumDetectableEffect = mde \<rparr>)"

text \<open>
  The planner, in binary64: the literals \<open>0.95\<close>, \<open>1.96\<close>, \<open>2.576\<close>, \<open>0.8\<close>, \<open>0.84\<close>
  and \<open>1.28\<close> are the binary64 numbers nearest to them, and every operation rounds.
\<close>

definition calculateRequiredSampleSize :: "jsnum \<Rightarrow> jsnum \<Rightarrow> jsnum \<Rightarrow> jsnum \<Rightarrow> jsnum" where
  "calculateRequiredSampleSize baselineRate mdeArg power' confLevel =
     (let zAlpha = (if js_eq confLevel (lit (95 / 100)) then lit (196 / 100)
                    else lit (2576 / 1000));
          zBeta = (if js_eq power' (lit (8 / 10)) then lit (84 / 100)
                   else lit (128 / 100));
          p1 = fl_div baselineRate (lit 100);
          p2 = fl_div (fl_add baselineRate mdeArg) (lit 100);
          pooledP = fl_div (fl_add p1 p2) (lit 2);
          numerator = fl_mul (fl_mul (fl_mul (lit 2) (fl_pow2 (fl_add zAlpha zBeta))) pooledP)
                             (fl_sub (lit 1) pooledP);
          denominator = fl_pow2 (fl_sub p2 p1)
      in if js_eq denominator (lit 0) then PInf
         else js_ceil (fl_div numerator denominator))"

section \<open>Winner selector\<close>

definition getMetricValue :: "VariantResult \<Rightarrow> MetricType \<Rightarrow> jsnum" where
  "getMetricValue result metric =
     (let ms = calculateVariantMetrics result
      in case metric of
           Cvr \<Rightarrow> cvr ms
         | Ctr \<Rightarrow> ctr ms
         | Cpa \<Rightarrow> cpa ms
         | Roas \<Rightarrow> roas ms
         | Cpc \<Rightarrow> cpc ms
         | Revenue \<Rightarrow> revenue result)"

definition isLowerBetter :: "MetricType \<Rightarrow> bool" where
  "isLowerBetter primaryMetric = (primaryMetric = Cpa \<or> primaryMetric = Cpc)"

text \<open>The \<open>improvement\<close> computed in the body of the first loop.\<close>

definition improvementOf :: "VariantResult \<Rightarrow> MetricType \<Rightarrow> VariantResult \<Rightarrow> jsnum" where
  "improvementOf control primaryMetric treatment =
     (let controlMetric = getMetricValue control primaryMetric;
          treatmentMetric = getMetricValue treatment primaryMetric
      in if isLowerBetter primaryMetric
         then js_mul (js_div (js_sub controlMetric treatmentMetric) controlMetric) (Fin 100)
         else js_mul (js_div (js_sub treatmentMetric controlMetric) controlMetric) (Fin 100))"

text \<open>The \<open>controlBetter\<close> computed in the body of the second loop.\<close>

definition controlBetter :: "VariantResult \<Rightarrow> MetricType \<Rightarrow> VariantResult \<Rightarrow> bool" where
  "controlBetter control primaryMetric treatment =
     (let controlMetric = getMetricValue control primaryMetric;
          treatmentMetric = getMetricValue treatment primaryMetric
      in if isLowerBetter primaryMetric
         then js_lt controlMetric treatmentMetric
         else js_gt controlMetric treatmentMetric)"

text \<open>The four variables the first loop of \<open>determineWinner\<close> updates.\<close>

record best =
  bestTreatment :: "VariantResult option"
  bestImprovement :: jsnum
  bestConfidence :: jsnum
  significantWinner :: bool

definition best_init :: best where
  "best_init = \<lparr> bestTreatment = None, bestImprovement = Fin 0,
                 bestConfidence = Fin 0, significantWinner = False \<rparr>"

definition best_step ::
  "VariantResult \<Rightarrow> MetricType \<Rightarrow> jsnum \<Rightarrow> best \<Rightarrow> VariantResult \<Rightarrow> best" where
  "best_step control primaryMetric confLevel st treatment =
     (let significance = testSignificance control treatment primaryMetric confLevel;
          imp = improvementOf control primaryMetric treatment
      in if isSignificant significance \<and> js_gt imp (Fin 0)
         then (if js_gt imp (bestImprovement st)
               then \<lparr> bestTreatment = Some treatment, bestImprovement = imp,
                      bestConfidence = js_sub (Fin 1) (pValue significance),
                      significantWinner = True \<rparr>
               else st)
         else st)"

text \<open>The second loop returns at the first treatment the control beats significantly.\<close>

fun control_loop ::
  "VariantResult \<Rightarrow> MetricType \<Rightarrow> jsnum \<Rightarrow> VariantResult list \<Rightarrow> WinnerDecision option" where
  "control_loop control primaryMetric confLevel [] = None"
| "control_loop control primaryMetric confLevel (treatment # rest) =
     (let significance = testSignificance control treatment primaryMetric confLevel
      in if isSignificant significance \<and> controlBetter control primaryMetric treatment
         then Some \<lparr> status = Loser,
                     winnerVariantId = Some (variantId control),
                     improvement = None,
                     confidence = js_sub (Fin 1) (pValue significance),
                     reason = [Txt ''Control outperformed all treatments''] \<rparr>
         else control_loop control primaryMetric confLevel rest)"

definition totalSampleSize :: "VariantResult list \<Rightarrow> jsnum" where
  "totalSampleSize variants = foldl (\<lambda>sum v. js_add sum (sampleSize v)) (Fin 0) variants"

text \<open>
  The part of \<open>determineWinner\<close> after the three guards: the two loops over the
  treatments and the final tie.
\<close>

definition compareTreatments ::
  "VariantResult \<Rightarrow> VariantResult list \<Rightarrow> MetricType \<Rightarrow> jsnum \<Rightarrow> WinnerDecision" where
  "compareTreatments control treatments primaryMetric confLevel =
     (let st = foldl (best_step control primaryMetric confLevel) best_init treatments
      in case (if significantWinner st then bestTreatment st else None) of
           Some bt \<Rightarrow>
             \<lparr> status = Winner,
               winnerVariantId = Some (variantId bt),
               improvement = Some (bestImprovement st),
               confidence = bestConfidence st,
               reason = [Txt (variantName bt), Txt '' outperformed control by '',
                         Fixed 1 (bestImprovement st), Txt ''%''] \<rparr>
         | None \<Rightarrow>
             (case control_loop control primaryMetric confLevel treatments of
                Some d \<Rightarrow> d
              | None \<Rightarrow>
                  \<lparr> status = Tie, winnerVariantId = None, improvement = None,
                    confidence = Fin (1 / 2),
                    reason = [Txt ''No statistically significant difference found''] \<rparr>))"

definition determineWinner ::
  "VariantResult list \<Rightarrow> MetricType \<Rightarrow> jsnum \<Rightarrow> jsnum \<Rightarrow> WinnerDecision" where
  "determineWinner variants primaryMetric confLevel minSampleSize =
     (if length variants < 2
      then \<lparr> status = Insufficient_data, winnerVariantId = None, improvement = None,
             confidence = Fin 0,
             reason = [Txt ''At least 2 variants required for comparison''] \<rparr>
      else case find isControl variants of
        None \<Rightarrow>
          \<lparr> status = Insufficient_data, winnerVariantId = None, improvement = None,
            confidence = Fin 0,
            reason = [Txt ''No control variant specified''] \<rparr>
      | Some control \<Rightarrow>
          if js_lt (totalSampleSize variants) minSampleSize
          then \<lparr> status = Insufficient_data, winnerVariantId = None, improvement = None,
                 confidence = Fin 0,
                 reason = [Txt ''Insufficient sample size: '',
                           NumStr (totalSampleSize variants), Txt ''/'',
                           NumStr minSampleSize] \<rparr>
          else compareTreatments control (filter (\<lambda>v. \<not> isControl v) variants)
                 primaryMetric confLevel)"

section \<open>Learnings and the test result\<close>

text \<open>
  Identifiers and timestamps come from the wall clock and the random generator and are
  left out of the records. The Japanese literals of the source are given in English,
  fragment by fragment.
\<close>

datatype LearningType =
  Headline_performance | Cta_performance | Image_performance | Color_performance
| Audience_insight | Timing_insight | Placement_insight | General

datatype Impact = High | Medium | Low

datatype metaval = MNum "jsnum option" | MStr string

record Learning =
  ltype :: LearningType
  title :: "frag list"
  description :: "frag list"
  impact :: Impact
  actionable :: bool
  suggestedAction :: "string option"
  metadata :: "(string \<times> metaval) list"

text \<open>Reading a property of \<open>undefined\<close> throws a TypeError.\<close>

datatype js_error = TypeError

text \<open>
  \<open>Array.prototype.sort\<close> is stable; a comparator result that is not greater than zero
  (NaN included, which counts as zero) leaves the earlier element first. The model is
  the stable insertion sort, which is the result of every stable sort when the
  comparator is consistent; for an inconsistent comparator ECMAScript leaves the order
  to the implementation, and the model gives the order of the insertion sort.
\<close>

fun sort_insert :: "('a \<Rightarrow> 'a \<Rightarrow> jsnum) \<Rightarrow> 'a \<Rightarrow> 'a list \<Rightarrow> 'a list" where
  "sort_insert cmp x [] = [x]"
| "sort_insert cmp x (y # ys) =
     (if js_gt (cmp x y) (Fin 0) then y # sort_insert cmp x ys else x # y # ys)"

fun js_sort :: "('a \<Rightarrow> 'a \<Rightarrow> jsnum) \<Rightarrow> 'a list \<Rightarrow> 'a list" where
  "js_sort cmp [] = []"
| "js_sort cmp (x # xs) = sort_insert cmp x (js_sort cmp xs)"

definition winnerLearning :: "VariantResult list \<Rightarrow> WinnerDecision \<Rightarrow> Learning list" where
  "winnerLearning variants winner =
     (case winnerVariantId winner of
        None \<Rightarrow> []
      | Some wid \<Rightarrow>
          if status winner = Winner \<and> wid \<noteq> []
          then (case find (\<lambda>v. variantId v = wid) variants of
                  None \<Rightarrow> []
                | Some winningVariant \<Rightarrow>
                    [\<lparr> ltype = General,
                       title = [Txt (variantName winningVariant), Txt '' is the winner''],
                       description =
                         [Txt (variantName winningVariant), Txt '' achieved an improvement of '',
                          (case improvement winner of
                             None \<Rightarrow> Txt ''undefined'' | Some x \<Rightarrow> Fixed 1 x),
                          Txt ''%''],
                       impact =
                         (case improvement winner of
                            None \<Rightarrow> Medium
                          | Some x \<Rightarrow>
                              if js_truthy x \<and> js_gt x (Fin 20) then High else Medium),
                       actionable = True,
                       suggestedAction = Some ''Adopt the winning variant and plan further tests'',
                       metadata = [(''improvementPercent'', MNum (improvement winner)),
                                   (''confidence'', MNum (Some (confidence winner)))] \<rparr>])
          else [])"

definition ctrLearning :: "VariantResult \<Rightarrow> VariantResult \<Rightarrow> Learning list" where
  "ctrLearning bestCTR worstCTR =
     (let ctrDiff = js_sub (ctr (calculateVariantMetrics bestCTR))
                           (ctr (calculateVariantMetrics worstCTR))
      in if js_gt ctrDiff (Fin (1 / 2))
         then [\<lparr> ltype = General,
                 title = [Txt ''Large difference in CTR''],
                 description =
                   [Txt ''Best CTR ('', Txt (variantName bestCTR), Txt '') and worst CTR ('',
                    Txt (variantName worstCTR), Txt '') differ by '', Fixed 2 ctrDiff, Txt ''%''],
                 impact = (if js_gt ctrDiff (Fin 1) then High else Medium),
                 actionable = True,
                 suggestedAction = Some ''Analyse the creative elements of the high-CTR variant'',
                 metadata = [(''bestVariant'', MStr (variantName bestCTR)),
                             (''worstVariant'', MStr (variantName worstCTR)),
                             (''ctrDifference'', MNum (Some ctrDiff))] \<rparr>]
         else [])"

definition cpaLearning :: "VariantResult \<Rightarrow> VariantResult \<Rightarrow> Learning list" where
  "cpaLearning bestCPA worstCPA =
     (let cpaDiff =
            js_mul (js_div (js_sub (cpa (calculateVariantMetrics worstCPA))
                                   (cpa (calculateVariantMetrics bestCPA)))
                           (cpa (calculateVariantMetrics bestCPA)))
                   (Fin 100)
      in if js_gt cpaDiff (Fin 30)
         then [\<lparr> ltype = General,
                 title = [Txt ''Large difference in CPA efficiency''],
                 description =
                   [Txt (variantName bestCPA), Txt '' converts '', Fixed 0 cpaDiff,
                    Txt ''% more efficiently than '', Txt (variantName worstCPA)],
                 impact = High,
                 actionable = True,
                 suggestedAction = Some ''Analyse the efficient variant and rebalance the budget'',
                 metadata = [(''bestVariant'', MStr (variantName bestCPA)),
                             (''worstVariant'', MStr (variantName worstCPA)),
                             (''cpaDifferencePercent'', MNum (Some cpaDiff))] \<rparr>]
         else [])"

text \<open>
  \<open>sortedByCTR[0]\<close> of an empty array is \<open>undefined\<close>, and
  \<open>calculateVariantMetrics(undefined)\<close> reads \<open>result.conversions\<close>: a TypeError.
\<close>

definition generateLearnings ::
  "VariantResult list \<Rightarrow> WinnerDecision \<Rightarrow> js_error + Learning list" where
  "generateLearnings variants winner =
     (let learnings1 = winnerLearning variants winner;
          sortedByCTR = js_sort (\<lambda>a b. js_sub (ctr (calculateVariantMetrics b))
                                              (ctr (calculateVariantMetrics a))) variants
      in case sortedByCTR of
           [] \<Rightarrow> Inl TypeError
         | bestCTR # _ \<Rightarrow>
             (let worstCTR = last sortedByCTR;
                  learnings2 = learnings1 @ ctrLearning bestCTR worstCTR;
                  sortedByCPA = js_sort (\<lambda>a b. js_sub (cpa (calculateVariantMetrics a))
                                                      (cpa (calculateVariantMetrics b))) variants
              in (case sortedByCPA of
                    [] \<Rightarrow> Inr learnings2
                  | bestCPA # _ \<Rightarrow>
                      (case filter (\<lambda>v. js_lt (cpa (calculateVariantMetrics v)) PInf)
                              sortedByCPA of
                         [] \<Rightarrow> Inr learnings2
                       | w # ws \<Rightarrow>
                           Inr (learnings2 @ cpaLearning bestCPA (last (w # ws)))))))"

record TestResult =
  tr_runId :: string
  tr_testType :: TestType
  tr_startDate :: string
  tr_endDate :: string
  tr_primaryMetric :: MetricType
  tr_variants :: "VariantResult list"
  tr_winner :: WinnerDecision
  tr_confidence :: jsnum
  tr_sampleSize :: jsnum
  tr_learnings :: "Learning list"

definition createTestResult ::
  "string \<Rightarrow> TestType \<Rightarrow> string \<Rightarrow> string \<Rightarrow> MetricType \<Rightarrow> VariantResult list
     \<Rightarrow> js_error + TestResult" where
  "createTestResult runId testType startDate endDate primaryMetric variants =
     (let enrichedVariants = map (\<lambda>v. v\<lparr>metrics := calculateVariantMetrics v\<rparr>) variants;
          winner = determineWinner enrichedVariants primaryMetric (Fin (95 / 100)) (Fin 100)
      in case generateLearnings enrichedVariants winner of
           Inl e \<Rightarrow> Inl e
         | Inr learnings \<Rightarrow>
             Inr \<lparr> tr_runId = runId, tr_testType = testType, tr_startDate = startDate,
                   tr_endDate = endDate, tr_primaryMetric = primaryMetric,
                   tr_variants = enrichedVariants, tr_winner = winner,
                   tr_confidence = confidence winner,
                   tr_sampleSize = totalSampleSize variants,
                   tr_learnings = learnings \<rparr>)"

section \<open>Notions of the specification\<close>

text \<open>
  The p-value in the spec's words, on reals: the polynomial of the tail in Horner form,
  and twice the tail.
\<close>

definition tail_poly :: "real \<Rightarrow> real" where
  "tail_poly t = 3193815 / 10000000 + t * (- (3565638 / 10000000) + t * (1781478 / 1000000
      + t * (- (1821256 / 1000000) + t * (1330274 / 1000000))))"

definition pvalue_spec :: "real \<Rightarrow> real" where
  "pvalue_spec z =
     (let t = 1 / (1 + 2316419 / 10000000 * \<bar>z\<bar>);
          d = 3989423 / 10000000 * exp (- (z\<^sup>2) / 2)
      in 2 * (d * t * tail_poly t))"

text \<open>
  The planner's formula in the spec's words, on reals, and the two critical values the
  planner selects (the power and the confidence level are compared with the binary64
  literals of the source).
\<close>

definition required_n :: "real \<Rightarrow> real \<Rightarrow> real \<Rightarrow> real \<Rightarrow> int" where
  "required_n zAlpha zBeta baselineRate mde =
     (let p1 = baselineRate / 100;
          p2 = (baselineRate + mde) / 100;
          pbar = (p1 + p2) / 2
      in \<lceil>2 * (zAlpha + zBeta)\<^sup>2 * pbar * (1 - pbar) / (p2 - p1)\<^sup>2\<rceil>)"

definition zAlphaOf :: "jsnum \<Rightarrow> real" where
  "zAlphaOf confLevel = (if js_eq confLevel (lit (95 / 100)) then 196 / 100 else 2576 / 1000)"

definition zBetaOf :: "jsnum \<Rightarrow> real" where
  "zBetaOf power' = (if js_eq power' (lit (8 / 10)) then 84 / 100 else 128 / 100)"

text \<open>The quotient of the planner's formula on reals, before it is rounded up.\<close>

definition required_q :: "real \<Rightarrow> real \<Rightarrow> real \<Rightarrow> real \<Rightarrow> real" where
  "required_q zAlpha zBeta baselineRate mde =
     (let p1 = baselineRate / 100;
          p2 = (baselineRate + mde) / 100;
          pbar = (p1 + p2) / 2
      in 2 * (zAlpha + zBeta)\<^sup>2 * pbar * (1 - pbar) / (p2 - p1)\<^sup>2)"

text \<open>
  \<open>is_real x r\<close>: the number \<open>x\<close> is finite and its value is the real \<open>r\<close>.
  \<open>js_le\<close> is the comparison \<open><=\<close> of numbers.
\<close>

definition is_real :: "jsnum \<Rightarrow> real \<Rightarrow> bool" where
  "is_real x r = (is_fin x \<and> val x = r)"

definition js_le :: "jsnum \<Rightarrow> jsnum \<Rightarrow> bool" where
  "js_le a b = (a \<noteq> NaN \<and> b \<noteq> NaN \<and> (rank a < rank b \<or> (rank a = rank b \<and> val a \<le> val b)))"

text \<open>
  A treatment qualifies as a winner when its comparison is significant and its
  improvement is positive; the control beats a treatment when the comparison is
  significant and the control is better in the metric's direction.
\<close>

definition qualifies :: "VariantResult \<Rightarrow> MetricType \<Rightarrow> jsnum \<Rightarrow> VariantResult \<Rightarrow> bool" where
  "qualifies control primaryMetric confLevel treatment =
     (isSignificant (testSignificance control treatment primaryMetric confLevel)
      \<and> js_gt (improvementOf control primaryMetric treatment) (Fin 0))"

definition beaten :: "VariantResult \<Rightarrow> MetricType \<Rightarrow> jsnum \<Rightarrow> VariantResult \<Rightarrow> bool" where
  "beaten control primaryMetric confLevel treatment =
     (isSignificant (testSignificance control treatment primaryMetric confLevel)
      \<and> controlBetter control primaryMetric treatment)"

text \<open>
  The invariant of the first loop after the treatments \<open>ts\<close>: either no treatment so far
  qualifies and the state is the initial one, or the state holds a qualifying treatment
  that no qualifying treatment so far exceeds.
\<close>

definition best_inv :: "VariantResult \<Rightarrow> MetricType \<Rightarrow> jsnum \<Rightarrow> VariantResult list \<Rightarrow> best \<Rightarrow> bool" where
  "best_inv c pm cl ts st =
     (if significantWinner st
      then list_ex (\<lambda>t. qualifies c pm cl t
                 \<and> bestTreatment st = Some t
                 \<and> bestImprovement st = improvementOf c pm t
                 \<and> bestConfidence st = js_sub (Fin 1) (pValue (testSignificance c t pm cl))
                 \<and> list_all (\<lambda>t'. \<not> (qualifies c pm cl t'
                        \<and> js_gt (improvementOf c pm t') (improvementOf c pm t))) ts) ts
      else st = best_init \<and> list_all (\<lambda>t. \<not> qualifies c pm cl t) ts)"

text \<open>The decision both loops fall through to.\<close>

definition tieDecision :: WinnerDecision where
  "tieDecision = \<lparr> status = Tie, winnerVariantId = None, improvement = None,
                    confidence = Fin (1 / 2),
                    reason = [Txt ''No statistically significant difference found''] \<rparr>"

text \<open>
  The helper \<open>createVariant\<close> of the test suite (the sample size is the number of
  clicks), the variants of its scenarios, a second control and a control without clicks.
\<close>

definition createVariant :: "string \<Rightarrow> string \<Rightarrow> bool \<Rightarrow> jsnum \<Rightarrow> jsnum \<Rightarrow> VariantResult" where
  "createVariant ident name isCtl conversions' clicks' =
     \<lparr> variantId = ident, variantName = name, isControl = isCtl, sampleSize = clicks',
       conversions = conversions', clicks = clicks',
       impressions = js_mul clicks' (Fin 100), spend = js_mul clicks' (Fin 5),
       revenue = js_mul conversions' (Fin 100),
       metrics = \<lparr> cvr = Fin 0, ctr = Fin 0, cpa = Fin 0, roas = Fin 0, cpc = Fin 0, cpm = Fin 0 \<rparr> \<rparr>"

definition scenario_control :: VariantResult where
  "scenario_control = createVariant ''control'' ''Control'' True (Fin 500) (Fin 5000)"

definition scenario_better :: VariantResult where
  "scenario_better = createVariant ''treatment'' ''Treatment'' False (Fin 700) (Fin 5000)"

definition scenario_similar :: VariantResult where
  "scenario_similar = createVariant ''treatment'' ''Treatment'' False (Fin 510) (Fin 5000)"

definition second_control :: VariantResult where
  "second_control = createVariant ''control2'' ''Control 2'' True (Fin 700) (Fin 5000)"

definition zero_click_control :: VariantResult where
  "zero_click_control = createVariant ''control'' ''Control'' True (Fin 0) (Fin 0)"

section \<open>Arithmetic on finite numbers\<close>

lemma js_add_Fin [simp]: "js_add (Fin a) (Fin b) = Fin (a + b)"
  by (simp add: js_add_def)

lemma js_sub_Fin [simp]: "js_sub (Fin a) (Fin b) = Fin (a - b)"
  by (simp add: js_sub_def js_add_def)

lemma js_mul_Fin: "js_mul (Fin a) (Fin b) = (if a * b = 0 then mk_zero ((a < 0) \<noteq> (b < 0)) else Fin (a * b))"
  by (simp add: js_mul_def)

lemma js_mul_Fin_pos [simp]: "0 \<le> a \<Longrightarrow> 0 \<le> b \<Longrightarrow> js_mul (Fin a) (Fin b) = Fin (a * b)"
  by (auto simp add: js_mul_def mk_zero_def)

lemma js_mul_Fin_nz: "a \<noteq> 0 \<Longrightarrow> b \<noteq> 0 \<Longrightarrow> js_mul (Fin a) (Fin b) = Fin (a * b)"
  by (auto simp add: js_mul_def mk_zero_def)

lemma js_div_Fin_nz: "b \<noteq> 0 \<Longrightarrow> a \<noteq> 0 \<Longrightarrow> js_div (Fin a) (Fin b) = Fin (a / b)"
  by (auto simp add: js_div_def mk_zero_def)

lemma js_div_Fin_pos [simp]: "0 < b \<Longrightarrow> 0 \<le> a \<Longrightarrow> js_div (Fin a) (Fin b) = Fin (a / b)"
  by (auto simp add: js_div_def mk_zero_def)

lemma js_lt_Fin [simp]: "js_lt (Fin a) (Fin b) = (a < b)"
  by (simp add: js_lt_def)

lemma js_gt_Fin [simp]: "js_gt (Fin a) (Fin b) = (b < a)"
  by (simp add: js_gt_def)

lemma js_eq_Fin [simp]: "js_eq (Fin a) (Fin b) = (a = b)"
  by (simp add: js_eq_def)

lemma fin_add: "is_fin a \<Longrightarrow> is_fin b \<Longrightarrow> is_fin (js_add a b) \<and> val (js_add a b) = val a + val b"
  by (cases a; cases b; simp add: js_add_def)

lemma fin_neg: "is_fin a \<Longrightarrow> is_fin (js_neg a) \<and> val (js_neg a) = - val a"
  by (cases a; simp)

lemma fin_sub: "is_fin a \<Longrightarrow> is_fin b \<Longrightarrow> is_fin (js_sub a b) \<and> val (js_sub a b) = val a - val b"
  using fin_add [of a "js_neg b"] fin_neg [of b] by (simp add: js_sub_def)

lemma fin_mul: "is_fin a \<Longrightarrow> is_fin b \<Longrightarrow> is_fin (js_mul a b) \<and> val (js_mul a b) = val a * val b"
  by (cases a; cases b; simp add: js_mul_def mk_zero_def)

lemma fin_div: "is_fin a \<Longrightarrow> is_fin b \<Longrightarrow> val b \<noteq> 0 \<Longrightarrow> is_fin (js_div a b) \<and> val (js_div a b) = val a / val b"
  by (cases a; cases b; simp add: js_div_def mk_zero_def)

lemma fin_lt: "is_fin a \<Longrightarrow> is_fin b \<Longrightarrow> js_lt a b = (val a < val b)"
  by (cases a; cases b; simp add: js_lt_def)

lemma fin_eq: "is_fin a \<Longrightarrow> is_fin b \<Longrightarrow> js_eq a b = (val a = val b)"
  by (cases a; cases b; simp add: js_eq_def)

lemma fin_sqrt: "is_fin a \<Longrightarrow> 0 \<le> val a \<Longrightarrow> is_fin (js_sqrt a) \<and> val (js_sqrt a) = sqrt (val a)"
  by (cases a; simp)

lemma fin_exp: "is_fin a \<Longrightarrow> is_fin (js_exp a) \<and> val (js_exp a) = exp (val a)"
  by (cases a; simp)

lemma fin_abs: "is_fin a \<Longrightarrow> is_fin (js_abs a) \<and> val (js_abs a) = \<bar>val a\<bar>"
  by (cases a; simp)


section \<open>The p-value approximation\<close>

lemma calculatePValue_fin:
  assumes "is_fin z"
  shows "is_fin (calculatePValue z) \<and> val (calculatePValue z) = pvalue_spec (val z)"
proof -
  let ?a = "js_abs z"
  have a: "is_fin ?a" "val ?a = \<bar>val z\<bar>" using fin_abs [OF assms] by auto
  let ?m = "js_mul (Fin (2316419 / 10000000)) ?a"
  have m: "is_fin ?m" "val ?m = 2316419 / 10000000 * \<bar>val z\<bar>"
    using fin_mul [of "Fin (2316419 / 10000000)" ?a] a by auto
  let ?s = "js_add (Fin 1) ?m"
  have s: "is_fin ?s" "val ?s = 1 + 2316419 / 10000000 * \<bar>val z\<bar>"
    using fin_add [of "Fin 1" ?m] m by auto
  have spos: "val ?s \<noteq> 0" using s(2) by (smt (verit) abs_ge_zero mult_nonneg_nonneg divide_nonneg_nonneg)
  let ?t = "js_div (Fin 1) ?s"
  have t: "is_fin ?t" "val ?t = 1 / (1 + 2316419 / 10000000 * \<bar>val z\<bar>)"
    using fin_div [of "Fin 1" ?s] s spos by auto
  let ?e = "js_div (js_mul (js_neg ?a) ?a) (Fin 2)"
  have n: "is_fin (js_neg ?a)" "val (js_neg ?a) = - \<bar>val z\<bar>" using fin_neg [of ?a] a by auto
  have nn: "is_fin (js_mul (js_neg ?a) ?a)" "val (js_mul (js_neg ?a) ?a) = - \<bar>val z\<bar> * \<bar>val z\<bar>"
    using fin_mul [of "js_neg ?a" ?a] n a by auto
  have e: "is_fin ?e" "val ?e = - ((val z)\<^sup>2) / 2"
    using fin_div [of "js_mul (js_neg ?a) ?a" "Fin 2"] nn by (auto simp: power2_eq_square)
  let ?d = "js_mul (Fin (3989423 / 10000000)) (js_exp ?e)"
  have ex: "is_fin (js_exp ?e)" "val (js_exp ?e) = exp (- ((val z)\<^sup>2) / 2)"
    using fin_exp [of ?e] e by auto
  have d: "is_fin ?d" "val ?d = 3989423 / 10000000 * exp (- ((val z)\<^sup>2) / 2)"
    using fin_mul [of "Fin (3989423 / 10000000)" "js_exp ?e"] ex by auto
  let ?p5 = "js_mul ?t (Fin (1330274 / 1000000))"
  have p5: "is_fin ?p5" "val ?p5 = val ?t * (1330274 / 1000000)"
    using fin_mul [of ?t "Fin (1330274 / 1000000)"] t by auto
  let ?p4 = "js_mul ?t (js_add (Fin (- (1821256 / 1000000))) ?p5)"
  have p4: "is_fin ?p4" "val ?p4 = val ?t * (- (1821256 / 1000000) + val ?p5)"
    using fin_add [of "Fin (- (1821256 / 1000000))" ?p5] fin_mul [of ?t "js_add (Fin (- (1821256 / 1000000))) ?p5"] t(1) p5(1) by auto
  let ?p3 = "js_mul ?t (js_add (Fin (1781478 / 1000000)) ?p4)"
  have p3: "is_fin ?p3" "val ?p3 = val ?t * (1781478 / 1000000 + val ?p4)"
    using fin_add [of "Fin (1781478 / 1000000)" ?p4] fin_mul [of ?t "js_add (Fin (1781478 / 1000000)) ?p4"] t(1) p4(1) by auto
  let ?p2 = "js_mul ?t (js_add (Fin (- (3565638 / 10000000))) ?p3)"
  have p2: "is_fin ?p2" "val ?p2 = val ?t * (- (3565638 / 10000000) + val ?p3)"
    using fin_add [of "Fin (- (3565638 / 10000000))" ?p3] fin_mul [of ?t "js_add (Fin (- (3565638 / 10000000))) ?p3"] t(1) p3(1) by auto
  let ?p1 = "js_add (Fin (3193815 / 10000000)) ?p2"
  have p1: "is_fin ?p1" "val ?p1 = tail_poly (val ?t)"
    using fin_add [of "Fin (3193815 / 10000000)" ?p2] p2 p3(2) p4(2) p5(2) by (auto simp: tail_poly_def)
  have dt: "is_fin (js_mul ?d ?t)" "val (js_mul ?d ?t) = val ?d * val ?t"
    using fin_mul [of ?d ?t] d(1) t(1) by auto
  let ?p = "js_mul (js_mul ?d ?t) ?p1"
  have p: "is_fin ?p" "val ?p = val ?d * val ?t * tail_poly (val ?t)"
    using fin_mul [of "js_mul ?d ?t" ?p1] dt p1 by auto
  have r: "is_fin (js_mul (Fin 2) ?p)" "val (js_mul (Fin 2) ?p) = 2 * val ?p"
    using fin_mul [of "Fin 2" ?p] p(1) by auto
  have c: "calculatePValue z = js_mul (Fin 2) ?p"
    by (simp add: calculatePValue_def Let_def)
  have "val (js_mul (Fin 2) ?p) = 2 * (val ?d * val ?t * tail_poly (val ?t))"
    using r(2) p(2) by simp
  then have "val (calculatePValue z) = pvalue_spec (val z)"
    unfolding c pvalue_spec_def Let_def d(2) t(2) .
  with r(1) c show ?thesis by simp
qed

lemma pvalue_spec_0: "\<bar>pvalue_spec 0 - 1\<bar> < 1 / 10"
  by (simp add: pvalue_spec_def tail_poly_def Let_def)

lemma exp_neg_19208_lower: "(1292 / 10000 :: real) \<le> exp (- (19208 / 10000))"
proof -
  have "(1 - (19208 / 10000) / of_nat 16) ^ 16 \<le> exp (- (19208 / 10000 :: real))"
    by (rule exp_ge_one_minus_x_over_n_power_n) simp_all
  moreover have "(1292 / 10000 :: real) \<le> (1 - (19208 / 10000) / of_nat 16) ^ 16"
    by (simp add: power_divide)
  ultimately show ?thesis by linarith
qed

lemma exp_neg_19208_upper: "exp (- (19208 / 10000)) \<le> (1631 / 10000 :: real)"
proof -
  have "(1 + (19208 / 10000) / of_nat 16) ^ 16 \<le> exp (19208 / 10000 :: real)"
    by (rule exp_ge_one_plus_x_over_n_power_n) simp_all
  moreover have "(10000 / 1631 :: real) \<le> (1 + (19208 / 10000) / of_nat 16) ^ 16"
    by (simp add: power_divide)
  ultimately have "(10000 / 1631 :: real) \<le> exp (19208 / 10000)" by linarith
  then have "inverse (exp (19208 / 10000 :: real)) \<le> inverse (10000 / 1631)"
    by (intro le_imp_inverse_le) simp_all
  then show ?thesis by (simp add: exp_minus)
qed

lemma pvalue_spec_196: "\<bar>pvalue_spec (196 / 100) - 5 / 100\<bar> < 1 / 100"
proof -
  define e :: real where "e = exp (- (19208 / 10000))"
  define c :: real where
    "c = 2 * (3989423 / 10000000 * (1 / (1 + 2316419 / 10000000 * (196 / 100))
           * tail_poly (1 / (1 + 2316419 / 10000000 * (196 / 100)))))"
  have eq: "- ((196 / 100 :: real)\<^sup>2) / 2 = - (19208 / 10000)" by (simp add: power2_eq_square)
  have e1: "1292 / 10000 \<le> e" and e2: "e \<le> 1631 / 10000"
    using exp_neg_19208_lower exp_neg_19208_upper by (simp_all add: e_def)
  have c1: "34 / 100 \<le> c" and c2: "c \<le> 35 / 100"
    by (simp_all add: c_def tail_poly_def)
  have p: "pvalue_spec (196 / 100) = e * c"
    unfolding pvalue_spec_def Let_def eq e_def c_def by simp
  have "1292 / 10000 * (34 / 100) \<le> e * c"
    using e1 c1 by (intro mult_mono) simp_all
  moreover have "e * c \<le> 1631 / 10000 * (35 / 100)"
    using e1 e2 c1 c2 by (intro mult_mono) simp_all
  ultimately have "4 / 100 < pvalue_spec (196 / 100)" "pvalue_spec (196 / 100) < 6 / 100"
    unfolding p by linarith+
  then show ?thesis by linarith
qed


section \<open>Bounds on the p-value\<close>

lemma js_mul_Fin_if [simp]: "js_mul (Fin a) (Fin b) = (if a * b = 0 then mk_zero ((a < 0) \<noteq> (b < 0)) else Fin (a * b))"
  by (simp add: js_mul_def)

lemma js_div_Fin_if [simp]: "js_div (Fin a) (Fin b) =
   (if b = 0 then (if a = 0 then NaN else mk_inf ((a < 0) \<noteq> (b < 0)))
    else if a = 0 then mk_zero ((a < 0) \<noteq> (b < 0)) else Fin (a / b))"
  by (simp add: js_div_def)

lemma tail_poly_upper:
  assumes "0 \<le> t" "t \<le> 1"
  shows "t * tail_poly t \<le> 35 / 10"
proof -
  have p2: "0 \<le> t ^ 2" and p4: "0 \<le> t ^ 4" using assms by simp_all
  have p1: "t \<le> 1" and p3: "t ^ 3 \<le> 1" and p5: "t ^ 5 \<le> 1"
    using assms by (simp_all add: power_le_one)
  have "t * tail_poly t = 3193815 / 10000000 * t - 3565638 / 10000000 * t ^ 2
      + 1781478 / 1000000 * t ^ 3 - 1821256 / 1000000 * t ^ 4 + 1330274 / 1000000 * t ^ 5"
    unfolding tail_poly_def by (simp add: eval_nat_numeral field_simps)
  then show ?thesis using p1 p2 p3 p4 p5 by linarith
qed

lemma tail_poly_lower:
  assumes "92 / 100 \<le> t" "t \<le> 1"
  shows "37 / 100 \<le> t * tail_poly t"
proof -
  have p2: "t ^ 2 \<le> 1" and p4: "t ^ 4 \<le> 1" using assms by (simp_all add: power_le_one)
  have "(92 / 100) ^ 3 \<le> t ^ 3" using assms by (intro power_mono) simp_all
  then have p3: "778688 / 1000000 \<le> t ^ 3" by (simp add: power_divide)
  have "(92 / 100) ^ 5 \<le> t ^ 5" using assms by (intro power_mono) simp_all
  then have p5: "6590815232 / 10000000000 \<le> t ^ 5" by (simp add: power_divide)
  have "t * tail_poly t = 3193815 / 10000000 * t - 3565638 / 10000000 * t ^ 2
      + 1781478 / 1000000 * t ^ 3 - 1821256 / 1000000 * t ^ 4 + 1330274 / 1000000 * t ^ 5"
    unfolding tail_poly_def by (simp add: eval_nat_numeral field_simps)
  then show ?thesis using assms(1) p2 p3 p4 p5 by linarith
qed

lemma pvalue_spec_eq: "pvalue_spec z = 2 * (3989423 / 10000000) * exp (- (z\<^sup>2) / 2) *
    ((1 / (1 + 2316419 / 10000000 * \<bar>z\<bar>)) * tail_poly (1 / (1 + 2316419 / 10000000 * \<bar>z\<bar>)))"
  by (simp add: pvalue_spec_def Let_def)

lemma pvalue_spec_small:
  assumes "38 \<le> z\<^sup>2"
  shows "pvalue_spec z < 5 / 100"
proof -
  define t where "t = 1 / (1 + 2316419 / 10000000 * \<bar>z\<bar>)"
  have den: "1 \<le> 1 + 2316419 / 10000000 * \<bar>z\<bar>" by simp
  have t: "0 \<le> t" "t \<le> 1" using den by (simp_all add: t_def)
  have tp: "t * tail_poly t \<le> 35 / 10" using tail_poly_upper [OF t] .
  have "(1 + 19 / of_nat 16) ^ 16 \<le> exp (19 :: real)"
    by (rule exp_ge_one_plus_x_over_n_power_n) simp_all
  moreover have "(1000 :: real) \<le> (1 + 19 / of_nat 16) ^ 16" by (simp add: power_divide)
  ultimately have "(1000 :: real) \<le> exp 19" by linarith
  then have "inverse (exp (19 :: real)) \<le> inverse 1000" by (intro le_imp_inverse_le) simp_all
  then have e19: "exp (- 19 :: real) \<le> 1 / 1000" by (simp add: exp_minus)
  have "exp (- (z\<^sup>2) / 2) \<le> exp (- 19 :: real)" using assms by simp
  with e19 have e: "exp (- (z\<^sup>2) / 2) \<le> 1 / 1000" by linarith
  have e0: "0 \<le> exp (- (z\<^sup>2) / 2)" by simp
  have "exp (- (z\<^sup>2) / 2) * (t * tail_poly t) \<le> 1 / 1000 * (35 / 10)"
  proof (cases "0 \<le> t * tail_poly t")
    case True
    then show ?thesis using e tp by (intro mult_mono) simp_all
  next
    case False
    then have "exp (- (z\<^sup>2) / 2) * (t * tail_poly t) \<le> 0"
      using e0 by (simp add: mult_nonneg_nonpos)
    then show ?thesis by linarith
  qed
  then have "2 * (3989423 / 10000000) * (exp (- (z\<^sup>2) / 2) * (t * tail_poly t)) < 5 / 100"
    by linarith
  then show ?thesis unfolding pvalue_spec_eq t_def by (simp add: mult.assoc)
qed

lemma pvalue_spec_large:
  assumes "\<bar>z\<bar> \<le> 34 / 100"
  shows "5 / 100 \<le> pvalue_spec z"
proof -
  define t where "t = 1 / (1 + 2316419 / 10000000 * \<bar>z\<bar>)"
  have "1 + 2316419 / 10000000 * \<bar>z\<bar> \<le> 1 + 2316419 / 10000000 * (34 / 100)"
    using assms by simp
  then have "1 / (1 + 2316419 / 10000000 * (34 / 100)) \<le> t"
    unfolding t_def by (intro divide_left_mono) (simp_all add: add_pos_nonneg)
  then have t1: "92 / 100 \<le> t" by simp
  have t2: "t \<le> 1" by (simp add: t_def)
  have tp: "37 / 100 \<le> t * tail_poly t" using tail_poly_lower [OF t1 t2] .
  have "\<bar>z\<bar> \<le> \<bar>34 / 100\<bar>" using assms by simp
  then have "z\<^sup>2 \<le> (34 / 100)\<^sup>2" by (simp only: abs_le_square_iff)
  then have z2: "z\<^sup>2 / 2 \<le> 6 / 100" by (simp add: power2_eq_square)
  have "1 + (- (z\<^sup>2) / 2) \<le> exp (- (z\<^sup>2) / 2)" by (rule exp_ge_add_one_self)
  with z2 have e: "94 / 100 \<le> exp (- (z\<^sup>2) / 2)" by linarith
  have "94 / 100 * (37 / 100) \<le> exp (- (z\<^sup>2) / 2) * (t * tail_poly t)"
    using e tp by (intro mult_mono) simp_all
  then have "5 / 100 \<le> 2 * (3989423 / 10000000) * (exp (- (z\<^sup>2) / 2) * (t * tail_poly t))"
    by linarith
  then show ?thesis unfolding pvalue_spec_eq t_def by (simp add: mult.assoc)
qed

section \<open>The two loops of the winner selector\<close>

lemma js_gt_irrefl: "\<not> js_gt a a"
  by (simp add: js_gt_def js_lt_def)

lemma js_gt_chain: "js_gt c b \<Longrightarrow> \<not> js_gt a b \<Longrightarrow> js_gt a z \<Longrightarrow> \<not> js_gt a c"
  by (auto simp add: js_gt_def js_lt_def)

lemma best_inv_step:
  assumes "best_inv c pm cl ts st"
  shows "best_inv c pm cl (ts @ [t]) (best_step c pm cl st t)"
proof (cases "qualifies c pm cl t")
  case False
  then have "best_step c pm cl st t = st"
    by (auto simp add: best_step_def qualifies_def Let_def)
  with assms False show ?thesis
    by (auto simp: best_inv_def list_ex_iff list_all_iff)
next
  case q: True
  show ?thesis
  proof (cases "js_gt (improvementOf c pm t) (bestImprovement st)")
    case True
    then have st': "best_step c pm cl st t =
        \<lparr> bestTreatment = Some t, bestImprovement = improvementOf c pm t,
          bestConfidence = js_sub (Fin 1) (pValue (testSignificance c t pm cl)),
          significantWinner = True \<rparr>"
      using q by (simp add: best_step_def qualifies_def Let_def)
    have "\<not> (qualifies c pm cl t' \<and> js_gt (improvementOf c pm t') (improvementOf c pm t))"
      if "t' \<in> set ts" for t'
    proof (cases "significantWinner st")
      case False
      with assms that show ?thesis by (auto simp: best_inv_def list_all_iff)
    next
      case sw: True
      with assms obtain b where b: "bestImprovement st = improvementOf c pm b"
        "\<forall>t'\<in>set ts. \<not> (qualifies c pm cl t' \<and> js_gt (improvementOf c pm t') (improvementOf c pm b))"
        by (auto simp: best_inv_def list_ex_iff list_all_iff)
      show ?thesis
      proof
        assume a: "qualifies c pm cl t' \<and> js_gt (improvementOf c pm t') (improvementOf c pm t)"
        with b that have "\<not> js_gt (improvementOf c pm t') (bestImprovement st)" by auto
        moreover have "js_gt (improvementOf c pm t') (Fin 0)" using a by (simp add: qualifies_def)
        ultimately have "\<not> js_gt (improvementOf c pm t') (improvementOf c pm t)"
          using True js_gt_chain by blast
        with a show False by simp
      qed
    qed
    then show ?thesis
      using q by (auto simp: best_inv_def st' list_ex_iff list_all_iff js_gt_irrefl)
  next
    case ng: False
    then have st': "best_step c pm cl st t = st"
      by (simp add: best_step_def Let_def)
    have sw: "significantWinner st"
    proof (rule ccontr)
      assume "\<not> significantWinner st"
      with assms have "bestImprovement st = Fin 0" by (simp add: best_inv_def best_init_def)
      with ng q show False by (simp add: qualifies_def)
    qed
    with assms obtain b where b: "b \<in> set ts" "qualifies c pm cl b" "bestTreatment st = Some b"
        "bestImprovement st = improvementOf c pm b"
        "bestConfidence st = js_sub (Fin 1) (pValue (testSignificance c b pm cl))"
        "\<forall>t'\<in>set ts. \<not> (qualifies c pm cl t' \<and> js_gt (improvementOf c pm t') (improvementOf c pm b))"
      by (auto simp: best_inv_def list_ex_iff list_all_iff)
    then show ?thesis
      using sw ng unfolding st' best_inv_def list_ex_iff list_all_iff by auto
  qed
qed

lemma best_inv_foldl:
  "best_inv c pm cl ts0 st \<Longrightarrow>
   best_inv c pm cl (ts0 @ ts) (foldl (best_step c pm cl) st ts)"
proof (induction ts arbitrary: ts0 st)
  case Nil
  then show ?case by simp
next
  case (Cons t ts)
  from best_inv_step [OF Cons.prems, of t]
  have "best_inv c pm cl ((ts0 @ [t]) @ ts) (foldl (best_step c pm cl) (best_step c pm cl st t) ts)"
    by (rule Cons.IH)
  then show ?case by simp
qed

lemma best_inv_final:
  "best_inv c pm cl ts (foldl (best_step c pm cl) best_init ts)"
  using best_inv_foldl [of c pm cl "[]" best_init ts] by (simp add: best_inv_def best_init_def)

lemma control_loop_None:
  "control_loop c pm cl ts = None \<longleftrightarrow> list_all (\<lambda>t. \<not> beaten c pm cl t) ts"
  by (induction ts) (auto simp: beaten_def Let_def)

lemma control_loop_Some:
  "control_loop c pm cl ts = Some d \<Longrightarrow>
   status d = Loser \<and> winnerVariantId d = Some (variantId c) \<and> improvement d = None
   \<and> reason d = [Txt ''Control outperformed all treatments'']
   \<and> list_ex (\<lambda>t. beaten c pm cl t \<and> confidence d = js_sub (Fin 1) (pValue (testSignificance c t pm cl))) ts"
  by (induction ts) (auto simp: beaten_def Let_def split: if_splits)


section \<open>Significance in the two scenarios\<close>

lemma isSignificant_eq:
  "isSignificant (testSignificance c t m cl) =
     js_lt (calculatePValue (zScore (testSignificance c t m cl))) (js_sub (Fin 1) cl)"
  by (simp add: testSignificance_def Let_def split: MetricType.splits)

lemma pValue_eq:
  "pValue (testSignificance c t m cl) = calculatePValue (zScore (testSignificance c t m cl))"
  by (simp add: testSignificance_def Let_def split: MetricType.splits)

lemma significant_of_z:
  assumes "zScore (testSignificance c t m (Fin (95 / 100))) = Fin z" "38 \<le> z\<^sup>2"
  shows "isSignificant (testSignificance c t m (Fin (95 / 100)))"
proof -
  have f: "is_fin (calculatePValue (Fin z))" "val (calculatePValue (Fin z)) = pvalue_spec z"
    using calculatePValue_fin [of "Fin z"] by simp_all
  have "val (calculatePValue (Fin z)) < 5 / 100"
    unfolding f(2) using assms(2) by (rule pvalue_spec_small)
  then have "js_lt (calculatePValue (Fin z)) (Fin (5 / 100))"
    using f(1) fin_lt [of "calculatePValue (Fin z)" "Fin (5 / 100)"] by simp
  then show ?thesis unfolding isSignificant_eq assms(1) by simp
qed

lemma not_significant_of_z:
  assumes "zScore (testSignificance c t m (Fin (95 / 100))) = Fin z" "\<bar>z\<bar> \<le> 34 / 100"
  shows "\<not> isSignificant (testSignificance c t m (Fin (95 / 100)))"
proof -
  have f: "is_fin (calculatePValue (Fin z))" "val (calculatePValue (Fin z)) = pvalue_spec z"
    using calculatePValue_fin [of "Fin z"] by simp_all
  have "5 / 100 \<le> val (calculatePValue (Fin z))"
    unfolding f(2) using assms(2) by (rule pvalue_spec_large)
  then have "\<not> js_lt (calculatePValue (Fin z)) (Fin (5 / 100))"
    using f(1) fin_lt [of "calculatePValue (Fin z)" "Fin (5 / 100)"] by simp
  then show ?thesis unfolding isSignificant_eq assms(1) by simp
qed

lemma scenario_winner_z:
  assumes "clicks c = Fin 5000" "conversions c = Fin 500" "clicks t = Fin 5000" "conversions t = Fin 700"
  shows "zScore (testSignificance c t Cvr cl) = Fin ((4 / 100) / sqrt (4208 / 100000000))"
  using assms
  by (simp add: testSignificance_def calculateVariantMetrics_def calculateCVR_def calculateStandardError_def
      calculateZScore_def Let_def)

lemma scenario_winner_qualifies:
  assumes "clicks c = Fin 5000" "conversions c = Fin 500" "clicks t = Fin 5000" "conversions t = Fin 700"
  shows "qualifies c Cvr (Fin (95 / 100)) t" "improvementOf c Cvr t = Fin 40"
proof -
  have "(38 :: real) \<le> ((4 / 100) / sqrt (4208 / 100000000))\<^sup>2"
    by (simp add: power_divide)
  with scenario_winner_z [OF assms] have "isSignificant (testSignificance c t Cvr (Fin (95 / 100)))"
    by (rule significant_of_z)
  moreover show i: "improvementOf c Cvr t = Fin 40"
    using assms by (simp add: improvementOf_def getMetricValue_def calculateVariantMetrics_def
        calculateCVR_def isLowerBetter_def Let_def)
  ultimately show "qualifies c Cvr (Fin (95 / 100)) t" by (simp add: qualifies_def)
qed

lemma scenario_tie_z:
  assumes "clicks c = Fin 5000" "conversions c = Fin 500" "clicks t = Fin 5000" "conversions t = Fin 510"
  shows "zScore (testSignificance c t Cvr cl) = Fin ((2 / 1000) / sqrt (363192 / 10000000000))"
  using assms
  by (simp add: testSignificance_def calculateVariantMetrics_def calculateCVR_def calculateStandardError_def
      calculateZScore_def Let_def)

lemma scenario_tie_not_significant:
  assumes "clicks c = Fin 5000" "conversions c = Fin 500" "clicks t = Fin 5000" "conversions t = Fin 510"
  shows "\<not> isSignificant (testSignificance c t Cvr (Fin (95 / 100)))"
proof -
  define z :: real where "z = (2 / 1000) / sqrt (363192 / 10000000000)"
  have "z\<^sup>2 \<le> (34 / 100)\<^sup>2"
    by (simp add: z_def power_divide)
  then have "\<bar>z\<bar> \<le> \<bar>34 / 100\<bar>"
    by (simp only: abs_le_square_iff)
  then have "\<bar>z\<bar> \<le> 34 / 100" by simp
  with scenario_tie_z [OF assms, folded z_def] show ?thesis by (rule not_significant_of_z)
qed


section \<open>The decision of the winner selector\<close>

lemma createVariant_simps [simp]:
  "variantId (createVariant i n c k m) = i"
  "variantName (createVariant i n c k m) = n"
  "isControl (createVariant i n c k m) = c"
  "sampleSize (createVariant i n c k m) = m"
  "conversions (createVariant i n c k m) = k"
  "clicks (createVariant i n c k m) = m"
  "impressions (createVariant i n c k m) = js_mul m (Fin 100)"
  "spend (createVariant i n c k m) = js_mul m (Fin 5)"
  "revenue (createVariant i n c k m) = js_mul k (Fin 100)"
  by (simp_all add: createVariant_def)

lemma determineWinner_pass:
  assumes "\<not> length variants < 2" "find isControl variants = Some control"
    "\<not> js_lt (totalSampleSize variants) minSampleSize"
  shows "determineWinner variants pm cl minSampleSize
         = compareTreatments control (filter (\<lambda>v. \<not> isControl v) variants) pm cl"
  using assms by (simp add: determineWinner_def)

lemma compareTreatments_winner_iff:
  "status (compareTreatments c ts pm cl) = Winner \<longleftrightarrow> (\<exists>t \<in> set ts. qualifies c pm cl t)"
proof -
  define st where "st = foldl (best_step c pm cl) best_init ts"
  have inv: "best_inv c pm cl ts st" unfolding st_def by (rule best_inv_final)
  show ?thesis
  proof (cases "significantWinner st")
    case True
    with inv obtain t where "t \<in> set ts" "qualifies c pm cl t" "bestTreatment st = Some t"
      by (auto simp: best_inv_def list_ex_iff)
    with True show ?thesis
      by (auto simp: compareTreatments_def Let_def st_def [symmetric])
  next
    case False
    with inv have n: "\<forall>t \<in> set ts. \<not> qualifies c pm cl t"
      by (auto simp: best_inv_def list_all_iff)
    have "status (compareTreatments c ts pm cl) \<noteq> Winner"
      using False control_loop_Some [of c pm cl ts]
      by (auto simp: compareTreatments_def Let_def st_def [symmetric] split: option.splits)
    with n show ?thesis by blast
  qed
qed

lemma compareTreatments_winner_props:
  assumes "status (compareTreatments c ts pm cl) = Winner"
  shows "\<exists>t \<in> set ts. qualifies c pm cl t
      \<and> winnerVariantId (compareTreatments c ts pm cl) = Some (variantId t)
      \<and> improvement (compareTreatments c ts pm cl) = Some (improvementOf c pm t)
      \<and> confidence (compareTreatments c ts pm cl)
          = js_sub (Fin 1) (pValue (testSignificance c t pm cl))
      \<and> (\<forall>t' \<in> set ts. qualifies c pm cl t' \<longrightarrow>
            \<not> js_gt (improvementOf c pm t') (improvementOf c pm t))"
proof -
  define st where "st = foldl (best_step c pm cl) best_init ts"
  have inv: "best_inv c pm cl ts st" unfolding st_def by (rule best_inv_final)
  have sw: "significantWinner st"
  proof (rule ccontr)
    assume "\<not> significantWinner st"
    then have "status (compareTreatments c ts pm cl) \<noteq> Winner"
      using control_loop_Some [of c pm cl ts]
      by (auto simp: compareTreatments_def Let_def st_def [symmetric] split: option.splits)
    with assms show False by simp
  qed
  with inv obtain t where t: "t \<in> set ts" "qualifies c pm cl t" "bestTreatment st = Some t"
    "bestImprovement st = improvementOf c pm t"
    "bestConfidence st = js_sub (Fin 1) (pValue (testSignificance c t pm cl))"
    "\<forall>t' \<in> set ts. \<not> (qualifies c pm cl t'
         \<and> js_gt (improvementOf c pm t') (improvementOf c pm t))"
    by (auto simp: best_inv_def list_ex_iff list_all_iff)
  have "compareTreatments c ts pm cl =
      \<lparr> status = Winner, winnerVariantId = Some (variantId t),
        improvement = Some (improvementOf c pm t),
        confidence = js_sub (Fin 1) (pValue (testSignificance c t pm cl)),
        reason = [Txt (variantName t), Txt '' outperformed control by '',
                  Fixed 1 (improvementOf c pm t), Txt ''%''] \<rparr>"
    using sw t(3,4,5) by (simp add: compareTreatments_def Let_def st_def [symmetric])
  with t(1,2,6) show ?thesis by auto
qed

lemma compareTreatments_no_winner:
  assumes "\<forall>t \<in> set ts. \<not> qualifies c pm cl t"
  shows "compareTreatments c ts pm cl =
     (case control_loop c pm cl ts of Some d \<Rightarrow> d | None \<Rightarrow> tieDecision)"
proof -
  define st where "st = foldl (best_step c pm cl) best_init ts"
  have inv: "best_inv c pm cl ts st" unfolding st_def by (rule best_inv_final)
  have "\<not> significantWinner st"
  proof
    assume "significantWinner st"
    with inv obtain t where "t \<in> set ts" "qualifies c pm cl t"
      by (auto simp: best_inv_def list_ex_iff)
    with assms show False by blast
  qed
  then show ?thesis
    by (simp add: compareTreatments_def Let_def st_def [symmetric] tieDecision_def split: option.splits)
qed

lemma compareTreatments_loser_iff:
  assumes "\<forall>t \<in> set ts. \<not> qualifies c pm cl t"
  shows "status (compareTreatments c ts pm cl) = Loser \<longleftrightarrow> (\<exists>t \<in> set ts. beaten c pm cl t)"
    and "(\<exists>t \<in> set ts. beaten c pm cl t) \<Longrightarrow>
         winnerVariantId (compareTreatments c ts pm cl) = Some (variantId c)
         \<and> (\<exists>t \<in> set ts. beaten c pm cl t
              \<and> confidence (compareTreatments c ts pm cl)
                  = js_sub (Fin 1) (pValue (testSignificance c t pm cl)))"
    and "\<not> (\<exists>t \<in> set ts. beaten c pm cl t) \<Longrightarrow> compareTreatments c ts pm cl = tieDecision"
proof -
  note eq = compareTreatments_no_winner [OF assms]
  show "status (compareTreatments c ts pm cl) = Loser \<longleftrightarrow> (\<exists>t \<in> set ts. beaten c pm cl t)"
  proof (cases "control_loop c pm cl ts")
    case None
    then show ?thesis
      using control_loop_None [of c pm cl ts] by (simp add: eq tieDecision_def list_all_iff)
  next
    case (Some d)
    then show ?thesis
      using control_loop_Some [OF Some] by (auto simp add: eq list_ex_iff)
  qed
  show "winnerVariantId (compareTreatments c ts pm cl) = Some (variantId c)
         \<and> (\<exists>t \<in> set ts. beaten c pm cl t
              \<and> confidence (compareTreatments c ts pm cl)
                  = js_sub (Fin 1) (pValue (testSignificance c t pm cl)))"
    if "\<exists>t \<in> set ts. beaten c pm cl t"
  proof (cases "control_loop c pm cl ts")
    case None
    with that show ?thesis
      using control_loop_None [of c pm cl ts] by (auto simp add: list_all_iff)
  next
    case (Some d)
    then show ?thesis
      using control_loop_Some [OF Some] by (auto simp add: eq list_ex_iff)
  qed
  show "compareTreatments c ts pm cl = tieDecision" if "\<not> (\<exists>t \<in> set ts. beaten c pm cl t)"
  proof -
    from that have "control_loop c pm cl ts = None"
      using control_loop_None [of c pm cl ts] by (auto simp add: list_all_iff)
    then show ?thesis by (simp add: eq)
  qed
qed


lemma filter_treatments: "t \<in> set (filter (\<lambda>v. \<not> isControl v) variants) \<longleftrightarrow> t \<in> set variants \<and> \<not> isControl t"
  by auto

lemma scenario_simps [simp]:
  "isControl scenario_control" "clicks scenario_control = Fin 5000"
  "conversions scenario_control = Fin 500" "sampleSize scenario_control = Fin 5000"
  "variantId scenario_control = ''control''"
  "\<not> isControl scenario_better" "clicks scenario_better = Fin 5000"
  "conversions scenario_better = Fin 700" "sampleSize scenario_better = Fin 5000"
  "variantId scenario_better = ''treatment''"
  "\<not> isControl scenario_similar" "clicks scenario_similar = Fin 5000"
  "conversions scenario_similar = Fin 510" "sampleSize scenario_similar = Fin 5000"
  "variantId scenario_similar = ''treatment''"
  by (simp_all add: scenario_control_def scenario_better_def scenario_similar_def)

lemma find_first:
  "(\<forall>v \<in> set pre. \<not> P v) \<Longrightarrow> P c \<Longrightarrow> find P (pre @ c # post) = Some c"
  by (induction pre) auto

section \<open>Zero control metric, sample-size planner, learnings\<close>

lemma zero_click_simps [simp]:
  "isControl zero_click_control" "clicks zero_click_control = Fin 0"
  "conversions zero_click_control = Fin 0" "sampleSize zero_click_control = Fin 0"
  "spend zero_click_control = Fin 0" "variantId zero_click_control = ''control''"
  by (simp_all add: zero_click_control_def mk_zero_def)

lemma scenario_better_spend [simp]: "spend scenario_better = Fin 25000"
  by (simp add: scenario_better_def)

lemma zero_control_z:
  assumes "clicks c = Fin 0" "clicks t = Fin 5000" "conversions t = Fin 700"
  shows "zScore (testSignificance c t Cvr cl) = Fin ((14 / 100) / sqrt (2408 / 100000000))"
    and "zScore (testSignificance c t Cpc cl) = Fin ((14 / 100) / sqrt (2408 / 100000000))"
  using assms
  by (simp_all add: testSignificance_def calculateVariantMetrics_def calculateCVR_def
      calculateStandardError_def calculateZScore_def Let_def mk_zero_def)

lemma zero_control_significant:
  assumes "clicks c = Fin 0" "clicks t = Fin 5000" "conversions t = Fin 700"
  shows "isSignificant (testSignificance c t Cvr (Fin (95 / 100)))"
    and "isSignificant (testSignificance c t Cpc (Fin (95 / 100)))"
proof -
  have z: "(38 :: real) \<le> ((14 / 100) / sqrt (2408 / 100000000))\<^sup>2"
    by (simp add: power_divide)
  from zero_control_z(1) [OF assms] z
  show "isSignificant (testSignificance c t Cvr (Fin (95 / 100)))" by (rule significant_of_z)
  from zero_control_z(2) [OF assms] z
  show "isSignificant (testSignificance c t Cpc (Fin (95 / 100)))" by (rule significant_of_z)
qed

lemma improvement_zero_control:
  "js_gt x (Fin 0) \<Longrightarrow> js_mul (js_div (js_sub x (Fin 0)) (Fin 0)) (Fin 100) = PInf"
  by (cases x) (auto simp: js_gt_def js_lt_def js_sub_def js_add_def js_div_def js_mul_def
      mk_inf_def mk_zero_def)

lemma improvement_zero_control_pos:
  "js_gt (js_mul (js_div (js_sub x (Fin 0)) (Fin 0)) (Fin 100)) (Fin 0) \<Longrightarrow>
   js_mul (js_div (js_sub x (Fin 0)) (Fin 0)) (Fin 100) = PInf \<and> js_gt x (Fin 0)"
  by (cases x) (auto simp: js_gt_def js_lt_def js_sub_def js_add_def js_div_def js_mul_def
      mk_inf_def mk_zero_def split: if_splits)

lemma mk_simps [simp]:
  "mk_zero False = Fin 0" "mk_zero True = NZero" "mk_inf False = PInf" "mk_inf True = NInf"
  by (simp_all add: mk_zero_def mk_inf_def)

lemma is_fin_pos: "is_fin x \<Longrightarrow> 0 < val x \<Longrightarrow> x = Fin (val x)"
  by (cases x) simp_all

lemma variance_ratio_mono:
  fixes q x y :: real
  assumes "0 \<le> q" "0 < x" "x < y" "q + y \<le> 1"
  shows "(q + y / 2) * (1 - (q + y / 2)) / y\<^sup>2 \<le> (q + x / 2) * (1 - (q + x / 2)) / x\<^sup>2"
proof -
  have a: "0 \<le> q * (1 - q - y) * (x + y)" using assms by simp
  have b: "0 \<le> q * y\<^sup>2" using assms by simp
  have c: "0 \<le> x * y / 2" using assms by simp
  have "(q + x / 2) * (1 - (q + x / 2)) * y\<^sup>2 - (q + y / 2) * (1 - (q + y / 2)) * x\<^sup>2
      = (y - x) * (q * (1 - q - y) * (x + y) + q * y\<^sup>2 + x * y / 2)"
    by algebra
  moreover have "0 \<le> (y - x) * (q * (1 - q - y) * (x + y) + q * y\<^sup>2 + x * y / 2)"
    using assms a b c by (intro mult_nonneg_nonneg) simp_all
  ultimately have "(q + y / 2) * (1 - (q + y / 2)) * x\<^sup>2 \<le> (q + x / 2) * (1 - (q + x / 2)) * y\<^sup>2"
    by linarith
  then show ?thesis
    using assms by (simp add: field_simps)
qed

lemma sort_insert_nonempty: "sort_insert cmp x ys \<noteq> []"
  by (cases ys) auto

lemma js_sort_empty_iff: "js_sort cmp xs = [] \<longleftrightarrow> xs = []"
  by (cases xs) (auto simp: sort_insert_nonempty)

lemma generateLearnings_nonempty:
  "variants \<noteq> [] \<Longrightarrow> \<exists>ls. generateLearnings variants winner = Inr ls"
  by (auto simp: generateLearnings_def Let_def js_sort_empty_iff split: list.splits)

lemma createTestResult_nonempty:
  "variants \<noteq> [] \<Longrightarrow> \<exists>r. createTestResult runId testType startDate endDate pm variants = Inr r"
proof -
  assume "variants \<noteq> []"
  then have "map (\<lambda>v. v\<lparr>metrics := calculateVariantMetrics v\<rparr>) variants \<noteq> []" by simp
  from generateLearnings_nonempty [OF this]
  obtain ls where "generateLearnings (map (\<lambda>v. v\<lparr>metrics := calculateVariantMetrics v\<rparr>) variants)
      (determineWinner (map (\<lambda>v. v\<lparr>metrics := calculateVariantMetrics v\<rparr>) variants) pm
         (Fin (95 / 100)) (Fin 100)) = Inr ls" by blast
  then show ?thesis by (simp add: createTestResult_def Let_def)
qed

section \<open>Rounding to binary64\<close>

lemma rne_error: "\<bar>of_int (rne t) - t\<bar> \<le> 1 / 2"
  unfolding rne_def Let_def by (auto simp: abs_le_iff)

lemma rne_nonneg: "0 \<le> t \<Longrightarrow> 0 \<le> rne t"
  unfolding rne_def Let_def by (auto simp: zero_le_floor)

lemma binade:
  assumes "x \<noteq> 0"
  shows "2 powr (of_int \<lfloor>log 2 \<bar>x\<bar>\<rfloor>) \<le> \<bar>x\<bar>" "\<bar>x\<bar> < 2 powr (of_int \<lfloor>log 2 \<bar>x\<bar>\<rfloor> + 1)"
  using floor_log_eq_powr_iff [of "\<bar>x\<bar>" 2 "\<lfloor>log 2 \<bar>x\<bar>\<rfloor>"] assms by simp_all


lemma two_powr_neg: "(2::real) powr (- real n) = 1 / 2 ^ n"
  by (simp add: powr_minus powr_realpow divide_inverse)

lemma two_powr_m99: "(2::real) powr (- 99) = 1 / 2 ^ 99"
  using two_powr_neg [of 99] by simp

lemma two_powr_m100: "(2::real) powr (- 100) = 1 / 2 ^ 100"
  using two_powr_neg [of 100] by simp

lemma overflow_bound_ge: "2 ^ 42 \<le> overflow_bound"
proof -
  have "(2::real) powr 42 \<le> 2 powr 1024" by (intro powr_mono) simp_all
  moreover have "(2::real) powr 42 = 2 ^ 42" by simp
  ultimately show ?thesis by (simp only: overflow_bound_def)
qed

lemma round64_abs:
  assumes "\<bar>x\<bar> \<le> 2 ^ 40"
  shows "is_fin (round64 x)
    \<and> \<bar>val (round64 x) - x\<bar> \<le> \<bar>x\<bar> / 2 ^ 53 + 1 / 2 ^ 100
    \<and> (0 \<le> x \<longrightarrow> 0 \<le> val (round64 x))"
proof (cases "x = 0")
  case True
  then show ?thesis by (simp add: round64_def)
next
  case False
  define e0 where "e0 = \<lfloor>log 2 \<bar>x\<bar>\<rfloor>"
  define e where "e = max e0 (- 1022)"
  define ulp :: real where "ulp = 2 powr (of_int (e - 52))"
  define y where "y = of_int (rne (x / ulp)) * ulp"
  have ulp_pos: "0 < ulp" by (simp add: ulp_def)
  have b1: "2 powr (of_int e0) \<le> \<bar>x\<bar>" and b2: "\<bar>x\<bar> < 2 powr (of_int e0 + 1)"
    using binade [OF False] by (simp_all add: e0_def)
  have "y - x = (of_int (rne (x / ulp)) - x / ulp) * ulp"
    using ulp_pos by (simp add: y_def field_simps)
  then have "\<bar>y - x\<bar> = \<bar>of_int (rne (x / ulp)) - x / ulp\<bar> * ulp"
    using ulp_pos by (simp add: abs_mult)
  also have "\<dots> \<le> 1 / 2 * ulp"
    using rne_error [of "x / ulp"] ulp_pos by (intro mult_right_mono) simp_all
  finally have err: "\<bar>y - x\<bar> \<le> ulp / 2" by simp
  have e0_le: "e0 \<le> 40"
  proof (rule ccontr)
    assume "\<not> e0 \<le> 40"
    then have "(41::real) \<le> of_int e0" by simp
    then have "(2::real) powr 41 \<le> 2 powr (of_int e0)" by (intro powr_mono) simp_all
    with b1 have "(2::real) powr 41 \<le> \<bar>x\<bar>" by linarith
    moreover have "(2::real) powr 41 = 2 ^ 41" by simp
    ultimately show False using assms by simp
  qed
  have e_le: "e \<le> 40" using e0_le by (simp add: e_def)
  have "ulp \<le> 2 powr 0"
    unfolding ulp_def using e_le by (intro powr_mono) simp_all
  then have ulp_le: "ulp \<le> 1" by simp
  have ulp_half: "ulp / 2 \<le> \<bar>x\<bar> / 2 ^ 53 + 1 / 2 ^ 100"
  proof (cases "- 1022 \<le> e0")
    case True
    then have "e = e0" by (simp add: e_def)
    then have "ulp = 2 powr (of_int e0 - 52)" by (simp add: ulp_def)
    also have "\<dots> = 2 powr (of_int e0) / 2 powr 52" by (rule powr_diff)
    also have "(2::real) powr 52 = 2 ^ 52" by simp
    finally have "ulp / 2 = 2 powr (of_int e0) / 2 ^ 53" by simp
    also have "\<dots> \<le> \<bar>x\<bar> / 2 ^ 53" using b1 by (intro divide_right_mono) simp_all
    finally show ?thesis by simp
  next
    case False
    then have "e = - 1022" by (simp add: e_def)
    then have "(of_int (e - 52) :: real) \<le> - 99" by simp
    then have "ulp \<le> 2 powr (- 99)" unfolding ulp_def by (intro powr_mono) simp_all
    then have "ulp / 2 \<le> 1 / 2 ^ 100" unfolding two_powr_m99 by simp
    then show ?thesis by (intro add_increasing) simp_all
  qed
  have "\<bar>y\<bar> \<le> \<bar>x\<bar> + ulp / 2" using err by linarith
  also have "\<dots> \<le> 2 ^ 40 + 1" using assms ulp_le by linarith
  also have "\<dots> < (2 ^ 42 :: real)" by simp
  finally have no_ovf: "\<not> overflow_bound \<le> \<bar>y\<bar>" using overflow_bound_ge by linarith
  have r: "round64 x = (if y = 0 then mk_zero (x < 0) else Fin y)"
    unfolding round64_def Let_def e0_def [symmetric] e_def [symmetric] ulp_def [symmetric]
      y_def [symmetric]
    using False no_ovf by simp
  have v: "is_fin (round64 x)" "val (round64 x) = y"
    unfolding r by (simp_all add: mk_zero_def)
  have s: "0 \<le> y" if "0 \<le> x"
    unfolding y_def using that ulp_pos rne_nonneg [of "x / ulp"] by simp
  show ?thesis
    unfolding v(2) using v(1) err ulp_half s by (auto intro: order_trans)
qed

lemma round64_rel:
  assumes "1 / 2 ^ 100 \<le> x" and "x \<le> 2 ^ 40"
  shows "is_fin (round64 x)
    \<and> x * (1 - 1 / 2 ^ 53) \<le> val (round64 x)
    \<and> val (round64 x) \<le> x * (1 + 1 / 2 ^ 53)"
proof -
  have "(0 :: real) < 1 / 2 ^ 100" by simp
  then have xpos: "0 < x" using assms(1) by (rule less_le_trans)
  then have x0: "x \<noteq> 0" by simp
  define e0 where "e0 = \<lfloor>log 2 \<bar>x\<bar>\<rfloor>"
  define e where "e = max e0 (- 1022)"
  define ulp :: real where "ulp = 2 powr (of_int (e - 52))"
  define y where "y = of_int (rne (x / ulp)) * ulp"
  have ulp_pos: "0 < ulp" by (simp add: ulp_def)
  have b1: "2 powr (of_int e0) \<le> \<bar>x\<bar>" and b2: "\<bar>x\<bar> < 2 powr (of_int e0 + 1)"
    using binade [OF x0] by (simp_all add: e0_def)
  have e0_ge: "- 1022 \<le> e0"
  proof (rule ccontr)
    assume "\<not> - 1022 \<le> e0"
    then have "of_int e0 + 1 \<le> (- 100 :: real)" by simp
    then have "(2::real) powr (of_int e0 + 1) \<le> 2 powr (- 100)" by (intro powr_mono) simp_all
    then have "(2::real) powr (of_int e0 + 1) \<le> 1 / 2 ^ 100" unfolding two_powr_m100 .
    then show False using b2 assms(1) xpos by simp
  qed
  then have ee: "e = e0" by (simp add: e_def)
  have "y - x = (of_int (rne (x / ulp)) - x / ulp) * ulp"
    using ulp_pos by (simp add: y_def field_simps)
  then have "\<bar>y - x\<bar> = \<bar>of_int (rne (x / ulp)) - x / ulp\<bar> * ulp"
    using ulp_pos by (simp add: abs_mult)
  also have "\<dots> \<le> 1 / 2 * ulp"
    using rne_error [of "x / ulp"] ulp_pos by (intro mult_right_mono) simp_all
  finally have err: "\<bar>y - x\<bar> \<le> ulp / 2" by simp
  have "ulp = 2 powr (of_int e0 - 52)" by (simp add: ulp_def ee)
  also have "\<dots> = 2 powr (of_int e0) / 2 powr 52" by (rule powr_diff)
  also have "(2::real) powr 52 = 2 ^ 52" by simp
  finally have "ulp / 2 = 2 powr (of_int e0) / 2 ^ 53" by simp
  also have "\<dots> \<le> x / 2 ^ 53" using b1 xpos by (intro divide_right_mono) simp_all
  finally have uh: "ulp / 2 \<le> x / 2 ^ 53" .
  from round64_abs [of x] assms(2) xpos
  have f: "is_fin (round64 x)" by simp
  have e0_le: "e0 \<le> 40"
  proof (rule ccontr)
    assume "\<not> e0 \<le> 40"
    then have "(41::real) \<le> of_int e0" by simp
    then have "(2::real) powr 41 \<le> 2 powr (of_int e0)" by (intro powr_mono) simp_all
    with b1 have "(2::real) powr 41 \<le> \<bar>x\<bar>" by linarith
    moreover have "(2::real) powr 41 = 2 ^ 41" by simp
    ultimately show False using assms(2) xpos by simp
  qed
  have "ulp \<le> 2 powr 0"
    unfolding ulp_def ee using e0_le by (intro powr_mono) simp_all
  then have ulp_le: "ulp \<le> 1" by simp
  have "\<bar>y\<bar> \<le> \<bar>x\<bar> + ulp / 2" using err by linarith
  also have "\<dots> \<le> 2 ^ 40 + 1" using assms(2) xpos ulp_le by linarith
  also have "\<dots> < (2 ^ 42 :: real)" by simp
  finally have no_ovf: "\<not> overflow_bound \<le> \<bar>y\<bar>" using overflow_bound_ge by linarith
  have r: "round64 x = (if y = 0 then mk_zero (x < 0) else Fin y)"
    unfolding round64_def Let_def e0_def [symmetric] e_def [symmetric] ulp_def [symmetric]
      y_def [symmetric]
    using x0 no_ovf by simp
  have v: "val (round64 x) = y"
    unfolding r by (simp add: mk_zero_def)
  have "x - x / 2 ^ 53 \<le> y" "y \<le> x + x / 2 ^ 53" using err uh by linarith+
  then show ?thesis using f unfolding v by (simp add: algebra_simps)
qed

lemma overflow_bound_ge54: "2 ^ 54 \<le> overflow_bound"
proof -
  have "(2::real) powr 54 \<le> 2 powr 1024" by (intro powr_mono) simp_all
  moreover have "(2::real) powr 54 = 2 ^ 54" by simp
  ultimately show ?thesis by (simp only: overflow_bound_def)
qed

lemma round64_eval:
  assumes lo: "2 ^ 52 \<le> x * 2 ^ k" and hi: "x * 2 ^ k < 2 ^ 53" and k: "k \<le> 1074"
    and m: "rne (x * 2 ^ k) = M"
  shows "round64 x = Fin (of_int M / 2 ^ k)"
proof -
  have xpos: "0 < x"
  proof -
    have "(0::real) < 2 ^ 52" by simp
    with lo have "0 < x * 2 ^ k" by linarith
    then show ?thesis by (simp add: zero_less_mult_iff)
  qed
  have p: "(2::real) powr (of_int (52 - int k)) = 2 ^ 52 / 2 ^ k"
  proof -
    have "(2::real) powr (of_int (52 - int k)) = 2 powr (52 - real k)" by simp
    also have "\<dots> = 2 powr 52 / 2 powr (real k)" by (rule powr_diff)
    also have "\<dots> = 2 ^ 52 / 2 ^ k" by (simp add: powr_realpow)
    finally show ?thesis .
  qed
  have p': "(2::real) powr (of_int (52 - int k) + 1) = 2 ^ 53 / 2 ^ k"
  proof -
    have "(2::real) powr (of_int (52 - int k) + 1) = 2 powr (53 - real k)" by simp
    also have "\<dots> = 2 powr 53 / 2 powr (real k)" by (rule powr_diff)
    also have "\<dots> = 2 ^ 53 / 2 ^ k" by (simp add: powr_realpow)
    finally show ?thesis .
  qed
  have "2 powr (of_int (52 - int k)) \<le> x \<and> x < 2 powr (of_int (52 - int k) + 1)"
    unfolding p p' using lo hi by (simp add: field_simps)
  then have e0: "\<lfloor>log 2 \<bar>x\<bar>\<rfloor> = 52 - int k"
    using floor_log_eq_powr_iff [of x 2 "52 - int k"] xpos by simp
  have e: "max (52 - int k) (- 1022) = 52 - int k" using k by simp
  have ulp: "(2::real) powr (of_int (52 - int k - 52)) = 1 / 2 ^ k"
  proof -
    have "(2::real) powr (of_int (52 - int k - 52)) = 2 powr (- real k)" by simp
    then show ?thesis by (simp only: two_powr_neg)
  qed
  have Mlo: "2 ^ 52 \<le> (of_int M :: real)"
  proof -
    have "\<bar>of_int M - x * 2 ^ k\<bar> \<le> 1 / 2" using rne_error [of "x * 2 ^ k"] m by simp
    then have "2 ^ 52 - 1 / 2 \<le> (of_int M :: real)" using lo by linarith
    then have "real_of_int (2 ^ 52 - 1) < of_int M" by simp
    then have "2 ^ 52 - 1 < M" by (simp only: of_int_less_iff)
    then have "2 ^ 52 \<le> M" by simp
    then have "real_of_int (2 ^ 52) \<le> of_int M" by (simp only: of_int_le_iff)
    then show ?thesis by simp
  qed
  have Mhi: "(of_int M :: real) \<le> 2 ^ 53 + 1 / 2"
  proof -
    have "\<bar>of_int M - x * 2 ^ k\<bar> \<le> 1 / 2" using rne_error [of "x * 2 ^ k"] m by simp
    then show ?thesis using hi by linarith
  qed
  have Mpos: "0 < (of_int M :: real)" using Mlo by simp
  have ypos: "0 < (of_int M :: real) / 2 ^ k" using Mpos by simp
  have "(1::real) \<le> 2 ^ k" by simp
  then have "(of_int M :: real) * 1 \<le> of_int M * 2 ^ k"
    using Mpos by (intro mult_left_mono) simp_all
  then have "(of_int M :: real) / 2 ^ k \<le> of_int M" by (simp add: field_simps)
  then have "(of_int M :: real) / 2 ^ k < 2 ^ 54" using Mhi by simp
  then have novf: "\<not> overflow_bound \<le> \<bar>of_int M / 2 ^ k\<bar>"
    using overflow_bound_ge54 ypos by linarith
  have "x / (1 / 2 ^ k) = x * 2 ^ k" by simp
  then show ?thesis
    unfolding round64_def Let_def e0 e ulp using xpos m novf ypos by simp
qed

lemma rnd_abs:
  assumes "is_fin x" and "\<bar>val x\<bar> \<le> 2 ^ 40"
  shows "is_fin (rnd x)
    \<and> \<bar>val (rnd x) - val x\<bar> \<le> \<bar>val x\<bar> / 2 ^ 53 + 1 / 2 ^ 100
    \<and> (0 \<le> val x \<longrightarrow> 0 \<le> val (rnd x))"
  using assms round64_abs [of "val x"] by (cases x) simp_all

lemma rnd_rel:
  assumes "is_fin x" and "1 / 2 ^ 100 \<le> val x" and "val x \<le> 2 ^ 40"
  shows "is_fin (rnd x)
    \<and> val x * (1 - 1 / 2 ^ 53) \<le> val (rnd x)
    \<and> val (rnd x) \<le> val x * (1 + 1 / 2 ^ 53)"
  using assms round64_rel [of "val x"] by (cases x) simp_all

lemma bounds_mul:
  fixes X Y Xh Yh l1 h1 l2 h2 :: real
  assumes "0 < X" "0 < Y" "0 < l1" "0 < l2"
    and "X * l1 \<le> Xh" "Xh \<le> X * h1" "Y * l2 \<le> Yh" "Yh \<le> Y * h2"
  shows "(X * Y) * (l1 * l2) \<le> Xh * Yh" and "Xh * Yh \<le> (X * Y) * (h1 * h2)"
proof -
  have p1: "0 < X * l1" and p2: "0 < Y * l2" using assms by simp_all
  have xh: "0 \<le> Xh" and yh: "0 \<le> Yh" using p1 p2 assms(5,7) by linarith+
  have "(X * l1) * (Y * l2) \<le> Xh * Yh"
    using assms(5,7) xh p2 by (intro mult_mono) simp_all
  then show "(X * Y) * (l1 * l2) \<le> Xh * Yh" by (simp add: mult.assoc mult.left_commute)
  have "0 \<le> X * h1" using xh assms(6) by linarith
  then have "Xh * Yh \<le> (X * h1) * (Y * h2)"
    using assms(6,8) yh by (intro mult_mono) simp_all
  then show "Xh * Yh \<le> (X * Y) * (h1 * h2)" by (simp add: mult.assoc mult.left_commute)
qed

lemma bounds_div:
  fixes X Y Xh Yh l1 h1 l2 h2 :: real
  assumes "0 < X" "0 < Y" "0 < l1" "0 < l2"
    and "X * l1 \<le> Xh" "Xh \<le> X * h1" "Y * l2 \<le> Yh" "Yh \<le> Y * h2"
  shows "(X / Y) * (l1 / h2) \<le> Xh / Yh" and "Xh / Yh \<le> (X / Y) * (h1 / l2)"
proof -
  have p1: "0 < X * l1" and p2: "0 < Y * l2" using assms by simp_all
  have xh: "0 < Xh" and yh: "0 < Yh" using p1 p2 assms(5,7) by linarith+
  have "(X * l1) / (Y * h2) \<le> Xh / Yh"
    using p1 assms(5) yh assms(8) by (intro frac_le) simp_all
  then show "(X / Y) * (l1 / h2) \<le> Xh / Yh" by simp
  have "Xh / Yh \<le> (X * h1) / (Y * l2)"
    using xh assms(6) p2 assms(7) by (intro frac_le) simp_all
  then show "Xh / Yh \<le> (X / Y) * (h1 / l2)" by simp
qed

lemma abs_to_rel:
  fixes X Xh d c :: real
  assumes "\<bar>Xh - X\<bar> \<le> d" and "d \<le> c * X"
  shows "X * (1 - c) \<le> Xh" and "Xh \<le> X * (1 + c)"
  using assms by (simp_all add: algebra_simps abs_le_iff)

lemma fl_mul_rel:
  assumes "is_fin a" "is_fin b" "1 / 2 ^ 100 \<le> val a * val b" "val a * val b \<le> 2 ^ 40"
  shows "is_fin (fl_mul a b)"
    and "(val a * val b) * (1 - 1 / 2 ^ 53) \<le> val (fl_mul a b)"
    and "val (fl_mul a b) \<le> (val a * val b) * (1 + 1 / 2 ^ 53)"
  using rnd_rel [of "js_mul a b"] fin_mul [OF assms(1,2)] assms(3,4)
  by (simp_all add: fl_mul_def)

lemma fl_div_rel:
  assumes "is_fin a" "is_fin b" "val b \<noteq> 0" "1 / 2 ^ 100 \<le> val a / val b"
    "val a / val b \<le> 2 ^ 40"
  shows "is_fin (fl_div a b)"
    and "(val a / val b) * (1 - 1 / 2 ^ 53) \<le> val (fl_div a b)"
    and "val (fl_div a b) \<le> (val a / val b) * (1 + 1 / 2 ^ 53)"
  using rnd_rel [of "js_div a b"] fin_div [OF assms(1,2,3)] assms(4,5)
  by (simp_all add: fl_div_def)

lemma fl_add_rel:
  assumes "is_fin a" "is_fin b" "1 / 2 ^ 100 \<le> val a + val b" "val a + val b \<le> 2 ^ 40"
  shows "is_fin (fl_add a b)"
    and "(val a + val b) * (1 - 1 / 2 ^ 53) \<le> val (fl_add a b)"
    and "val (fl_add a b) \<le> (val a + val b) * (1 + 1 / 2 ^ 53)"
  using rnd_rel [of "js_add a b"] fin_add [OF assms(1,2)] assms(3,4)
  by (simp_all add: fl_add_def)

lemma fl_add_abs:
  assumes "is_fin a" "is_fin b" "\<bar>val a + val b\<bar> \<le> 2 ^ 40"
  shows "is_fin (fl_add a b)"
    and "\<bar>val (fl_add a b) - (val a + val b)\<bar> \<le> \<bar>val a + val b\<bar> / 2 ^ 53 + 1 / 2 ^ 100"
    and "0 \<le> val a + val b \<Longrightarrow> 0 \<le> val (fl_add a b)"
  using rnd_abs [of "js_add a b"] fin_add [OF assms(1,2)] assms(3)
  by (simp_all add: fl_add_def)

lemma fl_sub_abs:
  assumes "is_fin a" "is_fin b" "\<bar>val a - val b\<bar> \<le> 2 ^ 40"
  shows "is_fin (fl_sub a b)"
    and "\<bar>val (fl_sub a b) - (val a - val b)\<bar> \<le> \<bar>val a - val b\<bar> / 2 ^ 53 + 1 / 2 ^ 100"
    and "0 \<le> val a - val b \<Longrightarrow> 0 \<le> val (fl_sub a b)"
  using rnd_abs [of "js_sub a b"] fin_sub [OF assms(1,2)] assms(3)
  by (simp_all add: fl_sub_def)

lemma fl_div_abs:
  assumes "is_fin a" "is_fin b" "val b \<noteq> 0" "\<bar>val a / val b\<bar> \<le> 2 ^ 40"
  shows "is_fin (fl_div a b)"
    and "\<bar>val (fl_div a b) - val a / val b\<bar> \<le> \<bar>val a / val b\<bar> / 2 ^ 53 + 1 / 2 ^ 100"
    and "0 \<le> val a / val b \<Longrightarrow> 0 \<le> val (fl_div a b)"
  using rnd_abs [of "js_div a b"] fin_div [OF assms(1,2,3)] assms(4)
  by (simp_all add: fl_div_def)

lemma lit_rel:
  assumes "1 / 2 ^ 100 \<le> r" "r \<le> 2 ^ 40"
  shows "is_fin (lit r)" and "r * (1 - 1 / 2 ^ 53) \<le> val (lit r)"
    and "val (lit r) \<le> r * (1 + 1 / 2 ^ 53)"
  using round64_rel [OF assms] by (simp_all add: lit_def)

lemma lit_100 [simp]: "lit 100 = Fin 100"
  using round64_eval [of 100 46 "100 * 2 ^ 46"] by (simp add: rne_def lit_def)

lemma lit_2 [simp]: "lit 2 = Fin 2"
  using round64_eval [of 2 51 "2 * 2 ^ 51"] by (simp add: rne_def lit_def)

lemma lit_1 [simp]: "lit 1 = Fin 1"
  using round64_eval [of 1 52 "2 ^ 52"] by (simp add: rne_def lit_def)

lemma lit_0 [simp]: "lit 0 = Fin 0"
  by (simp add: lit_def round64_def)

lemma js_sub_self: "is_fin p \<Longrightarrow> js_sub p p = Fin 0"
  by (cases p) (simp_all add: js_sub_def js_add_def)

lemma prod_bounds:
  fixes X Y a b A B :: real
  assumes "a \<le> X" "X \<le> A" "b \<le> Y" "Y \<le> B" "0 \<le> a" "0 \<le> b"
  shows "a * b \<le> X * Y" and "X * Y \<le> A * B"
proof -
  show "a * b \<le> X * Y" using assms by (intro mult_mono) simp_all
  have "0 \<le> A" "0 \<le> Y" using assms by linarith+
  then show "X * Y \<le> A * B" using assms by (intro mult_mono) simp_all
qed

lemma bounds_rnd:
  fixes X Xh R l h ul uh :: real
  assumes "0 < X" "0 < l" "0 < ul" "X * l \<le> Xh" "Xh \<le> X * h"
    and "Xh * ul \<le> R" "R \<le> Xh * uh" "0 \<le> uh"
  shows "X * (l * ul) \<le> R" and "R \<le> X * (h * uh)"
proof -
  have "(X * l) * ul \<le> Xh * ul" using assms(3,4) by (intro mult_right_mono) simp_all
  with assms(6) show "X * (l * ul) \<le> R" by (simp add: mult.assoc)
  have "Xh * uh \<le> (X * h) * uh" using assms(5,8) by (intro mult_right_mono) simp_all
  with assms(7) show "R \<le> X * (h * uh)" by (simp add: mult.assoc)
qed

lemma K_bounds:
  assumes za: "1 \<le> za" "za \<le> 3" and zb: "1 / 2 \<le> zb" "zb \<le> 2"
  shows "is_fin (fl_mul (lit 2) (fl_pow2 (fl_add (lit za) (lit zb))))"
    and "(2 * (za + zb)\<^sup>2) * (1 - 1 / 2 ^ 35)
         \<le> val (fl_mul (lit 2) (fl_pow2 (fl_add (lit za) (lit zb))))"
    and "val (fl_mul (lit 2) (fl_pow2 (fl_add (lit za) (lit zb))))
         \<le> (2 * (za + zb)\<^sup>2) * (1 + 1 / 2 ^ 35)"
proof -
  define ul :: real where "ul = 1 - 1 / 2 ^ 53"
  define uh :: real where "uh = 1 + 1 / 2 ^ 53"
  have ul: "0 < ul" "99 / 100 \<le> ul" "ul \<le> 1" and uh: "0 \<le> uh" "uh \<le> 101 / 100"
    by (simp_all add: ul_def uh_def)
  let ?A = "lit za" and ?B = "lit zb"
  have A: "is_fin ?A" "za * ul \<le> val ?A" "val ?A \<le> za * uh"
    unfolding ul_def uh_def using za by (intro lit_rel; simp)+
  have B: "is_fin ?B" "zb * ul \<le> val ?B" "val ?B \<le> zb * uh"
    unfolding ul_def uh_def using zb by (intro lit_rel; simp)+
  define s where "s = za + zb"
  have s: "3 / 2 \<le> s" "s \<le> 5" "0 < s" using za zb by (simp_all add: s_def)
  have sg: "s * ul \<le> val ?A + val ?B" "val ?A + val ?B \<le> s * uh"
    using A(2,3) B(2,3) by (simp_all add: s_def distrib_right)
  have sr: "1 \<le> val ?A + val ?B" "val ?A + val ?B \<le> 6"
  proof -
    have "3 / 2 * (99 / 100) \<le> s * ul" using s ul by (intro prod_bounds(1) [where A = 5 and B = 1]) simp_all
    with sg(1) show "1 \<le> val ?A + val ?B" by simp
    have "s * uh \<le> 5 * (101 / 100)" using s uh by (intro prod_bounds(2) [where a = 0 and b = 0]) simp_all
    with sg(2) show "val ?A + val ?B \<le> 6" by simp
  qed
  let ?S = "fl_add ?A ?B"
  have S0: "is_fin ?S" "(val ?A + val ?B) * ul \<le> val ?S" "val ?S \<le> (val ?A + val ?B) * uh"
    unfolding ul_def uh_def using A(1) B(1) sr by (intro fl_add_rel; simp)+
  have S: "s * (ul * ul) \<le> val ?S" "val ?S \<le> s * (uh * uh)"
    using bounds_rnd [OF s(3) ul(1) ul(1) sg S0(2,3) uh(1)] by simp_all
  have Sr: "1 / 2 \<le> val ?S" "val ?S \<le> 7"
  proof -
    have "1 * (99 / 100) \<le> (val ?A + val ?B) * ul"
      using sr ul by (intro prod_bounds(1) [where A = 6 and B = 1]) simp_all
    with S0(2) show "1 / 2 \<le> val ?S" by simp
    have "(val ?A + val ?B) * uh \<le> 6 * (101 / 100)"
      using sr uh by (intro prod_bounds(2) [where a = 0 and b = 0]) simp_all
    with S0(3) show "val ?S \<le> 7" by simp
  qed
  have ll: "0 < ul * ul" using ul by simp
  have SS: "(s * s) * ((ul * ul) * (ul * ul)) \<le> val ?S * val ?S"
    "val ?S * val ?S \<le> (s * s) * ((uh * uh) * (uh * uh))"
    using bounds_mul [OF s(3) s(3) ll ll S S] by simp_all
  have SSr: "1 / 4 \<le> val ?S * val ?S" "val ?S * val ?S \<le> 49"
    using prod_bounds [OF Sr Sr] by simp_all
  let ?P = "fl_pow2 ?S"
  have P0: "is_fin ?P" "(val ?S * val ?S) * ul \<le> val ?P" "val ?P \<le> (val ?S * val ?S) * uh"
    unfolding ul_def uh_def fl_pow2_def using S0(1) SSr by (intro fl_mul_rel; simp)+
  have ss: "0 < s * s" using s by simp
  have l4: "0 < (ul * ul) * (ul * ul)" using ul by simp
  have P: "(s * s) * (((ul * ul) * (ul * ul)) * ul) \<le> val ?P"
    "val ?P \<le> (s * s) * (((uh * uh) * (uh * uh)) * uh)"
    using bounds_rnd [OF ss l4 ul(1) SS P0(2,3) uh(1)] by simp_all
  have Pr: "1 / 8 \<le> val ?P" "val ?P \<le> 50"
  proof -
    have "1 / 4 * (99 / 100) \<le> (val ?S * val ?S) * ul"
      using SSr ul by (intro prod_bounds(1) [where A = 49 and B = 1]) simp_all
    with P0(2) show "1 / 8 \<le> val ?P" by simp
    have "(val ?S * val ?S) * uh \<le> 49 * (101 / 100)"
      using SSr uh by (intro prod_bounds(2) [where a = 0 and b = 0]) simp_all
    with P0(3) show "val ?P \<le> 50" by simp
  qed
  let ?K = "fl_mul (lit 2) ?P"
  have K0: "is_fin ?K" "(2 * val ?P) * ul \<le> val ?K" "val ?K \<le> (2 * val ?P) * uh"
    unfolding ul_def uh_def using fl_mul_rel [of "Fin 2" ?P] P0(1) Pr by simp_all
  have P2: "(2 * (s * s)) * (((ul * ul) * (ul * ul)) * ul) \<le> 2 * val ?P"
    "2 * val ?P \<le> (2 * (s * s)) * (((uh * uh) * (uh * uh)) * uh)"
    using P by simp_all
  have s2: "0 < 2 * (s * s)" using s by simp
  have l5: "0 < ((ul * ul) * (ul * ul)) * ul" using ul by simp
  have K: "(2 * (s * s)) * ((((ul * ul) * (ul * ul)) * ul) * ul) \<le> val ?K"
    "val ?K \<le> (2 * (s * s)) * ((((uh * uh) * (uh * uh)) * uh) * uh)"
    using bounds_rnd [OF s2 l5 ul(1) P2 K0(2,3) uh(1)] by simp_all
  have nl: "1 - 1 / 2 ^ 35 \<le> (((ul * ul) * (ul * ul)) * ul) * ul"
    by (simp add: ul_def)
  have nh: "(((uh * uh) * (uh * uh)) * uh) * uh \<le> 1 + 1 / 2 ^ 35"
    by (simp add: uh_def)
  have "(2 * (s * s)) * (1 - 1 / 2 ^ 35) \<le> (2 * (s * s)) * ((((ul * ul) * (ul * ul)) * ul) * ul)"
    using s2 nl by (intro mult_left_mono) simp_all
  with K(1) have lo: "(2 * (s * s)) * (1 - 1 / 2 ^ 35) \<le> val ?K" by linarith
  have "(2 * (s * s)) * ((((uh * uh) * (uh * uh)) * uh) * uh) \<le> (2 * (s * s)) * (1 + 1 / 2 ^ 35)"
    using s2 nh by (intro mult_left_mono) simp_all
  with K(2) have hi: "val ?K \<le> (2 * (s * s)) * (1 + 1 / 2 ^ 35)" by linarith
  show "is_fin ?K" by (rule K0(1))
  show "(2 * (za + zb)\<^sup>2) * (1 - 1 / 2 ^ 35) \<le> val ?K"
    using lo by (simp add: s_def power2_eq_square)
  show "val ?K \<le> (2 * (za + zb)\<^sup>2) * (1 + 1 / 2 ^ 35)"
    using hi by (simp add: s_def power2_eq_square)
qed

lemma u64_facts: "0 < u64" "0 < eta64" "eta64 \<le> u64"
  by (simp_all add: u64_def eta64_def)

lemma rnd_abs_c:
  assumes "is_fin x" and "\<bar>val x\<bar> \<le> c" and "c \<le> 2 ^ 40"
  shows "is_fin (rnd x)" and "\<bar>val (rnd x) - val x\<bar> \<le> c * u64 + eta64"
    and "0 \<le> val x \<Longrightarrow> 0 \<le> val (rnd x)"
proof -
  have r: "\<bar>val x\<bar> \<le> 2 ^ 40" using assms(2,3) by linarith
  note f = rnd_abs [OF assms(1) r]
  show "is_fin (rnd x)" using f by simp
  have "\<bar>val x\<bar> / 2 ^ 53 \<le> c / 2 ^ 53" using assms(2) by (intro divide_right_mono) simp_all
  then show "\<bar>val (rnd x) - val x\<bar> \<le> c * u64 + eta64"
    using f by (simp add: u64_def eta64_def)
  show "0 \<le> val (rnd x)" if "0 \<le> val x" using f that by simp
qed

lemma fl_add_abs_c:
  assumes "is_fin a" "is_fin b" "\<bar>val a + val b\<bar> \<le> c" "c \<le> 2 ^ 40"
  shows "is_fin (fl_add a b)"
    and "\<bar>val (fl_add a b) - (val a + val b)\<bar> \<le> c * u64 + eta64"
    and "0 \<le> val a + val b \<Longrightarrow> 0 \<le> val (fl_add a b)"
  using rnd_abs_c [of "js_add a b" c] fin_add [OF assms(1,2)] assms(3,4)
  by (simp_all add: fl_add_def)

lemma fl_sub_abs_c:
  assumes "is_fin a" "is_fin b" "\<bar>val a - val b\<bar> \<le> c" "c \<le> 2 ^ 40"
  shows "is_fin (fl_sub a b)"
    and "\<bar>val (fl_sub a b) - (val a - val b)\<bar> \<le> c * u64 + eta64"
    and "0 \<le> val a - val b \<Longrightarrow> 0 \<le> val (fl_sub a b)"
  using rnd_abs_c [of "js_sub a b" c] fin_sub [OF assms(1,2)] assms(3,4)
  by (simp_all add: fl_sub_def)

lemma fl_div_abs_c:
  assumes "is_fin a" "is_fin b" "val b \<noteq> 0" "\<bar>val a / val b\<bar> \<le> c" "c \<le> 2 ^ 40"
  shows "is_fin (fl_div a b)"
    and "\<bar>val (fl_div a b) - val a / val b\<bar> \<le> c * u64 + eta64"
    and "0 \<le> val a / val b \<Longrightarrow> 0 \<le> val (fl_div a b)"
  using rnd_abs_c [of "js_div a b" c] fin_div [OF assms(1,2,3)] assms(4,5)
  by (simp_all add: fl_div_def)

lemma planner_proportions:
  fixes b m :: real
  assumes b0: "0 \<le> b" and m0: "0 \<le> m" and bm: "b + m \<le> 100"
  shows "is_fin (fl_div (fl_add (fl_div (Fin b) (lit 100)) (fl_div (fl_add (Fin b) (Fin m)) (lit 100))) (lit 2))"
    and "is_fin (fl_sub (lit 1) (fl_div (fl_add (fl_div (Fin b) (lit 100)) (fl_div (fl_add (Fin b) (Fin m)) (lit 100))) (lit 2)))"
    and "is_fin (fl_sub (fl_div (fl_add (Fin b) (Fin m)) (lit 100)) (fl_div (Fin b) (lit 100)))"
    and "\<bar>val (fl_div (fl_add (fl_div (Fin b) (lit 100)) (fl_div (fl_add (Fin b) (Fin m)) (lit 100))) (lit 2)) - (2 * b + m) / 200\<bar> \<le> 11 * u64"
    and "\<bar>val (fl_sub (lit 1) (fl_div (fl_add (fl_div (Fin b) (lit 100)) (fl_div (fl_add (Fin b) (Fin m)) (lit 100))) (lit 2))) - (1 - (2 * b + m) / 200)\<bar> \<le> 11 * u64"
    and "\<bar>val (fl_sub (fl_div (fl_add (Fin b) (Fin m)) (lit 100)) (fl_div (Fin b) (lit 100))) - m / 100\<bar> \<le> 11 * u64"
proof -
  note uf = u64_facts
  let ?P1 = "(fl_div (Fin b) (lit 100))"
  let ?P2 = "(fl_div (fl_add (Fin b) (Fin m)) (lit 100))"
  let ?PP = "(fl_div (fl_add (fl_div (Fin b) (lit 100)) (fl_div (fl_add (Fin b) (Fin m)) (lit 100))) (lit 2))"
  have P1: "is_fin ?P1" "\<bar>val ?P1 - b / 100\<bar> \<le> 1 * u64 + eta64" "0 \<le> val ?P1"
    using fl_div_abs_c [of "Fin b" "Fin 100" 1] b0 bm m0 by simp_all
  let ?S = "fl_add (Fin b) (Fin m)"
  have S: "is_fin ?S" "\<bar>val ?S - (b + m)\<bar> \<le> 100 * u64 + eta64" "0 \<le> val ?S"
    using fl_add_abs_c [of "Fin b" "Fin m" 100] b0 bm m0 by simp_all
  have u1: "u64 \<le> 1 / 100" by (simp add: u64_def)
  have Sr: "\<bar>val ?S / 100\<bar> \<le> 2"
    using S(2,3) bm b0 m0 uf u1 by argo
  have P2: "is_fin ?P2" "\<bar>val ?P2 - val ?S / 100\<bar> \<le> 2 * u64 + eta64" "0 \<le> val ?P2"
    using fl_div_abs_c [of ?S "Fin 100" 2] S(1,3) Sr by simp_all
  have P2e: "\<bar>val ?P2 - (b + m) / 100\<bar> \<le> 5 * u64"
    using P2(2) S(2) uf by argo
  let ?T = "fl_add ?P1 ?P2"
  have Tr: "\<bar>val ?P1 + val ?P2\<bar> \<le> 3" "0 \<le> val ?P1 + val ?P2"
    using P1(2,3) P2e P2(3) b0 m0 bm uf u1 by argo+
  have T: "is_fin ?T" "\<bar>val ?T - (val ?P1 + val ?P2)\<bar> \<le> 3 * u64 + eta64" "0 \<le> val ?T"
    using fl_add_abs_c [of ?P1 ?P2 3] P1(1) P2(1) Tr by simp_all
  have Te: "\<bar>val ?T - (2 * b + m) / 100\<bar> \<le> 11 * u64"
    using T(2) P1(2) P2e uf by argo
  have T2: "\<bar>val ?T / 2\<bar> \<le> 2"
    using Te T(3) b0 m0 bm uf u1 by argo
  have PP: "is_fin ?PP" "\<bar>val ?PP - val ?T / 2\<bar> \<le> 2 * u64 + eta64" "0 \<le> val ?PP"
    using fl_div_abs_c [of ?T "Fin 2" 2] T(1,3) T2 by simp_all
  have PPe: "\<bar>val ?PP - (2 * b + m) / 200\<bar> \<le> 9 * u64"
    using PP(2) Te uf by argo
  let ?B = "fl_sub (lit 1) ?PP"
  have Br: "\<bar>1 - val ?PP\<bar> \<le> 1"
    using PPe PP(3) b0 m0 bm uf u1 by argo
  have B: "is_fin ?B" "\<bar>val ?B - (1 - val ?PP)\<bar> \<le> 1 * u64 + eta64"
    using fl_sub_abs_c [of "Fin 1" ?PP 1] PP(1) Br by simp_all
  have Be: "\<bar>val ?B - (1 - (2 * b + m) / 200)\<bar> \<le> 11 * u64"
    using B(2) PPe uf by argo
  let ?D = "fl_sub ?P2 ?P1"
  have Dr: "\<bar>val ?P2 - val ?P1\<bar> \<le> 2"
    using P1(2,3) P2e P2(3) b0 m0 bm uf u1 by argo
  have D: "is_fin ?D" "\<bar>val ?D - (val ?P2 - val ?P1)\<bar> \<le> 2 * u64 + eta64"
    using fl_sub_abs_c [of ?P2 ?P1 2] P1(1) P2(1) Dr by simp_all
  have De: "\<bar>val ?D - m / 100\<bar> \<le> 11 * u64"
    using D(2) P1(2) P2e uf by argo
  show "is_fin ?PP" "is_fin ?B" "is_fin ?D"
    by (rule PP(1) B(1) D(1))+
  show "\<bar>val ?PP - (2 * b + m) / 200\<bar> \<le> 11 * u64" using PPe uf by argo
  show "\<bar>val ?B - (1 - (2 * b + m) / 200)\<bar> \<le> 11 * u64" by (rule Be)
  show "\<bar>val ?D - m / 100\<bar> \<le> 11 * u64" by (rule De)
qed

section \<open>Rounding errors of the sample-size planner\<close>

lemma range_of:
  fixes X Xh l h a A :: real
  assumes "X * l \<le> Xh" "Xh \<le> X * h" "a \<le> X" "X \<le> A" "1 / 2 \<le> l" "h \<le> 2"
    "0 \<le> h" "0 \<le> a"
  shows "a / 2 \<le> Xh" and "Xh \<le> 2 * A"
proof -
  have "a * (1 / 2) \<le> X * l" using assms by (intro mult_mono) simp_all
  with assms(1) show "a / 2 \<le> Xh" by simp
  have "0 \<le> X" using assms by linarith
  then have "X * h \<le> A * 2" using assms by (intro mult_mono) simp_all
  with assms(2) show "Xh \<le> 2 * A" by simp
qed

lemma range_fl:
  fixes X Xh l h a A :: real
  assumes "X * l \<le> Xh" "Xh \<le> X * h" "a \<le> X" "X \<le> A" "1 / 2 \<le> l" "h \<le> 2"
    "0 \<le> h" "1 / 400000000 \<le> a" "A \<le> 750000000"
  shows "1 / 2 ^ 100 \<le> Xh" and "Xh \<le> 2 ^ 40"
proof -
  have a0: "0 \<le> a" using assms(8) by simp
  note r = range_of [OF assms(1-7) a0]
  have "(1 :: real) / 2 ^ 100 \<le> 1 / 800000000" by simp
  also have "\<dots> \<le> a / 2" using assms(8) by simp
  finally show "1 / 2 ^ 100 \<le> Xh" using r(1) by linarith
  have "2 * A \<le> 1500000000" using assms(9) by simp
  also have "\<dots> \<le> (2 :: real) ^ 40" by simp
  finally show "Xh \<le> 2 ^ 40" using r(2) by linarith
qed

lemma abs_half:
  fixes v Q e :: real
  assumes "Q - e \<le> v" "v \<le> Q + e" "e \<le> 1 / 2"
  shows "\<bar>v - Q\<bar> \<le> 1 / 2"
  using assms by linarith

lemma planner_quotient:
  fixes b m :: real
  assumes b0: "0 \<le> b" and m0: "1 / 100 \<le> m" and bm: "b + m \<le> 100"
  shows "\<exists>q. calculateRequiredSampleSize (Fin b) (Fin m) pw cl = Fin (of_int \<lceil>q\<rceil>)
           \<and> \<bar>q - required_q (zAlphaOf cl) (zBetaOf pw) b m\<bar> \<le> 1 / 2"
proof -
  define za where "za = zAlphaOf cl"
  define zb where "zb = zBetaOf pw"
  have zr: "1 \<le> za" "za \<le> 3" "1 / 2 \<le> zb" "zb \<le> 2"
    by (simp_all add: za_def zb_def zAlphaOf_def zBetaOf_def)
  define K where "K = 2 * (za + zb)\<^sup>2"
  have Kr: "1 \<le> K" "K \<le> 30"
    by (simp_all add: K_def za_def zb_def zAlphaOf_def zBetaOf_def power2_eq_square)
  define pb where "pb = (2 * b + m) / 200"
  define qb where "qb = 1 - pb"
  define x where "x = m / 100"
  have pr: "1 / 20000 \<le> pb" "pb \<le> 1" "1 / 20000 \<le> qb" "qb \<le> 1" "1 / 20000 \<le> x" "x \<le> 1"
    using b0 m0 bm by (simp_all add: pb_def qb_def x_def)
  have x4: "1 / 10000 \<le> x" using m0 by (simp add: x_def)
  define el :: real where "el = 1 - 1 / 2 ^ 35"
  define eh :: real where "eh = 1 + 1 / 2 ^ 35"
  define ul :: real where "ul = 1 - 1 / 2 ^ 53"
  define uh :: real where "uh = 1 + 1 / 2 ^ 53"
  define lA where "lA = (el * el) * ul"
  define hA where "hA = (eh * eh) * uh"
  define lN where "lN = (lA * el) * ul"
  define hN where "hN = (hA * eh) * uh"
  define lQ where "lQ = (lN / hA) * ul"
  define hQ where "hQ = (hN / lA) * uh"
  define rho :: real where "rho = 1 / 2 ^ 31"
  have el: "0 < el" and ul: "0 < ul" and uh: "0 \<le> uh" and eh: "0 < eh"
    by (simp_all add: el_def ul_def uh_def eh_def)
  have lAp: "0 < lA" "0 < el * el" "0 < lA * el" "0 < lN" "0 < hA" "0 < lN / hA"
    by (simp_all add: lA_def lN_def hA_def el_def ul_def eh_def uh_def)
  have num: "1 / 2 \<le> el * el" "eh * eh \<le> 2" "0 \<le> eh * eh"
    "1 / 2 \<le> lA" "hA \<le> 2" "0 \<le> hA"
    "1 / 2 \<le> lA * el" "hA * eh \<le> 2" "0 \<le> hA * eh"
    "1 / 2 \<le> lN" "hN \<le> 2" "0 \<le> hN"
    "1 / 2 \<le> lN / hA" "hN / lA \<le> 2" "0 \<le> hN / lA"
    "1 / 2 \<le> lQ" "hQ \<le> 2"
    by (simp_all add: lA_def lN_def hA_def hN_def lQ_def hQ_def el_def ul_def eh_def uh_def)
  have fin: "1 - rho \<le> lQ" "hQ \<le> 1 + rho"
    by (simp_all add: lA_def lN_def hA_def hN_def lQ_def hQ_def el_def ul_def eh_def uh_def rho_def)
  have rho: "0 \<le> rho" "750000000 * rho \<le> 1 / 2" by (simp_all add: rho_def)
  have e11: "11 * u64 \<le> (1 / 2 ^ 35) * (1 / 20000)" by (simp add: u64_def)
  have m0': "0 \<le> m" using m0 by simp
  have pos: "0 < K" "0 < pb" "0 < qb" "0 < x" using Kr pr by simp_all
  let ?PP = "fl_div (fl_add (fl_div (Fin b) (lit 100)) (fl_div (fl_add (Fin b) (Fin m)) (lit 100))) (lit 2)"
  let ?B = "fl_sub (lit 1) ?PP"
  let ?D = "fl_sub (fl_div (fl_add (Fin b) (Fin m)) (lit 100)) (fl_div (Fin b) (lit 100))"
  let ?K = "fl_mul (lit 2) (fl_pow2 (fl_add (lit za) (lit zb)))"
  note pp = planner_proportions [OF b0 m0' bm]
  have e35: "11 * u64 \<le> (1 / 2 ^ 35) * X" if "1 / 20000 \<le> X" for X :: real
  proof -
    have "(1 / 2 ^ 35) * (1 / 20000) \<le> (1 / 2 ^ 35) * X"
      using that by (intro mult_left_mono) simp_all
    with e11 show ?thesis by linarith
  qed
  have PPr: "pb * el \<le> val ?PP" "val ?PP \<le> pb * eh"
    unfolding el_def eh_def
    using abs_to_rel [of "val ?PP" pb "11 * u64" "1 / 2 ^ 35"] pp(4) e35 [OF pr(1)]
    unfolding pb_def by blast+
  have Br: "qb * el \<le> val ?B" "val ?B \<le> qb * eh"
    unfolding el_def eh_def
    using abs_to_rel [of "val ?B" qb "11 * u64" "1 / 2 ^ 35"] pp(5) e35 [OF pr(3)]
    unfolding qb_def pb_def by blast+
  have Dr: "x * el \<le> val ?D" "val ?D \<le> x * eh"
    unfolding el_def eh_def
    using abs_to_rel [of "val ?D" x "11 * u64" "1 / 2 ^ 35"] pp(6) e35 [OF pr(5)]
    unfolding x_def by blast+
  have Kb: "is_fin ?K" "K * el \<le> val ?K" "val ?K \<le> K * eh"
    unfolding K_def el_def eh_def by (rule K_bounds [OF zr])+
  (* the product of the constant and the pooled proportion *)
  have KPp: "0 < K * pb" using pos by simp
  have KPr: "1 / 20000 \<le> K * pb" "K * pb \<le> 30"
    using prod_bounds [OF Kr pr(1,2)] by simp_all
  have AX: "(K * pb) * (el * el) \<le> val ?K * val ?PP" "val ?K * val ?PP \<le> (K * pb) * (eh * eh)"
    using bounds_mul [OF pos(1,2) el el Kb(2,3) PPr] .
  have AXr: "1 / 2 ^ 100 \<le> val ?K * val ?PP" "val ?K * val ?PP \<le> 2 ^ 40"
    by (rule range_fl [OF AX KPr num(1,2,3)]; simp)+
  let ?A = "fl_mul ?K ?PP"
  have A0: "is_fin ?A" "(val ?K * val ?PP) * ul \<le> val ?A" "val ?A \<le> (val ?K * val ?PP) * uh"
    unfolding ul_def uh_def by (rule fl_mul_rel [OF Kb(1) pp(1) AXr])+
  have A: "(K * pb) * lA \<le> val ?A" "val ?A \<le> (K * pb) * hA"
    unfolding lA_def hA_def using bounds_rnd [OF KPp lAp(2) ul AX A0(2,3) uh] .
  (* the numerator *)
  define N where "N = (K * pb) * qb"
  have Np: "0 < N" using pos by (simp add: N_def)
  have Nr: "1 / 400000000 \<le> N" "N \<le> 30"
    unfolding N_def using prod_bounds [OF KPr pr(3,4)] by simp_all
  have NX: "N * (lA * el) \<le> val ?A * val ?B" "val ?A * val ?B \<le> N * (hA * eh)"
    unfolding N_def using bounds_mul [OF KPp pos(3) lAp(1) el A Br] .
  have NXr: "1 / 2 ^ 100 \<le> val ?A * val ?B" "val ?A * val ?B \<le> 2 ^ 40"
    by (rule range_fl [OF NX Nr num(7,8,9)]; simp)+
  let ?N = "fl_mul ?A ?B"
  have N0: "is_fin ?N" "(val ?A * val ?B) * ul \<le> val ?N" "val ?N \<le> (val ?A * val ?B) * uh"
    unfolding ul_def uh_def by (rule fl_mul_rel [OF A0(1) pp(2) NXr])+
  have Nb: "N * lN \<le> val ?N" "val ?N \<le> N * hN"
    unfolding lN_def hN_def using bounds_rnd [OF Np lAp(3) ul NX N0(2,3) uh] .
  (* the denominator *)
  define Dn where "Dn = x * x"
  have Dnp: "0 < Dn" using pos by (simp add: Dn_def)
  have Dnr: "1 / 100000000 \<le> Dn" "Dn \<le> 1"
    unfolding Dn_def using prod_bounds [OF x4 pr(6) x4 pr(6)] by simp_all
  have DX: "Dn * (el * el) \<le> val ?D * val ?D" "val ?D * val ?D \<le> Dn * (eh * eh)"
    unfolding Dn_def using bounds_mul [OF pos(4) pos(4) el el Dr Dr] .
  have DXr: "1 / 2 ^ 100 \<le> val ?D * val ?D" "val ?D * val ?D \<le> 2 ^ 40"
    by (rule range_fl [OF DX Dnr num(1,2,3)]; simp)+
  let ?DEN = "fl_pow2 ?D"
  have D0: "is_fin ?DEN" "(val ?D * val ?D) * ul \<le> val ?DEN" "val ?DEN \<le> (val ?D * val ?D) * uh"
    unfolding ul_def uh_def fl_pow2_def by (rule fl_mul_rel [OF pp(3) pp(3) DXr])+
  have Db: "Dn * lA \<le> val ?DEN" "val ?DEN \<le> Dn * hA"
    unfolding lA_def hA_def using bounds_rnd [OF Dnp lAp(2) ul DX D0(2,3) uh] .
  have Dbr: "1 / 200000000 \<le> val ?DEN" "val ?DEN \<le> 2"
    using range_of [OF Db Dnr num(4,5,6)] by simp_all
  have Dnz: "val ?DEN \<noteq> 0" using Dbr(1) by simp
  (* the quotient *)
  define Q where "Q = N / Dn"
  have Qp: "0 < Q" using Np Dnp by (simp add: Q_def)
  have pq: "pb * qb \<le> 1 / 4"
    unfolding qb_def using zero_le_power2 [of "pb - 1 / 2"]
    by (simp add: power2_eq_square algebra_simps)
  have "K * (pb * qb) \<le> 30 * (1 / 4)"
    using Kr pq pos by (intro mult_mono) simp_all
  then have N4: "N \<le> 15 / 2" by (simp add: N_def mult.assoc)
  have "N / Dn \<le> (15 / 2) / (1 / 100000000)"
    using N4 Dnr(1) by (intro frac_le) simp_all
  then have Qhi: "Q \<le> 750000000" by (simp add: Q_def)
  have "(1 / 400000000) / 1 \<le> N / Dn"
    using Nr(1) Np Dnp Dnr(2) by (intro frac_le) simp_all
  then have Qlo: "1 / 400000000 \<le> Q" by (simp add: Q_def)
  have QX: "Q * (lN / hA) \<le> val ?N / val ?DEN" "val ?N / val ?DEN \<le> Q * (hN / lA)"
    unfolding Q_def using bounds_div [OF Np Dnp lAp(4) lAp(1) Nb Db] .
  have QXr: "1 / 2 ^ 100 \<le> val ?N / val ?DEN" "val ?N / val ?DEN \<le> 2 ^ 40"
    by (rule range_fl [OF QX Qlo Qhi num(13,14,15)]; simp)+
  let ?Q = "fl_div ?N ?DEN"
  have Q0: "is_fin ?Q" "(val ?N / val ?DEN) * ul \<le> val ?Q" "val ?Q \<le> (val ?N / val ?DEN) * uh"
    unfolding ul_def uh_def by (rule fl_div_rel [OF N0(1) D0(1) Dnz QXr])+
  have Qb: "Q * lQ \<le> val ?Q" "val ?Q \<le> Q * hQ"
    unfolding lQ_def hQ_def using bounds_rnd [OF Qp lAp(6) ul QX Q0(2,3) uh] .
  have "Q * (1 - rho) \<le> Q * lQ" using Qp fin(1) by (intro mult_left_mono) simp_all
  with Qb(1) have lo: "Q - Q * rho \<le> val ?Q" by (simp add: algebra_simps)
  have "Q * hQ \<le> Q * (1 + rho)" using Qp fin(2) by (intro mult_left_mono) simp_all
  with Qb(2) have hi: "val ?Q \<le> Q + Q * rho" by (simp add: algebra_simps)
  have "Q * rho \<le> 750000000 * rho" using Qhi rho(1) by (intro mult_right_mono) simp_all
  with rho(2) have qr: "Q * rho \<le> 1 / 2" by linarith
  have qr0: "0 \<le> Q * rho" using Qp rho(1) by simp
  have err: "\<bar>val ?Q - Q\<bar> \<le> 1 / 2" by (rule abs_half [OF lo hi qr])
  have "0 < Q * lQ" using Qp num(16) by simp
  with Qb(1) have Qpos: "0 < val ?Q" by linarith
  (* the result *)
  have zA: "(if js_eq cl (lit (95 / 100)) then lit (196 / 100) else lit (2576 / 1000)) = lit za"
    by (simp add: za_def zAlphaOf_def)
  have zB: "(if js_eq pw (lit (8 / 10)) then lit (84 / 100) else lit (128 / 100)) = lit zb"
    by (simp add: zb_def zBetaOf_def)
  have c: "calculateRequiredSampleSize (Fin b) (Fin m) pw cl = (if js_eq ?DEN (lit 0) then PInf else js_ceil ?Q)"
    unfolding calculateRequiredSampleSize_def Let_def zA zB ..
  have "\<not> js_eq ?DEN (lit 0)" using fin_eq [OF D0(1), of "Fin 0"] Dnz by simp
  moreover have "js_ceil ?Q = Fin (of_int \<lceil>val ?Q\<rceil>)"
    using is_fin_pos [OF Q0(1) Qpos] Qpos by (metis js_ceil.simps(1) less_asym)
  ultimately have res: "calculateRequiredSampleSize (Fin b) (Fin m) pw cl = Fin (of_int \<lceil>val ?Q\<rceil>)"
    unfolding c by simp
  have h1: "(b / 100 + (b + m) / 100) / 2 = pb" by (simp add: pb_def field_simps)
  have h2: "(b + m) / 100 - b / 100 = x" by (simp add: x_def field_simps)
  have "required_q za zb b m = Q"
    unfolding required_q_def Let_def h1 h2 Q_def N_def Dn_def K_def qb_def
    by (simp add: power2_eq_square)
  with err res show ?thesis unfolding za_def zb_def by blast
qed

section \<open>The sample-size planner at four inputs\<close>

lemma round64_0 [simp]: "round64 0 = Fin 0"
  by (simp add: round64_def)

lemma r64_1: "round64 (49 / 25) = Fin (2206763817411543 / 1125899906842624)"
  using round64_eval [of "49 / 25" 52 8827055269646172] by (simp add: rne_def)

lemma r64_2: "round64 (21 / 25) = Fin (7566047373982433 / 9007199254740992)"
  using round64_eval [of "21 / 25" 53 7566047373982433] by (simp add: rne_def)

lemma r64_3: "round64 (100) = Fin (100)"
  using round64_eval [of "100" 46 7036874417766400] by (simp add: rne_def)

lemma r64_4: "round64 (2) = Fin (2)"
  using round64_eval [of "2" 51 4503599627370496] by (simp add: rne_def)

lemma r64_5: "round64 (1) = Fin (1)"
  using round64_eval [of "1" 52 4503599627370496] by (simp add: rne_def)

lemma r64_6: "round64 (25220157913274777 / 9007199254740992) = Fin (3152519739159347 / 1125899906842624)"
  using round64_eval [of "25220157913274777 / 9007199254740992" 51 6305039478318694] by (simp add: rne_def)

lemma r64_7: "round64 (9938380705789317246726257466409 / 1267650600228229401496703205376) = Fin (8827055269646171 / 1125899906842624)"
  using round64_eval [of "9938380705789317246726257466409 / 1267650600228229401496703205376" 50 8827055269646171] by (simp add: rne_def)

lemma r64_8: "round64 (8827055269646171 / 562949953421312) = Fin (8827055269646171 / 562949953421312)"
  using round64_eval [of "8827055269646171 / 562949953421312" 49 8827055269646171] by (simp add: rne_def)

lemma r64_9: "round64 (1 / 100) = Fin (5764607523034235 / 576460752303423488)"
  using round64_eval [of "1 / 100" 59 5764607523034235] by (simp add: rne_def)

lemma r64_10: "round64 (6710665758007629 / 2251799813685248) = Fin (6710665758007629 / 2251799813685248)"
  using round64_eval [of "6710665758007629 / 2251799813685248" 51 6710665758007629] by (simp add: rne_def)

lemma r64_11: "round64 (6710665758007629 / 225179981368524800) = Fin (8589652170249765 / 288230376151711744)"
  using round64_eval [of "6710665758007629 / 225179981368524800" 58 8589652170249765] by (simp add: rne_def)

lemma r64_12: "round64 (22943911863533765 / 576460752303423488) = Fin (5735977965883441 / 144115188075855872)"
  using round64_eval [of "22943911863533765 / 576460752303423488" 57 5735977965883441] by (simp add: rne_def)

lemma r64_13: "round64 (5735977965883441 / 288230376151711744) = Fin (5735977965883441 / 288230376151711744)"
  using round64_eval [of "5735977965883441 / 288230376151711744" 58 5735977965883441] by (simp add: rne_def)

lemma r64_14: "round64 (50631794530325752737093497954411 / 162259276829213363391578010288128) = Fin (5621258406565771 / 18014398509481984)"
  using round64_eval [of "50631794530325752737093497954411 / 162259276829213363391578010288128" 54 5621258406565771] by (simp add: rne_def)

lemma r64_15: "round64 (282494398185828303 / 288230376151711744) = Fin (4413974971653567 / 4503599627370496)"
  using round64_eval [of "282494398185828303 / 288230376151711744" 53 8827949943307134] by (simp add: rne_def)

lemma r64_16: "round64 (24812093915778524252321612255157 / 81129638414606681695789005144064) = Fin (5509391590891815 / 18014398509481984)"
  using round64_eval [of "24812093915778524252321612255157 / 81129638414606681695789005144064" 54 5509391590891815] by (simp add: rne_def)

lemma r64_17: "round64 (11414696817465295 / 576460752303423488) = Fin (713418551091581 / 36028797018963968)"
  using round64_eval [of "11414696817465295 / 576460752303423488" 58 5707348408732648] by (simp add: rne_def)

lemma r64_18: "round64 (508966029041610769646649079561 / 1298074214633706907132624082305024) = Fin (3616421146841807 / 9223372036854775808)"
  using round64_eval [of "508966029041610769646649079561 / 1298074214633706907132624082305024" 64 7232842293683614] by (simp add: rne_def)

lemma r64_19: "round64 (2820808494536609280 / 3616421146841807) = Fin (780)"
  using round64_eval [of "2820808494536609280 / 3616421146841807" 43 6860952557322240] by (simp add: rne_def)

lemma r64_20: "round64 (13421331516015259 / 4503599627370496) = Fin (3355332879003815 / 1125899906842624)"
  using round64_eval [of "13421331516015259 / 4503599627370496" 51 6710665758007630] by (simp add: rne_def)

lemma r64_21: "round64 (671066575800763 / 22517998136852480) = Fin (4294826085124883 / 144115188075855872)"
  using round64_eval [of "671066575800763 / 22517998136852480" 58 8589652170249766] by (simp add: rne_def)

lemma r64_22: "round64 (22943911863533767 / 576460752303423488) = Fin (2867988982941721 / 72057594037927936)"
  using round64_eval [of "22943911863533767 / 576460752303423488" 57 5735977965883442] by (simp add: rne_def)

lemma r64_23: "round64 (2867988982941721 / 144115188075855872) = Fin (2867988982941721 / 144115188075855872)"
  using round64_eval [of "2867988982941721 / 144115188075855872" 58 5735977965883442] by (simp add: rne_def)

lemma r64_24: "round64 (25315897265162880782074383800291 / 81129638414606681695789005144064) = Fin (1405314601641443 / 4503599627370496)"
  using round64_eval [of "25315897265162880782074383800291 / 81129638414606681695789005144064" 54 5621258406565772] by (simp add: rne_def)

lemma r64_25: "round64 (141247199092914151 / 144115188075855872) = Fin (4413974971653567 / 4503599627370496)"
  using round64_eval [of "141247199092914151 / 144115188075855872" 53 8827949943307134] by (simp add: rne_def)

lemma r64_26: "round64 (6203023478944632166574145977181 / 20282409603651670423947251286016) = Fin (688673948861477 / 2251799813685248)"
  using round64_eval [of "6203023478944632166574145977181 / 20282409603651670423947251286016" 54 5509391590891816] by (simp add: rne_def)

lemma r64_27: "round64 (11414696817465297 / 576460752303423488) = Fin (713418551091581 / 36028797018963968)"
  using round64_eval [of "11414696817465297 / 576460752303423488" 58 5707348408732648] by (simp add: rne_def)

lemma r64_28: "round64 (2820808494536609792 / 3616421146841807) = Fin (6860952557322241 / 8796093022208)"
  using round64_eval [of "2820808494536609792 / 3616421146841807" 43 6860952557322241] by (simp add: rne_def)

lemma r64_29: "round64 (1 / 10) = Fin (3602879701896397 / 36028797018963968)"
  using round64_eval [of "1 / 10" 56 7205759403792794] by (simp add: rne_def)

lemma r64_30: "round64 (12) = Fin (12)"
  using round64_eval [of "12" 49 6755399441055744] by (simp add: rne_def)

lemma r64_31: "round64 (3 / 25) = Fin (1080863910568919 / 9007199254740992)"
  using round64_eval [of "3 / 25" 56 8646911284551352] by (simp add: rne_def)

lemma r64_32: "round64 (7926335344172073 / 36028797018963968) = Fin (7926335344172073 / 36028797018963968)"
  using round64_eval [of "7926335344172073 / 36028797018963968" 55 7926335344172073] by (simp add: rne_def)

lemma r64_33: "round64 (7926335344172073 / 72057594037927936) = Fin (7926335344172073 / 72057594037927936)"
  using round64_eval [of "7926335344172073 / 72057594037927936" 56 7926335344172073] by (simp add: rne_def)

lemma r64_34: "round64 (69966200168756793452981649582483 / 40564819207303340847894502572032) = Fin (7767808637288631 / 4503599627370496)"
  using round64_eval [of "69966200168756793452981649582483 / 40564819207303340847894502572032" 52 7767808637288631] by (simp add: rne_def)

lemma r64_35: "round64 (64131258693755863 / 72057594037927936) = Fin (8016407336719483 / 9007199254740992)"
  using round64_eval [of "64131258693755863 / 72057594037927936" 53 8016407336719483] by (simp add: rne_def)

lemma r64_36: "round64 (62269918150193550959579352097773 / 40564819207303340847894502572032) = Fin (3456674843593441 / 2251799813685248)"
  using round64_eval [of "62269918150193550959579352097773 / 40564819207303340847894502572032" 52 6913349687186882] by (simp add: rne_def)

lemma r64_37: "round64 (720575940379279 / 36028797018963968) = Fin (720575940379279 / 36028797018963968)"
  using round64_eval [of "720575940379279 / 36028797018963968" 58 5764607523034232] by (simp add: rne_def)

lemma r64_38: "round64 (519229685853482244038372559841 / 1298074214633706907132624082305024) = Fin (7378697629483813 / 18446744073709551616)"
  using round64_eval [of "519229685853482244038372559841 / 1298074214633706907132624082305024" 64 7378697629483813] by (simp add: rne_def)

lemma r64_39: "round64 (28317080318717468672 / 7378697629483813) = Fin (1054893445920851 / 274877906944)"
  using round64_eval [of "28317080318717468672 / 7378697629483813" 41 8439147567366808] by (simp add: rne_def)

lemma r64_40: "round64 (14) = Fin (14)"
  using round64_eval [of "14" 49 7881299347898368] by (simp add: rne_def)

lemma r64_41: "round64 (7 / 50) = Fin (1261007895663739 / 9007199254740992)"
  using round64_eval [of "7 / 50" 55 5044031582654956] by (simp add: rne_def)

lemma r64_42: "round64 (8646911284551353 / 36028797018963968) = Fin (8646911284551353 / 36028797018963968)"
  using round64_eval [of "8646911284551353 / 36028797018963968" 55 8646911284551353] by (simp add: rne_def)

lemma r64_43: "round64 (8646911284551353 / 72057594037927936) = Fin (8646911284551353 / 72057594037927936)"
  using round64_eval [of "8646911284551353 / 72057594037927936" 56 8646911284551353] by (simp add: rne_def)

lemma r64_44: "round64 (76326763820461962111378789319363 / 40564819207303340847894502572032) = Fin (8473973058860325 / 4503599627370496)"
  using round64_eval [of "76326763820461962111378789319363 / 40564819207303340847894502572032" 52 8473973058860325] by (simp add: rne_def)

lemma r64_45: "round64 (63410682753376583 / 72057594037927936) = Fin (7926335344172073 / 9007199254740992)"
  using round64_eval [of "63410682753376583 / 72057594037927936" 53 7926335344172073] by (simp add: rne_def)

lemma r64_46: "round64 (67167552162006528372984072703725 / 40564819207303340847894502572032) = Fin (3728548145898543 / 2251799813685248)"
  using round64_eval [of "67167552162006528372984072703725 / 40564819207303340847894502572032" 52 7457096291797086] by (simp add: rne_def)

lemma r64_47: "round64 (1441151880758559 / 36028797018963968) = Fin (1441151880758559 / 36028797018963968)"
  using round64_eval [of "1441151880758559 / 36028797018963968" 57 5764607523034236] by (simp add: rne_def)

lemma r64_48: "round64 (2076918743413931858457251756481 / 1298074214633706907132624082305024) = Fin (461168601842739 / 288230376151711744)"
  using round64_eval [of "2076918743413931858457251756481 / 1298074214633706907132624082305024" 62 7378697629483824] by (simp add: rne_def)

lemma r64_49: "round64 (159084720891671168 / 153722867280913) = Fin (4551450373411305 / 4398046511104)"
  using round64_eval [of "159084720891671168 / 153722867280913" 42 4551450373411305] by (simp add: rne_def)

lemma r64_50: "round64 (19 / 20) = Fin (4278419646001971 / 4503599627370496)"
  using round64_eval [of "19 / 20" 53 8556839292003942] by (simp add: rne_def)

lemma r64_51: "round64 (4 / 5) = Fin (3602879701896397 / 4503599627370496)"
  using round64_eval [of "4 / 5" 53 7205759403792794] by (simp add: rne_def)

lemma r64_52: "round64 (4458865944322381 / 2251799813685248) = Fin (4458865944322381 / 2251799813685248)"
  using round64_eval [of "4458865944322381 / 2251799813685248" 52 8917731888644762] by (simp add: rne_def)

lemma r64_53: "round64 (8917731888644763 / 4503599627370496) = Fin (8917731888644763 / 4503599627370496)"
  using round64_eval [of "8917731888644763 / 4503599627370496" 52 8917731888644763] by (simp add: rne_def)

lemma r64_54: "round64 (10) = Fin (10)"
  using round64_eval [of "10" 49 5629499534213120] by (simp add: rne_def)

lemmas r64_steps = r64_1 r64_2 r64_3 r64_4 r64_5 r64_6 r64_7 r64_8 r64_9 r64_10 r64_11 r64_12
  r64_13 r64_14 r64_15 r64_16 r64_17 r64_18 r64_19 r64_20 r64_21 r64_22 r64_23 r64_24 r64_25
  r64_26 r64_27 r64_28 r64_29 r64_30 r64_31 r64_32 r64_33 r64_34 r64_35 r64_36 r64_37 r64_38
  r64_39 r64_40 r64_41 r64_42 r64_43 r64_44 r64_45 r64_46 r64_47 r64_48 r64_49 r64_50 r64_51
  r64_52 r64_53 r64_54

lemma planner_at_lower:
  "calculateRequiredSampleSize (Fin 1) (Fin (4458865944322381 / 2251799813685248)) (lit (8 / 10)) (lit (95 / 100)) = Fin 780"
  by (simp add: calculateRequiredSampleSize_def Let_def lit_def fl_add_def fl_sub_def fl_mul_def fl_div_def
      fl_pow2_def r64_steps)

lemma planner_at_upper:
  "calculateRequiredSampleSize (Fin 1) (Fin (8917731888644763 / 4503599627370496)) (lit (8 / 10)) (lit (95 / 100)) = Fin 781"
  by (simp add: calculateRequiredSampleSize_def Let_def lit_def fl_add_def fl_sub_def fl_mul_def fl_div_def
      fl_pow2_def r64_steps)

lemma planner_at_10_2:
  "calculateRequiredSampleSize (Fin 10) (Fin 2) (lit (8 / 10)) (lit (95 / 100)) = Fin 3838"
  by (simp add: calculateRequiredSampleSize_def Let_def lit_def fl_add_def fl_sub_def fl_mul_def fl_div_def
      fl_pow2_def r64_steps)

lemma planner_at_10_4:
  "calculateRequiredSampleSize (Fin 10) (Fin 4) (lit (8 / 10)) (lit (95 / 100)) = Fin 1035"
  by (simp add: calculateRequiredSampleSize_def Let_def lit_def fl_add_def fl_sub_def fl_mul_def fl_div_def
      fl_pow2_def r64_steps)

section \<open>The exact quotient of the planner\<close>

lemma required_q_mono:
  assumes "0 \<le> b" "0 < m1" "m1 < m2" "b + m2 \<le> 100"
  shows "required_q za zb b m2 \<le> required_q za zb b m1"
proof -
  define q where "q = b / 100"
  define x where "x = m1 / 100"
  define y where "y = m2 / 100"
  have h: "0 \<le> q" "0 < x" "x < y" "q + y \<le> 1" using assms by (simp_all add: q_def x_def y_def)
  have r: "2 * (za + zb)\<^sup>2 * ((b / 100 + (b + m) / 100) / 2) * (1 - (b / 100 + (b + m) / 100) / 2)
        / ((b + m) / 100 - b / 100)\<^sup>2
      = 2 * (za + zb)\<^sup>2 * ((b / 100 + m / 100 / 2) * (1 - (b / 100 + m / 100 / 2)) / (m / 100)\<^sup>2)" for m
    by (simp add: field_simps)
  have "2 * (za + zb)\<^sup>2 * ((q + y / 2) * (1 - (q + y / 2)) / y\<^sup>2)
      \<le> 2 * (za + zb)\<^sup>2 * ((q + x / 2) * (1 - (q + x / 2)) / x\<^sup>2)"
    using variance_ratio_mono [OF h] by (intro mult_left_mono) simp_all
  then show ?thesis
    unfolding required_q_def Let_def r q_def x_def y_def .
qed

lemma required_n_q: "required_n za zb b m = \<lceil>required_q za zb b m\<rceil>"
  by (simp add: required_n_def required_q_def Let_def)

lemma ceiling_near:
  fixes q Q :: real
  assumes "\<bar>q - Q\<bar> \<le> 1 / 2"
  shows "\<bar>\<lceil>q\<rceil> - \<lceil>Q\<rceil>\<bar> \<le> 1"
proof -
  have "q \<le> Q + 1" using assms by linarith
  then have "\<lceil>q\<rceil> \<le> \<lceil>Q + 1\<rceil>" by (rule ceiling_mono)
  then have 1: "\<lceil>q\<rceil> \<le> \<lceil>Q\<rceil> + 1" by simp
  have "Q \<le> q + 1" using assms by linarith
  then have "\<lceil>Q\<rceil> \<le> \<lceil>q + 1\<rceil>" by (rule ceiling_mono)
  then have 2: "\<lceil>Q\<rceil> \<le> \<lceil>q\<rceil> + 1" by simp
  from 1 2 show ?thesis by linarith
qed

lemma ceiling_chain:
  fixes q1 q2 Q1 Q2 :: real
  assumes "\<bar>q1 - Q1\<bar> \<le> 1 / 2" "\<bar>q2 - Q2\<bar> \<le> 1 / 2" "Q2 \<le> Q1"
  shows "\<lceil>q2\<rceil> \<le> \<lceil>q1\<rceil> + 1"
proof -
  have "q2 \<le> q1 + 1" using assms by linarith
  then have "\<lceil>q2\<rceil> \<le> \<lceil>q1 + 1\<rceil>" by (rule ceiling_mono)
  then show ?thesis by simp
qed

lemma planner_zero_effect:
  assumes b0: "0 \<le> b" and b1: "b \<le> 100" and rep: "round64 b = Fin b"
  shows "calculateRequiredSampleSize (Fin b) (Fin 0) pw cl = PInf"
proof -
  let ?p = "fl_div (Fin b) (lit 100)"
  have s: "fl_add (Fin b) (Fin 0) = Fin b"
    by (simp add: fl_add_def js_add_def rep)
  have p: "is_fin ?p"
    using fl_div_abs_c(1) [of "Fin b" "Fin 100" 1] b0 b1 by simp
  have d: "fl_sub ?p ?p = Fin 0"
    by (simp only: fl_sub_def js_sub_self [OF p] rnd.simps round64_0)
  have e: "fl_pow2 (Fin 0) = Fin 0"
    by (simp add: fl_pow2_def fl_mul_def js_mul_def)
  show ?thesis
    unfolding calculateRequiredSampleSize_def Let_def s d e by (simp add: js_eq_def)
qed

section \<open>Claims\<close>

text \<open>
  Claim C4. The six metric derivers are total: \<open>calculateVariantMetrics\<close> assembles
  exactly the six values; when the denominator equals zero each deriver returns its
  sentinel (0, and +Infinity for the CPA); otherwise it returns the quotient, times 100
  for CVR and CTR and times 1000 for CPM, which on finite arguments is the finite number
  given by the real formula. No deriver has an error result.
\<close>

theorem metric_derivers:
  "calculateVariantMetrics r =
     \<lparr> cvr = calculateCVR (conversions r) (clicks r),
       ctr = calculateCTR (clicks r) (impressions r),
       cpa = calculateCPA (spend r) (conversions r),
       roas = calculateROAS (revenue r) (spend r),
       cpc = calculateCPC (spend r) (clicks r),
       cpm = calculateCPM (spend r) (impressions r) \<rparr>
   \<and> (js_eq b (Fin 0) \<longrightarrow>
        calculateCVR a b = Fin 0 \<and> calculateCTR a b = Fin 0 \<and> calculateCPA a b = PInf
        \<and> calculateROAS a b = Fin 0 \<and> calculateCPC a b = Fin 0 \<and> calculateCPM a b = Fin 0)
   \<and> (\<not> js_eq b (Fin 0) \<longrightarrow>
        calculateCVR a b = js_mul (js_div a b) (Fin 100)
        \<and> calculateCTR a b = js_mul (js_div a b) (Fin 100)
        \<and> calculateCPA a b = js_div a b
        \<and> calculateROAS a b = js_div a b
        \<and> calculateCPC a b = js_div a b
        \<and> calculateCPM a b = js_mul (js_div a b) (Fin 1000))
   \<and> (is_fin a \<and> is_fin b \<and> val b \<noteq> 0 \<longrightarrow>
        is_real (calculateCVR a b) (val a / val b * 100)
        \<and> is_real (calculateCTR a b) (val a / val b * 100)
        \<and> is_real (calculateCPA a b) (val a / val b)
        \<and> is_real (calculateROAS a b) (val a / val b)
        \<and> is_real (calculateCPC a b) (val a / val b)
        \<and> is_real (calculateCPM a b) (val a / val b * 1000))"
proof -
  have z: "js_eq b (Fin 0) = False" if "is_fin b" "val b \<noteq> 0"
    using that fin_eq [of b "Fin 0"] by simp
  have d: "is_fin (js_div a b) \<and> val (js_div a b) = val a / val b" if "is_fin a" "is_fin b" "val b \<noteq> 0"
    using that by (rule fin_div)
  have m: "is_fin (js_mul (js_div a b) (Fin k)) \<and> val (js_mul (js_div a b) (Fin k)) = val a / val b * k"
    if "is_fin a" "is_fin b" "val b \<noteq> 0" for k
    using d [OF that] fin_mul [of "js_div a b" "Fin k"] by simp
  show ?thesis
    using z d m
    by (simp add: calculateVariantMetrics_def calculateCVR_def calculateCTR_def calculateCPA_def
        calculateROAS_def calculateCPC_def calculateCPM_def is_real_def)
qed

text \<open>The sentinels of the spec and the CVR of 500 conversions on 5000 clicks.\<close>

theorem metric_derivers_witness:
  "js_eq (Fin 0) (Fin 0) \<and> calculateCVR (Fin 0) (Fin 0) = Fin 0
   \<and> calculateCPA (Fin 1000) (Fin 0) = PInf \<and> calculateROAS (Fin 1000) (Fin 0) = Fin 0
   \<and> \<not> js_eq (Fin 5000) (Fin 0) \<and> is_fin (Fin 500) \<and> is_fin (Fin 5000) \<and> val (Fin 5000) \<noteq> 0
   \<and> calculateCVR (Fin 500) (Fin 5000) = js_mul (js_div (Fin 500) (Fin 5000)) (Fin 100)
   \<and> is_real (calculateCVR (Fin 500) (Fin 5000)) 10
   \<and> cvr (calculateVariantMetrics (createVariant ''control'' ''Control'' True (Fin 500) (Fin 5000)))
       = Fin 10"
  using metric_derivers [where a = "Fin 0" and b = "Fin 0"
      and r = "createVariant ''control'' ''Control'' True (Fin 500) (Fin 5000)"]
    metric_derivers [where a = "Fin 1000" and b = "Fin 0"]
    metric_derivers [where a = "Fin 500" and b = "Fin 5000"]
  by (simp add: is_real_def createVariant_def)

text \<open>
  Claim C6. The minimum detectable effect returned by \<open>testSignificance\<close> is
  \<open>1.96 * pooledSE * 100\<close>, where \<open>pooledSE\<close> is the square root of the sum of the two
  squared standard errors; it is the same for every confidence level the caller passes,
  while \<open>isSignificant\<close> is \<open>pValue < 1 - confidenceLevel\<close>.
\<close>

theorem mde_fixed_critical_value:
  "minimumDetectableEffect (testSignificance c t m cl)
     = js_mul (js_mul (Fin (196 / 100)) (standardError (testSignificance c t m cl))) (Fin 100)
   \<and> standardError (testSignificance c t m cl)
     = (let seControl = (case m of
                 Ctr \<Rightarrow> calculateStandardError (ctr (calculateVariantMetrics c)) (impressions c)
               | _ \<Rightarrow> calculateStandardError (cvr (calculateVariantMetrics c)) (clicks c));
            seTreatment = (case m of
                 Ctr \<Rightarrow> calculateStandardError (ctr (calculateVariantMetrics t)) (impressions t)
               | _ \<Rightarrow> calculateStandardError (cvr (calculateVariantMetrics t)) (clicks t))
        in js_sqrt (js_add (js_mul seControl seControl) (js_mul seTreatment seTreatment)))
   \<and> minimumDetectableEffect (testSignificance c t m cl)
     = minimumDetectableEffect (testSignificance c t m cl')
   \<and> isSignificant (testSignificance c t m cl)
     = js_lt (pValue (testSignificance c t m cl)) (js_sub (Fin 1) cl)"
  by (cases m) (simp_all add: testSignificance_def Let_def)

text \<open>
  Claim C7. On a finite z-score \<open>calculatePValue\<close> returns the finite number
  \<open>2 * d * t * (0.3193815 + t * (-0.3565638 + t * (1.781478 + t * (-1.821256 + t * 1.330274))))\<close>
  with \<open>t = 1 / (1 + 0.2316419 * |z|)\<close> and \<open>d = 0.3989423 * exp (- z\<^sup>2 / 2)\<close>; at
  \<open>z = 0\<close> it is within 0.1 of 1, and at \<open>z = 1.96\<close> within 0.01 of 0.05.
\<close>

theorem calculatePValue_formula_and_anchors:
  "is_real (calculatePValue (Fin z))
     (let t = 1 / (1 + 2316419 / 10000000 * \<bar>z\<bar>);
          d = 3989423 / 10000000 * exp (- (z\<^sup>2) / 2)
      in 2 * (d * t * (3193815 / 10000000 + t * (- (3565638 / 10000000)
           + t * (1781478 / 1000000 + t * (- (1821256 / 1000000) + t * (1330274 / 1000000)))))))
   \<and> \<bar>val (calculatePValue (Fin 0)) - 1\<bar> < 1 / 10
   \<and> \<bar>val (calculatePValue (Fin (196 / 100))) - 5 / 100\<bar> < 1 / 100"
proof -
  have f: "is_fin (calculatePValue (Fin x)) \<and> val (calculatePValue (Fin x)) = pvalue_spec x" for x
    using calculatePValue_fin [of "Fin x"] by simp
  have "is_real (calculatePValue (Fin z)) (pvalue_spec z)"
    using f [of z] by (simp add: is_real_def)
  then have 1: "is_real (calculatePValue (Fin z))
     (let t = 1 / (1 + 2316419 / 10000000 * \<bar>z\<bar>);
          d = 3989423 / 10000000 * exp (- (z\<^sup>2) / 2)
      in 2 * (d * t * (3193815 / 10000000 + t * (- (3565638 / 10000000)
           + t * (1781478 / 1000000 + t * (- (1821256 / 1000000) + t * (1330274 / 1000000)))))))"
    unfolding pvalue_spec_def tail_poly_def .
  have 2: "\<bar>val (calculatePValue (Fin 0)) - 1\<bar> < 1 / 10"
    using f [of 0] pvalue_spec_0 by simp
  have 3: "\<bar>val (calculatePValue (Fin (196 / 100))) - 5 / 100\<bar> < 1 / 100"
    using f [of "196 / 100"] pvalue_spec_196 by simp
  from 1 2 3 show ?thesis by blast
qed

text \<open>
  Claim C1. On a variant list that passes the three guards, \<open>determineWinner\<close> returns
  the status \<open>winner\<close> exactly when some non-control variant is significant against the
  control and has a positive improvement; then the winner is such a variant, no
  qualifying variant has a larger improvement, the improvement returned is the winner's
  and the confidence is one minus the p-value of its comparison. The improvement is
  \<open>(control - treatment) / control * 100\<close> for \<open>cpa\<close> and \<open>cpc\<close>, and
  \<open>(treatment - control) / control * 100\<close> otherwise. With 500 of 5000 against 700 of
  5000 on \<open>cvr\<close> at 0.95 and a minimum of 100 the result is \<open>winner\<close>, the treatment,
  with improvement 40.
\<close>

theorem determineWinner_winner:
  assumes "\<not> length variants < 2"
    and "find isControl variants = Some control"
    and "\<not> js_lt (totalSampleSize variants) minSampleSize"
  shows "(let d = determineWinner variants pm cl minSampleSize in
      (status d = Winner \<longleftrightarrow>
         (\<exists>t \<in> set variants. \<not> isControl t
            \<and> isSignificant (testSignificance control t pm cl)
            \<and> js_gt (improvementOf control pm t) (Fin 0)))
      \<and> (status d = Winner \<longrightarrow>
         (\<exists>t \<in> set variants. \<not> isControl t
            \<and> isSignificant (testSignificance control t pm cl)
            \<and> js_gt (improvementOf control pm t) (Fin 0)
            \<and> winnerVariantId d = Some (variantId t)
            \<and> improvement d = Some (improvementOf control pm t)
            \<and> confidence d = js_sub (Fin 1) (pValue (testSignificance control t pm cl))
            \<and> (\<forall>t' \<in> set variants. \<not> isControl t'
                  \<and> isSignificant (testSignificance control t' pm cl)
                  \<and> js_gt (improvementOf control pm t') (Fin 0) \<longrightarrow>
                  \<not> js_gt (improvementOf control pm t') (improvementOf control pm t)))))
    \<and> (\<forall>t. improvementOf control pm t =
         (if pm = Cpa \<or> pm = Cpc
          then js_mul (js_div (js_sub (getMetricValue control pm) (getMetricValue t pm))
                              (getMetricValue control pm)) (Fin 100)
          else js_mul (js_div (js_sub (getMetricValue t pm) (getMetricValue control pm))
                              (getMetricValue control pm)) (Fin 100)))
    \<and> (\<forall>c t. isControl c \<and> clicks c = Fin 5000 \<and> conversions c = Fin 500
              \<and> sampleSize c = Fin 5000
              \<and> \<not> isControl t \<and> clicks t = Fin 5000 \<and> conversions t = Fin 700
              \<and> sampleSize t = Fin 5000 \<longrightarrow>
         status (determineWinner [c, t] Cvr (Fin (95 / 100)) (Fin 100)) = Winner
         \<and> winnerVariantId (determineWinner [c, t] Cvr (Fin (95 / 100)) (Fin 100))
             = Some (variantId t)
         \<and> improvement (determineWinner [c, t] Cvr (Fin (95 / 100)) (Fin 100)) = Some (Fin 40)
         \<and> js_gt (Fin 40) (Fin 0))"
proof -
  let ?ts = "filter (\<lambda>v. \<not> isControl v) variants"
  have eq: "determineWinner variants pm cl minSampleSize = compareTreatments control ?ts pm cl"
    using assms by (rule determineWinner_pass)
  have 1: "status (compareTreatments control ?ts pm cl) = Winner \<longleftrightarrow>
         (\<exists>t \<in> set variants. \<not> isControl t
            \<and> isSignificant (testSignificance control t pm cl)
            \<and> js_gt (improvementOf control pm t) (Fin 0))"
    unfolding compareTreatments_winner_iff by (auto simp: qualifies_def)
  have 2: "\<exists>t \<in> set variants. \<not> isControl t
            \<and> isSignificant (testSignificance control t pm cl)
            \<and> js_gt (improvementOf control pm t) (Fin 0)
            \<and> winnerVariantId (compareTreatments control ?ts pm cl) = Some (variantId t)
            \<and> improvement (compareTreatments control ?ts pm cl) = Some (improvementOf control pm t)
            \<and> confidence (compareTreatments control ?ts pm cl)
                = js_sub (Fin 1) (pValue (testSignificance control t pm cl))
            \<and> (\<forall>t' \<in> set variants. \<not> isControl t'
                  \<and> isSignificant (testSignificance control t' pm cl)
                  \<and> js_gt (improvementOf control pm t') (Fin 0) \<longrightarrow>
                  \<not> js_gt (improvementOf control pm t') (improvementOf control pm t))"
    if "status (compareTreatments control ?ts pm cl) = Winner"
  proof -
    from compareTreatments_winner_props [OF that]
    obtain t where t: "t \<in> set ?ts" "qualifies control pm cl t"
      "winnerVariantId (compareTreatments control ?ts pm cl) = Some (variantId t)"
      "improvement (compareTreatments control ?ts pm cl) = Some (improvementOf control pm t)"
      "confidence (compareTreatments control ?ts pm cl)
          = js_sub (Fin 1) (pValue (testSignificance control t pm cl))"
      "\<forall>t' \<in> set ?ts. qualifies control pm cl t' \<longrightarrow>
            \<not> js_gt (improvementOf control pm t') (improvementOf control pm t)"
      by blast
    show ?thesis
    proof (intro bexI [of _ t] conjI ballI impI)
      show "t \<in> set variants" "\<not> isControl t" using t(1) by auto
      show "isSignificant (testSignificance control t pm cl)"
        "js_gt (improvementOf control pm t) (Fin 0)" using t(2) by (simp_all add: qualifies_def)
      show "winnerVariantId (compareTreatments control ?ts pm cl) = Some (variantId t)" by (rule t(3))
      show "improvement (compareTreatments control ?ts pm cl) = Some (improvementOf control pm t)"
        by (rule t(4))
      show "confidence (compareTreatments control ?ts pm cl)
                = js_sub (Fin 1) (pValue (testSignificance control t pm cl))" by (rule t(5))
    next
      fix t' assume "t' \<in> set variants" and "\<not> isControl t'
                  \<and> isSignificant (testSignificance control t' pm cl)
                  \<and> js_gt (improvementOf control pm t') (Fin 0)"
      then have "t' \<in> set ?ts" "qualifies control pm cl t'" by (simp_all add: qualifies_def)
      with t(6) show "\<not> js_gt (improvementOf control pm t') (improvementOf control pm t)" by blast
    qed
  qed
  have 3: "improvementOf control pm t =
         (if pm = Cpa \<or> pm = Cpc
          then js_mul (js_div (js_sub (getMetricValue control pm) (getMetricValue t pm))
                              (getMetricValue control pm)) (Fin 100)
          else js_mul (js_div (js_sub (getMetricValue t pm) (getMetricValue control pm))
                              (getMetricValue control pm)) (Fin 100))" for t
    by (simp add: improvementOf_def isLowerBetter_def Let_def)
  have 4: "status (determineWinner [c, t] Cvr (Fin (95 / 100)) (Fin 100)) = Winner
         \<and> winnerVariantId (determineWinner [c, t] Cvr (Fin (95 / 100)) (Fin 100))
             = Some (variantId t)
         \<and> improvement (determineWinner [c, t] Cvr (Fin (95 / 100)) (Fin 100)) = Some (Fin 40)
         \<and> js_gt (Fin 40) (Fin 0)"
    if h: "isControl c \<and> clicks c = Fin 5000 \<and> conversions c = Fin 500
              \<and> sampleSize c = Fin 5000
              \<and> \<not> isControl t \<and> clicks t = Fin 5000 \<and> conversions t = Fin 700
              \<and> sampleSize t = Fin 5000" for c t
  proof -
    have q: "qualifies c Cvr (Fin (95 / 100)) t" "improvementOf c Cvr t = Fin 40"
      using scenario_winner_qualifies [of c t] h by simp_all
    have e: "determineWinner [c, t] Cvr (Fin (95 / 100)) (Fin 100)
        = compareTreatments c [t] Cvr (Fin (95 / 100))"
      using h by (simp add: determineWinner_def totalSampleSize_def)
    have w: "status (compareTreatments c [t] Cvr (Fin (95 / 100))) = Winner"
      unfolding compareTreatments_winner_iff using q(1) by simp
    from compareTreatments_winner_props [OF w] q(2) show ?thesis
      unfolding e using w by simp
  qed
  show ?thesis
    unfolding Let_def eq using 1 2 3 4 by blast
qed


text \<open>The scenario of the test suite, through the general statement.\<close>

theorem determineWinner_winner_witness:
  "\<not> length [scenario_control, scenario_better] < 2
   \<and> find isControl [scenario_control, scenario_better] = Some scenario_control
   \<and> \<not> js_lt (totalSampleSize [scenario_control, scenario_better]) (Fin 100)
   \<and> status (determineWinner [scenario_control, scenario_better] Cvr (Fin (95 / 100)) (Fin 100))
       = Winner
   \<and> winnerVariantId
        (determineWinner [scenario_control, scenario_better] Cvr (Fin (95 / 100)) (Fin 100))
       = Some ''treatment''"
proof -
  let ?vs = "[scenario_control, scenario_better]"
  let ?d = "determineWinner ?vs Cvr (Fin (95 / 100)) (Fin 100)"
  have h1: "\<not> length ?vs < 2" by simp
  have h2: "find isControl ?vs = Some scenario_control" by simp
  have h3: "\<not> js_lt (totalSampleSize ?vs) (Fin 100)" by (simp add: totalSampleSize_def)
  note th = determineWinner_winner [OF h1 h2 h3, of Cvr "Fin (95 / 100)", unfolded Let_def]
  have q: "isSignificant (testSignificance scenario_control scenario_better Cvr (Fin (95 / 100)))
      \<and> js_gt (improvementOf scenario_control Cvr scenario_better) (Fin 0)"
    using scenario_winner_qualifies [of scenario_control scenario_better]
    by (simp add: qualifies_def)
  from th q have w: "status ?d = Winner" by simp
  with th obtain t where "t \<in> set ?vs" "\<not> isControl t" "winnerVariantId ?d = Some (variantId t)"
    by blast
  then have "winnerVariantId ?d = Some ''treatment''" by auto
  with h1 h2 h3 w show ?thesis by blast
qed

text \<open>
  Claim C2. The guards of \<open>determineWinner\<close> form a priority chain: fewer than two
  variants give \<open>insufficient_data\<close> with the reason that two variants are required;
  otherwise no control variant gives \<open>insufficient_data\<close> with the reason that no
  control is specified; otherwise a total sample size below the minimum gives
  \<open>insufficient_data\<close> with a reason carrying the actual and the required count. The
  metric, the confidence level and the counters of the variants play no part.
\<close>

theorem determineWinner_guards:
  "(length variants < 2 \<longrightarrow>
      status (determineWinner variants pm cl minSampleSize) = Insufficient_data
      \<and> reason (determineWinner variants pm cl minSampleSize)
          = [Txt ''At least 2 variants required for comparison''])
   \<and> (\<not> length variants < 2 \<and> (\<forall>v \<in> set variants. \<not> isControl v) \<longrightarrow>
      status (determineWinner variants pm cl minSampleSize) = Insufficient_data
      \<and> reason (determineWinner variants pm cl minSampleSize)
          = [Txt ''No control variant specified''])
   \<and> (\<not> length variants < 2 \<and> (\<exists>v \<in> set variants. isControl v)
        \<and> js_lt (foldl (\<lambda>sum v. js_add sum (sampleSize v)) (Fin 0) variants) minSampleSize \<longrightarrow>
      status (determineWinner variants pm cl minSampleSize) = Insufficient_data
      \<and> reason (determineWinner variants pm cl minSampleSize)
          = [Txt ''Insufficient sample size: '',
             NumStr (foldl (\<lambda>sum v. js_add sum (sampleSize v)) (Fin 0) variants),
             Txt ''/'', NumStr minSampleSize])"
proof -
  have n: "find isControl variants = None \<longleftrightarrow> (\<forall>v \<in> set variants. \<not> isControl v)"
    by (auto simp add: find_None_iff)
  show ?thesis
  proof (intro conjI impI)
    assume "length variants < 2"
    then show "status (determineWinner variants pm cl minSampleSize) = Insufficient_data"
      "reason (determineWinner variants pm cl minSampleSize)
          = [Txt ''At least 2 variants required for comparison'']"
      by (simp_all add: determineWinner_def)
  next
    assume a: "\<not> length variants < 2 \<and> (\<forall>v \<in> set variants. \<not> isControl v)"
    then have "find isControl variants = None" using n by simp
    with a show "status (determineWinner variants pm cl minSampleSize) = Insufficient_data"
      "reason (determineWinner variants pm cl minSampleSize) = [Txt ''No control variant specified'']"
      by (simp_all add: determineWinner_def)
  next
    assume a: "\<not> length variants < 2 \<and> (\<exists>v \<in> set variants. isControl v)
        \<and> js_lt (foldl (\<lambda>sum v. js_add sum (sampleSize v)) (Fin 0) variants) minSampleSize"
    then obtain c where "find isControl variants = Some c" using n by (cases "find isControl variants") auto
    with a show "status (determineWinner variants pm cl minSampleSize) = Insufficient_data"
      "reason (determineWinner variants pm cl minSampleSize)
          = [Txt ''Insufficient sample size: '',
             NumStr (foldl (\<lambda>sum v. js_add sum (sampleSize v)) (Fin 0) variants),
             Txt ''/'', NumStr minSampleSize]"
      by (simp_all add: determineWinner_def totalSampleSize_def)
  qed
qed

text \<open>The three guards on the lists of the test suite.\<close>

theorem determineWinner_guards_witness:
  "length [createVariant ''control'' ''Control'' True (Fin 500) (Fin 5000)] < 2
   \<and> status (determineWinner [createVariant ''control'' ''Control'' True (Fin 500) (Fin 5000)]
        Cvr (Fin (95 / 100)) (Fin 100)) = Insufficient_data
   \<and> \<not> length [createVariant ''var1'' ''Variant 1'' False (Fin 500) (Fin 5000),
                createVariant ''var2'' ''Variant 2'' False (Fin 700) (Fin 5000)] < 2
   \<and> \<not> isControl (createVariant ''var1'' ''Variant 1'' False (Fin 500) (Fin 5000))
   \<and> \<not> isControl (createVariant ''var2'' ''Variant 2'' False (Fin 700) (Fin 5000))
   \<and> reason (determineWinner [createVariant ''var1'' ''Variant 1'' False (Fin 500) (Fin 5000),
                createVariant ''var2'' ''Variant 2'' False (Fin 700) (Fin 5000)]
        Cvr (Fin (95 / 100)) (Fin 100)) = [Txt ''No control variant specified'']
   \<and> \<not> length [createVariant ''control'' ''Control'' True (Fin 5) (Fin 50),
                createVariant ''treatment'' ''Treatment'' False (Fin 7) (Fin 50)] < 2
   \<and> (\<exists>v \<in> set [createVariant ''control'' ''Control'' True (Fin 5) (Fin 50),
                createVariant ''treatment'' ''Treatment'' False (Fin 7) (Fin 50)]. isControl v)
   \<and> js_lt (foldl (\<lambda>sum v. js_add sum (sampleSize v)) (Fin 0)
          [createVariant ''control'' ''Control'' True (Fin 5) (Fin 50),
           createVariant ''treatment'' ''Treatment'' False (Fin 7) (Fin 50)]) (Fin 200)
   \<and> reason (determineWinner [createVariant ''control'' ''Control'' True (Fin 5) (Fin 50),
                createVariant ''treatment'' ''Treatment'' False (Fin 7) (Fin 50)]
        Cvr (Fin (95 / 100)) (Fin 200))
       = [Txt ''Insufficient sample size: '', NumStr (Fin 100), Txt ''/'', NumStr (Fin 200)]"
  using determineWinner_guards [of "[createVariant ''control'' ''Control'' True (Fin 500) (Fin 5000)]"
      Cvr "Fin (95 / 100)" "Fin 100"]
    determineWinner_guards [of "[createVariant ''var1'' ''Variant 1'' False (Fin 500) (Fin 5000),
                createVariant ''var2'' ''Variant 2'' False (Fin 700) (Fin 5000)]" Cvr "Fin (95 / 100)" "Fin 100"]
    determineWinner_guards [of "[createVariant ''control'' ''Control'' True (Fin 5) (Fin 50),
                createVariant ''treatment'' ''Treatment'' False (Fin 7) (Fin 50)]" Cvr "Fin (95 / 100)" "Fin 200"]
  by simp


text \<open>
  Claim C3. On a variant list that passes the guards and has no treatment that is
  significant with a positive improvement, \<open>determineWinner\<close> returns \<open>loser\<close> with the
  control's id and one minus a p-value as confidence exactly when the control is
  significantly better than some treatment (strictly smaller metric for \<open>cpa\<close> and
  \<open>cpc\<close>, strictly larger otherwise); in every other case it returns \<open>tie\<close> with
  confidence 0.5 and the reason that no significant difference was found. With 500 of
  5000 against 510 of 5000 on \<open>cvr\<close> the result is \<open>tie\<close>.
\<close>

theorem determineWinner_loser_or_tie:
  assumes "\<not> length variants < 2"
    and "find isControl variants = Some control"
    and "\<not> js_lt (totalSampleSize variants) minSampleSize"
    and "\<forall>t \<in> set variants. \<not> (\<not> isControl t
            \<and> isSignificant (testSignificance control t pm cl)
            \<and> js_gt (improvementOf control pm t) (Fin 0))"
  shows "(let d = determineWinner variants pm cl minSampleSize;
              better = (\<lambda>t. if pm = Cpa \<or> pm = Cpc
                            then js_lt (getMetricValue control pm) (getMetricValue t pm)
                            else js_gt (getMetricValue control pm) (getMetricValue t pm)) in
      ((status d = Loser \<and> winnerVariantId d = Some (variantId control)
          \<and> (\<exists>t \<in> set variants. \<not> isControl t
                \<and> isSignificant (testSignificance control t pm cl) \<and> better t
                \<and> confidence d = js_sub (Fin 1) (pValue (testSignificance control t pm cl))))
        \<longleftrightarrow> (\<exists>t \<in> set variants. \<not> isControl t
                \<and> isSignificant (testSignificance control t pm cl) \<and> better t))
      \<and> (\<not> (\<exists>t \<in> set variants. \<not> isControl t
                \<and> isSignificant (testSignificance control t pm cl) \<and> better t) \<longrightarrow>
           status d = Tie \<and> confidence d = Fin (1 / 2)
           \<and> reason d = [Txt ''No statistically significant difference found'']))
    \<and> (\<forall>c t. isControl c \<and> clicks c = Fin 5000 \<and> conversions c = Fin 500
              \<and> sampleSize c = Fin 5000
              \<and> \<not> isControl t \<and> clicks t = Fin 5000 \<and> conversions t = Fin 510
              \<and> sampleSize t = Fin 5000 \<longrightarrow>
         status (determineWinner [c, t] Cvr (Fin (95 / 100)) (Fin 100)) = Tie)"
proof -
  let ?ts = "filter (\<lambda>v. \<not> isControl v) variants"
  let ?better = "\<lambda>t. if pm = Cpa \<or> pm = Cpc
                            then js_lt (getMetricValue control pm) (getMetricValue t pm)
                            else js_gt (getMetricValue control pm) (getMetricValue t pm)"
  have eq: "determineWinner variants pm cl minSampleSize = compareTreatments control ?ts pm cl"
    using assms(1-3) by (rule determineWinner_pass)
  have nq: "\<forall>t \<in> set ?ts. \<not> qualifies control pm cl t"
    using assms(4) by (auto simp: qualifies_def)
  have b: "beaten control pm cl t
      = (isSignificant (testSignificance control t pm cl) \<and> ?better t)" for t
    by (simp add: beaten_def controlBetter_def isLowerBetter_def Let_def)
  have ex: "(\<exists>t \<in> set ?ts. beaten control pm cl t) \<longleftrightarrow>
      (\<exists>t \<in> set variants. \<not> isControl t
                \<and> isSignificant (testSignificance control t pm cl) \<and> ?better t)"
    by (auto simp: b)
  note l = compareTreatments_loser_iff [OF nq]
  have 1: "(status (compareTreatments control ?ts pm cl) = Loser
          \<and> winnerVariantId (compareTreatments control ?ts pm cl) = Some (variantId control)
          \<and> (\<exists>t \<in> set variants. \<not> isControl t
                \<and> isSignificant (testSignificance control t pm cl) \<and> ?better t
                \<and> confidence (compareTreatments control ?ts pm cl)
                    = js_sub (Fin 1) (pValue (testSignificance control t pm cl))))
        \<longleftrightarrow> (\<exists>t \<in> set variants. \<not> isControl t
                \<and> isSignificant (testSignificance control t pm cl) \<and> ?better t)"
  proof
    assume "status (compareTreatments control ?ts pm cl) = Loser
          \<and> winnerVariantId (compareTreatments control ?ts pm cl) = Some (variantId control)
          \<and> (\<exists>t \<in> set variants. \<not> isControl t
                \<and> isSignificant (testSignificance control t pm cl) \<and> ?better t
                \<and> confidence (compareTreatments control ?ts pm cl)
                    = js_sub (Fin 1) (pValue (testSignificance control t pm cl)))"
    then show "\<exists>t \<in> set variants. \<not> isControl t
                \<and> isSignificant (testSignificance control t pm cl) \<and> ?better t" by blast
  next
    assume a: "\<exists>t \<in> set variants. \<not> isControl t
                \<and> isSignificant (testSignificance control t pm cl) \<and> ?better t"
    then have e: "\<exists>t \<in> set ?ts. beaten control pm cl t" using ex by simp
    from l(2) [OF e] obtain t where t: "t \<in> set ?ts" "beaten control pm cl t"
      "winnerVariantId (compareTreatments control ?ts pm cl) = Some (variantId control)"
      "confidence (compareTreatments control ?ts pm cl)
                  = js_sub (Fin 1) (pValue (testSignificance control t pm cl))" by blast
    have "status (compareTreatments control ?ts pm cl) = Loser" using l(1) e by simp
    moreover have "\<exists>t \<in> set variants. \<not> isControl t
                \<and> isSignificant (testSignificance control t pm cl) \<and> ?better t
                \<and> confidence (compareTreatments control ?ts pm cl)
                    = js_sub (Fin 1) (pValue (testSignificance control t pm cl))"
      using t(1,2,4) unfolding b by auto
    ultimately show "status (compareTreatments control ?ts pm cl) = Loser
          \<and> winnerVariantId (compareTreatments control ?ts pm cl) = Some (variantId control)
          \<and> (\<exists>t \<in> set variants. \<not> isControl t
                \<and> isSignificant (testSignificance control t pm cl) \<and> ?better t
                \<and> confidence (compareTreatments control ?ts pm cl)
                    = js_sub (Fin 1) (pValue (testSignificance control t pm cl)))"
      using t(3) by blast
  qed
  have 2: "status (compareTreatments control ?ts pm cl) = Tie
           \<and> confidence (compareTreatments control ?ts pm cl) = Fin (1 / 2)
           \<and> reason (compareTreatments control ?ts pm cl)
               = [Txt ''No statistically significant difference found'']"
    if "\<not> (\<exists>t \<in> set variants. \<not> isControl t
                \<and> isSignificant (testSignificance control t pm cl) \<and> ?better t)"
  proof -
    from that have "\<not> (\<exists>t \<in> set ?ts. beaten control pm cl t)" using ex by simp
    from l(3) [OF this] show ?thesis by (simp add: tieDecision_def)
  qed
  have 3: "status (determineWinner [c, t] Cvr (Fin (95 / 100)) (Fin 100)) = Tie"
    if h: "isControl c \<and> clicks c = Fin 5000 \<and> conversions c = Fin 500
              \<and> sampleSize c = Fin 5000
              \<and> \<not> isControl t \<and> clicks t = Fin 5000 \<and> conversions t = Fin 510
              \<and> sampleSize t = Fin 5000" for c t
  proof -
    have ns: "\<not> isSignificant (testSignificance c t Cvr (Fin (95 / 100)))"
      using scenario_tie_not_significant [of c t] h by simp
    have e: "determineWinner [c, t] Cvr (Fin (95 / 100)) (Fin 100)
        = compareTreatments c [t] Cvr (Fin (95 / 100))"
      using h by (simp add: determineWinner_def totalSampleSize_def)
    have n: "\<forall>x \<in> set [t]. \<not> qualifies c Cvr (Fin (95 / 100)) x"
      using ns by (simp add: qualifies_def)
    have "\<not> (\<exists>x \<in> set [t]. beaten c Cvr (Fin (95 / 100)) x)"
      using ns by (simp add: beaten_def)
    from compareTreatments_loser_iff(3) [OF n this] show ?thesis
      unfolding e by (simp add: tieDecision_def)
  qed
  show ?thesis
    unfolding Let_def eq using 1 2 3 by blast
qed

text \<open>The tie scenario of the test suite, through the general statement.\<close>

theorem determineWinner_loser_or_tie_witness:
  "\<not> length [scenario_control, scenario_similar] < 2
   \<and> find isControl [scenario_control, scenario_similar] = Some scenario_control
   \<and> \<not> js_lt (totalSampleSize [scenario_control, scenario_similar]) (Fin 100)
   \<and> isControl scenario_control
   \<and> \<not> isSignificant (testSignificance scenario_control scenario_similar Cvr (Fin (95 / 100)))
   \<and> status (determineWinner [scenario_control, scenario_similar] Cvr (Fin (95 / 100)) (Fin 100))
       = Tie
   \<and> confidence (determineWinner [scenario_control, scenario_similar] Cvr (Fin (95 / 100)) (Fin 100))
       = Fin (1 / 2)"
proof -
  let ?vs = "[scenario_control, scenario_similar]"
  let ?d = "determineWinner ?vs Cvr (Fin (95 / 100)) (Fin 100)"
  have ns: "\<not> isSignificant (testSignificance scenario_control scenario_similar Cvr (Fin (95 / 100)))"
    using scenario_tie_not_significant [of scenario_control scenario_similar] by simp
  have h1: "\<not> length ?vs < 2" by simp
  have h2: "find isControl ?vs = Some scenario_control" by simp
  have h3: "\<not> js_lt (totalSampleSize ?vs) (Fin 100)" by (simp add: totalSampleSize_def)
  have h4: "\<forall>t \<in> set ?vs. \<not> (\<not> isControl t
        \<and> isSignificant (testSignificance scenario_control t Cvr (Fin (95 / 100)))
        \<and> js_gt (improvementOf scenario_control Cvr t) (Fin 0))"
    using ns by simp
  note th = determineWinner_loser_or_tie [OF h1 h2 h3 h4, unfolded Let_def]
  have "\<not> (\<exists>t \<in> set ?vs. \<not> isControl t
        \<and> isSignificant (testSignificance scenario_control t Cvr (Fin (95 / 100)))
        \<and> js_gt (getMetricValue scenario_control Cvr) (getMetricValue t Cvr))"
    using ns by simp
  with th have "status ?d = Tie \<and> confidence ?d = Fin (1 / 2)" by simp
  with h1 h2 h3 ns show ?thesis by simp
qed


text \<open>
  Claim C9. With several control-flagged variants the first one in list order is the
  control, and the treatments are exactly the variants that are not flagged; so two
  variants that are both flagged, with enough samples, give \<open>tie\<close> with confidence 0.5.
\<close>

theorem first_control_is_control:
  "(variants = pre @ c # post \<and> (\<forall>v \<in> set pre. \<not> isControl v) \<and> isControl c
      \<and> \<not> length variants < 2 \<and> \<not> js_lt (totalSampleSize variants) minSampleSize \<longrightarrow>
      determineWinner variants pm cl minSampleSize
        = compareTreatments c (filter (\<lambda>v. \<not> isControl v) variants) pm cl
      \<and> (status (determineWinner variants pm cl minSampleSize) = Loser \<longrightarrow>
           winnerVariantId (determineWinner variants pm cl minSampleSize) = Some (variantId c))
      \<and> (status (determineWinner variants pm cl minSampleSize) = Winner \<longrightarrow>
           (\<exists>t \<in> set variants. \<not> isControl t
              \<and> winnerVariantId (determineWinner variants pm cl minSampleSize)
                  = Some (variantId t))))
   \<and> (\<forall>v. v \<in> set (filter (\<lambda>v. \<not> isControl v) variants)
          \<longleftrightarrow> v \<in> set variants \<and> \<not> isControl v)
   \<and> (isControl a \<and> isControl b \<and> \<not> js_lt (totalSampleSize [a, b]) minSampleSize \<longrightarrow>
        status (determineWinner [a, b] pm cl minSampleSize) = Tie
        \<and> confidence (determineWinner [a, b] pm cl minSampleSize) = Fin (1 / 2))"
proof -
  let ?ts = "filter (\<lambda>v. \<not> isControl v) variants"
  have 1: "determineWinner variants pm cl minSampleSize = compareTreatments c ?ts pm cl
      \<and> (status (determineWinner variants pm cl minSampleSize) = Loser \<longrightarrow>
           winnerVariantId (determineWinner variants pm cl minSampleSize) = Some (variantId c))
      \<and> (status (determineWinner variants pm cl minSampleSize) = Winner \<longrightarrow>
           (\<exists>t \<in> set variants. \<not> isControl t
              \<and> winnerVariantId (determineWinner variants pm cl minSampleSize)
                  = Some (variantId t)))"
    if h: "variants = pre @ c # post \<and> (\<forall>v \<in> set pre. \<not> isControl v) \<and> isControl c
      \<and> \<not> length variants < 2 \<and> \<not> js_lt (totalSampleSize variants) minSampleSize"
  proof -
    from h have v: "variants = pre @ c # post" and p: "\<forall>v \<in> set pre. \<not> isControl v"
      and c: "isControl c" and g1: "\<not> length variants < 2"
      and g3: "\<not> js_lt (totalSampleSize variants) minSampleSize" by blast+
    have f: "find isControl variants = Some c" unfolding v using p c by (rule find_first)
    have eq: "determineWinner variants pm cl minSampleSize = compareTreatments c ?ts pm cl"
      using g1 f g3 by (rule determineWinner_pass)
    have l: "winnerVariantId (compareTreatments c ?ts pm cl) = Some (variantId c)"
      if s: "status (compareTreatments c ?ts pm cl) = Loser"
    proof (cases "\<exists>t \<in> set ?ts. qualifies c pm cl t")
      case True
      then have "status (compareTreatments c ?ts pm cl) = Winner"
        by (simp only: compareTreatments_winner_iff)
      with s show ?thesis by simp
    next
      case False
      then have n: "\<forall>t \<in> set ?ts. \<not> qualifies c pm cl t" by blast
      from compareTreatments_loser_iff(1) [OF n] s
      have "\<exists>t \<in> set ?ts. beaten c pm cl t" by simp
      from compareTreatments_loser_iff(2) [OF n this] show ?thesis by simp
    qed
    have w: "\<exists>t \<in> set variants. \<not> isControl t
              \<and> winnerVariantId (compareTreatments c ?ts pm cl) = Some (variantId t)"
      if s: "status (compareTreatments c ?ts pm cl) = Winner"
      using compareTreatments_winner_props [OF s] by auto
    show ?thesis unfolding eq using l w by blast
  qed
  have 3: "status (determineWinner [a, b] pm cl minSampleSize) = Tie
        \<and> confidence (determineWinner [a, b] pm cl minSampleSize) = Fin (1 / 2)"
    if "isControl a \<and> isControl b \<and> \<not> js_lt (totalSampleSize [a, b]) minSampleSize"
    using that
    by (simp add: determineWinner_def compareTreatments_def best_init_def)
  show ?thesis using 1 3 by auto
qed

text \<open>Two control-flagged variants.\<close>

theorem first_control_is_control_witness:
  "[scenario_control, second_control] = [] @ scenario_control # [second_control]
   \<and> isControl scenario_control \<and> isControl second_control
   \<and> \<not> length [scenario_control, second_control] < 2
   \<and> \<not> js_lt (totalSampleSize [scenario_control, second_control]) (Fin 100)
   \<and> determineWinner [scenario_control, second_control] Cvr (Fin (95 / 100)) (Fin 100)
       = compareTreatments scenario_control [] Cvr (Fin (95 / 100))
   \<and> status (determineWinner [scenario_control, second_control] Cvr (Fin (95 / 100)) (Fin 100))
       = Tie
   \<and> confidence (determineWinner [scenario_control, second_control] Cvr (Fin (95 / 100)) (Fin 100))
       = Fin (1 / 2)"
proof -
  have c2: "isControl second_control" "sampleSize second_control = Fin 5000"
    by (simp_all add: second_control_def)
  have t: "\<not> js_lt (totalSampleSize [scenario_control, second_control]) (Fin 100)"
    by (simp add: totalSampleSize_def c2)
  note th = first_control_is_control [where variants = "[scenario_control, second_control]"
        and pre = "[]" and c = scenario_control and post = "[second_control]"
        and a = scenario_control and b = second_control
        and minSampleSize = "Fin 100" and pm = Cvr and cl = "Fin (95 / 100)"]
  have e: "determineWinner [scenario_control, second_control] Cvr (Fin (95 / 100)) (Fin 100)
       = compareTreatments scenario_control [] Cvr (Fin (95 / 100))"
    using th t c2 by simp
  have s: "status (determineWinner [scenario_control, second_control] Cvr (Fin (95 / 100)) (Fin 100))
       = Tie
   \<and> confidence (determineWinner [scenario_control, second_control] Cvr (Fin (95 / 100)) (Fin 100))
       = Fin (1 / 2)"
  proof -
    have "isControl scenario_control \<and> isControl second_control
        \<and> \<not> js_lt (totalSampleSize [scenario_control, second_control]) (Fin 100)"
      using t c2 by simp
    with th [THEN conjunct2, THEN conjunct2] show ?thesis by (rule mp)
  qed
  show ?thesis using e s t c2 by simp
qed


text \<open>
  Claim C5, at the empty variant list. \<open>determineWinner\<close> returns \<open>insufficient_data\<close>
  there, but \<open>generateLearnings\<close> reads the first element of the sorted copy, which is
  \<open>undefined\<close>, and passes it to \<open>calculateVariantMetrics\<close>: it raises a TypeError for
  every winner decision, and so does \<open>createTestResult\<close>, which calls it.
\<close>

theorem generateLearnings_empty_raises:
  "determineWinner [] pm cl minSampleSize
     = \<lparr> status = Insufficient_data, winnerVariantId = None, improvement = None,
         confidence = Fin 0,
         reason = [Txt ''At least 2 variants required for comparison''] \<rparr>
   \<and> generateLearnings [] winner = Inl TypeError
   \<and> generateLearnings [] (determineWinner [] pm cl minSampleSize) = Inl TypeError
   \<and> createTestResult runId testType startDate endDate pm [] = Inl TypeError"
  by (simp add: determineWinner_def generateLearnings_def createTestResult_def Let_def)


text \<open>
  Claim C8, at a baseline rate of 1 with the two adjacent numbers
  1.9801342540414795 and 1.9801342540414797 as effects: the required sample size is
  780 for the smaller effect and 781 for the larger one.
\<close>

theorem sample_size_counterexample:
  "js_lt (Fin 0) (Fin (4458865944322381 / 2251799813685248))
   \<and> js_lt (Fin (4458865944322381 / 2251799813685248)) (Fin (8917731888644763 / 4503599627370496))
   \<and> round64 (4458865944322381 / 2251799813685248) = Fin (4458865944322381 / 2251799813685248)
   \<and> round64 (8917731888644763 / 4503599627370496) = Fin (8917731888644763 / 4503599627370496)
   \<and> calculateRequiredSampleSize (Fin 1) (Fin (4458865944322381 / 2251799813685248))
        (lit (8 / 10)) (lit (95 / 100)) = Fin 780
   \<and> calculateRequiredSampleSize (Fin 1) (Fin (8917731888644763 / 4503599627370496))
        (lit (8 / 10)) (lit (95 / 100)) = Fin 781
   \<and> \<not> js_le (calculateRequiredSampleSize (Fin 1) (Fin (8917731888644763 / 4503599627370496))
                 (lit (8 / 10)) (lit (95 / 100)))
               (calculateRequiredSampleSize (Fin 1) (Fin (4458865944322381 / 2251799813685248))
                 (lit (8 / 10)) (lit (95 / 100)))"
  unfolding planner_at_lower planner_at_upper
  by (simp add: js_lt_def js_le_def r64_52 r64_53)

text \<open>
  Claim C8, amended. For a baseline rate \<open>b \<ge> 0\<close> and effects \<open>0.01 \<le> m1 < m2\<close> with
  \<open>b + m2 \<le> 100\<close> (both proportions within \<open>[0, 1]\<close>), whatever the power and the
  confidence level, the required sample size for \<open>m2\<close> is at most the one for \<open>m1\<close>
  plus one. Both results are integers, each within one of the exact ceiling of
  \<open>2 * (zAlpha + zBeta)\<^sup>2 * pbar * (1 - pbar) / (p2 - p1)\<^sup>2\<close>, and these exact ceilings
  do not increase with the effect. The result is +Infinity when the effect is zero
  and the baseline rate is a binary64 number.
\<close>

theorem sample_size_nearly_monotone:
  assumes "0 \<le> b" and "1 / 100 \<le> m1" and "m1 < m2" and "b + m2 \<le> 100"
  shows "js_le (calculateRequiredSampleSize (Fin b) (Fin m2) pw cl)
               (js_add (calculateRequiredSampleSize (Fin b) (Fin m1) pw cl) (Fin 1))
    \<and> (\<exists>n1 n2. calculateRequiredSampleSize (Fin b) (Fin m1) pw cl = Fin (of_int n1)
          \<and> calculateRequiredSampleSize (Fin b) (Fin m2) pw cl = Fin (of_int n2)
          \<and> n2 \<le> n1 + 1
          \<and> \<bar>n1 - required_n (zAlphaOf cl) (zBetaOf pw) b m1\<bar> \<le> 1
          \<and> \<bar>n2 - required_n (zAlphaOf cl) (zBetaOf pw) b m2\<bar> \<le> 1
          \<and> required_n (zAlphaOf cl) (zBetaOf pw) b m2
              \<le> required_n (zAlphaOf cl) (zBetaOf pw) b m1)
    \<and> (round64 b = Fin b \<longrightarrow> calculateRequiredSampleSize (Fin b) (Fin 0) pw cl = PInf)"
proof -
  have m2: "1 / 100 \<le> m2" and bm1: "b + m1 \<le> 100" and m1p: "0 < m1" and b1: "b \<le> 100"
    using assms by simp_all
  obtain q1 where q1: "calculateRequiredSampleSize (Fin b) (Fin m1) pw cl = Fin (of_int \<lceil>q1\<rceil>)"
      "\<bar>q1 - required_q (zAlphaOf cl) (zBetaOf pw) b m1\<bar> \<le> 1 / 2"
    using planner_quotient [OF assms(1,2) bm1] by blast
  obtain q2 where q2: "calculateRequiredSampleSize (Fin b) (Fin m2) pw cl = Fin (of_int \<lceil>q2\<rceil>)"
      "\<bar>q2 - required_q (zAlphaOf cl) (zBetaOf pw) b m2\<bar> \<le> 1 / 2"
    using planner_quotient [OF assms(1) m2 assms(4)] by blast
  note mono = required_q_mono [OF assms(1) m1p assms(3,4), of "zAlphaOf cl" "zBetaOf pw"]
  have le: "\<lceil>q2\<rceil> \<le> \<lceil>q1\<rceil> + 1" by (rule ceiling_chain [OF q1(2) q2(2) mono])
  have n1: "\<bar>\<lceil>q1\<rceil> - required_n (zAlphaOf cl) (zBetaOf pw) b m1\<bar> \<le> 1"
    unfolding required_n_q by (rule ceiling_near [OF q1(2)])
  have n2: "\<bar>\<lceil>q2\<rceil> - required_n (zAlphaOf cl) (zBetaOf pw) b m2\<bar> \<le> 1"
    unfolding required_n_q by (rule ceiling_near [OF q2(2)])
  have nm: "required_n (zAlphaOf cl) (zBetaOf pw) b m2
              \<le> required_n (zAlphaOf cl) (zBetaOf pw) b m1"
    unfolding required_n_q using mono by (rule ceiling_mono)
  have "of_int \<lceil>q2\<rceil> \<le> (of_int \<lceil>q1\<rceil> :: real) + 1" using le by linarith
  then have 1: "js_le (calculateRequiredSampleSize (Fin b) (Fin m2) pw cl)
               (js_add (calculateRequiredSampleSize (Fin b) (Fin m1) pw cl) (Fin 1))"
    unfolding q1(1) q2(1) by (simp add: js_le_def js_add_def)
  have 2: "\<exists>n1 n2. calculateRequiredSampleSize (Fin b) (Fin m1) pw cl = Fin (of_int n1)
          \<and> calculateRequiredSampleSize (Fin b) (Fin m2) pw cl = Fin (of_int n2)
          \<and> n2 \<le> n1 + 1
          \<and> \<bar>n1 - required_n (zAlphaOf cl) (zBetaOf pw) b m1\<bar> \<le> 1
          \<and> \<bar>n2 - required_n (zAlphaOf cl) (zBetaOf pw) b m2\<bar> \<le> 1
          \<and> required_n (zAlphaOf cl) (zBetaOf pw) b m2
              \<le> required_n (zAlphaOf cl) (zBetaOf pw) b m1"
    using q1(1) q2(1) le n1 n2 nm by blast
  have 3: "round64 b = Fin b \<longrightarrow> calculateRequiredSampleSize (Fin b) (Fin 0) pw cl = PInf"
    using planner_zero_effect [OF assms(1) b1] by blast
  from 1 2 3 show ?thesis by blast
qed

text \<open>
  Baseline 10 with effects 2 and 4: 3838 and 1035 samples, and +Infinity for no effect.
\<close>

theorem sample_size_nearly_monotone_witness:
  "(0 :: real) \<le> 10 \<and> (1 :: real) / 100 \<le> 2 \<and> (2 :: real) < 4 \<and> (10 :: real) + 4 \<le> 100
   \<and> js_le (calculateRequiredSampleSize (Fin 10) (Fin 4) (lit (8 / 10)) (lit (95 / 100)))
            (js_add (calculateRequiredSampleSize (Fin 10) (Fin 2) (lit (8 / 10)) (lit (95 / 100))) (Fin 1))
   \<and> calculateRequiredSampleSize (Fin 10) (Fin 2) (lit (8 / 10)) (lit (95 / 100)) = Fin 3838
   \<and> calculateRequiredSampleSize (Fin 10) (Fin 4) (lit (8 / 10)) (lit (95 / 100)) = Fin 1035
   \<and> required_n (zAlphaOf (lit (95 / 100))) (zBetaOf (lit (8 / 10))) 10 2 = 3838
   \<and> required_n (zAlphaOf (lit (95 / 100))) (zBetaOf (lit (8 / 10))) 10 4 = 1035
   \<and> round64 10 = Fin 10
   \<and> calculateRequiredSampleSize (Fin 10) (Fin 0) (lit (8 / 10)) (lit (95 / 100)) = PInf"
proof -
  have h1: "(0 :: real) \<le> 10" and h2: "(1 :: real) / 100 \<le> 2" and h3: "(2 :: real) < 4"
    and h4: "(10 :: real) + 4 \<le> 100" by simp_all
  note t = sample_size_nearly_monotone [OF h1 h2 h3 h4, of "lit (8 / 10)" "lit (95 / 100)"]
  have l: "js_le (calculateRequiredSampleSize (Fin 10) (Fin 4) (lit (8 / 10)) (lit (95 / 100)))
            (js_add (calculateRequiredSampleSize (Fin 10) (Fin 2) (lit (8 / 10)) (lit (95 / 100))) (Fin 1))"
    using t by (rule conjunct1)
  have i: "calculateRequiredSampleSize (Fin 10) (Fin 0) (lit (8 / 10)) (lit (95 / 100)) = PInf"
    using t r64_54 by blast
  have za: "zAlphaOf (lit (95 / 100)) = 196 / 100" by (simp add: zAlphaOf_def js_eq_def lit_def r64_50)
  have zb: "zBetaOf (lit (8 / 10)) = 84 / 100" by (simp add: zBetaOf_def js_eq_def lit_def r64_51)
  have r1: "required_n (zAlphaOf (lit (95 / 100))) (zBetaOf (lit (8 / 10))) 10 2 = 3838"
    unfolding za zb by (simp add: required_n_def Let_def power2_eq_square)
  have r2: "required_n (zAlphaOf (lit (95 / 100))) (zBetaOf (lit (8 / 10))) 10 4 = 1035"
    unfolding za zb by (simp add: required_n_def Let_def power2_eq_square)
  show ?thesis
    by (intro conjI; (fact h1 h2 h3 h4 l i r1 r2 r64_54 planner_at_10_2 planner_at_10_4))
qed


text \<open>
  Claim C10, at the metric \<open>cpc\<close>: a control with no clicks has cost per click 0, the
  treatment's is positive and the comparison is significant, yet the improvement is
  -Infinity and the result is \<open>loser\<close>.
\<close>

theorem zero_control_counterexample:
  "\<not> length [zero_click_control, scenario_better] < 2
   \<and> find isControl [zero_click_control, scenario_better] = Some zero_click_control
   \<and> \<not> js_lt (totalSampleSize [zero_click_control, scenario_better]) (Fin 100)
   \<and> getMetricValue zero_click_control Cpc = Fin 0
   \<and> \<not> isControl scenario_better
   \<and> js_gt (getMetricValue scenario_better Cpc) (Fin 0)
   \<and> isSignificant (testSignificance zero_click_control scenario_better Cpc (Fin (95 / 100)))
   \<and> improvementOf zero_click_control Cpc scenario_better = NInf
   \<and> status (determineWinner [zero_click_control, scenario_better] Cpc (Fin (95 / 100)) (Fin 100))
       = Loser
   \<and> improvement (determineWinner [zero_click_control, scenario_better] Cpc (Fin (95 / 100)) (Fin 100))
       = None"
proof -
  let ?c = zero_click_control and ?t = scenario_better
  have m0: "getMetricValue ?c Cpc = Fin 0"
    by (simp add: getMetricValue_def calculateVariantMetrics_def calculateCPC_def)
  have m1: "getMetricValue ?t Cpc = Fin 5"
    by (simp add: getMetricValue_def calculateVariantMetrics_def calculateCPC_def)
  have sg: "isSignificant (testSignificance ?c ?t Cpc (Fin (95 / 100)))"
    by (rule zero_control_significant) simp_all
  have im: "improvementOf ?c Cpc ?t = NInf"
    by (simp add: improvementOf_def isLowerBetter_def m0 m1 Let_def mk_inf_def js_mul_def)
  have e: "determineWinner [?c, ?t] Cpc (Fin (95 / 100)) (Fin 100)
      = compareTreatments ?c [?t] Cpc (Fin (95 / 100))"
    by (simp add: determineWinner_def totalSampleSize_def)
  have nq: "\<forall>x \<in> set [?t]. \<not> qualifies ?c Cpc (Fin (95 / 100)) x"
    by (simp add: qualifies_def im js_gt_def js_lt_def)
  have b: "\<exists>x \<in> set [?t]. beaten ?c Cpc (Fin (95 / 100)) x"
    using sg by (simp add: beaten_def controlBetter_def isLowerBetter_def m0 m1)
  have l: "status (compareTreatments ?c [?t] Cpc (Fin (95 / 100))) = Loser"
    using compareTreatments_loser_iff(1) [OF nq] b by simp
  have i: "improvement (compareTreatments ?c [?t] Cpc (Fin (95 / 100))) = None"
    using compareTreatments_no_winner [OF nq] control_loop_Some [of ?c Cpc "Fin (95 / 100)" "[?t]"] l
    by (auto split: option.splits simp: tieDecision_def)
  show ?thesis
    unfolding e using m0 m1 sg im l i by (simp add: totalSampleSize_def)
qed

text \<open>
  Claim C10, amended. For a primary metric other than \<open>cpa\<close> and \<open>cpc\<close>, on a variant
  list that passes the guards, whose control has the metric value +0 and one of whose
  treatments has a positive metric value and a significant comparison,
  \<open>determineWinner\<close> returns \<open>winner\<close> with improvement +Infinity; the winner is such a
  treatment and the confidence is one minus the p-value of its comparison.
\<close>

theorem zero_control_improvement_infinite:
  assumes "\<not> length variants < 2"
    and "find isControl variants = Some control"
    and "\<not> js_lt (totalSampleSize variants) minSampleSize"
    and "pm \<noteq> Cpa" and "pm \<noteq> Cpc"
    and "getMetricValue control pm = Fin 0"
    and "t \<in> set variants" and "\<not> isControl t"
    and "js_gt (getMetricValue t pm) (Fin 0)"
    and "isSignificant (testSignificance control t pm cl)"
  shows "status (determineWinner variants pm cl minSampleSize) = Winner
    \<and> improvement (determineWinner variants pm cl minSampleSize) = Some PInf
    \<and> (\<exists>w \<in> set variants. \<not> isControl w
          \<and> isSignificant (testSignificance control w pm cl)
          \<and> js_gt (getMetricValue w pm) (Fin 0)
          \<and> winnerVariantId (determineWinner variants pm cl minSampleSize) = Some (variantId w)
          \<and> confidence (determineWinner variants pm cl minSampleSize)
              = js_sub (Fin 1) (pValue (testSignificance control w pm cl)))"
proof -
  let ?ts = "filter (\<lambda>v. \<not> isControl v) variants"
  have eq: "determineWinner variants pm cl minSampleSize = compareTreatments control ?ts pm cl"
    using assms(1-3) by (rule determineWinner_pass)
  have im: "improvementOf control pm x
      = js_mul (js_div (js_sub (getMetricValue x pm) (Fin 0)) (Fin 0)) (Fin 100)" for x
    using assms(4,5,6) by (simp add: improvementOf_def isLowerBetter_def Let_def)
  have "improvementOf control pm t = PInf"
    unfolding im using assms(9) by (rule improvement_zero_control)
  then have "qualifies control pm cl t"
    using assms(10) by (simp add: qualifies_def js_gt_def js_lt_def)
  then have "\<exists>x \<in> set ?ts. qualifies control pm cl x" using assms(7,8) by auto
  then have w: "status (compareTreatments control ?ts pm cl) = Winner"
    by (simp only: compareTreatments_winner_iff)
  from compareTreatments_winner_props [OF w]
  obtain x where x: "x \<in> set ?ts" "qualifies control pm cl x"
      "winnerVariantId (compareTreatments control ?ts pm cl) = Some (variantId x)"
      "improvement (compareTreatments control ?ts pm cl) = Some (improvementOf control pm x)"
      "confidence (compareTreatments control ?ts pm cl)
          = js_sub (Fin 1) (pValue (testSignificance control x pm cl))"
    by blast
  from x(2) have g: "js_gt (improvementOf control pm x) (Fin 0)"
    and s: "isSignificant (testSignificance control x pm cl)" by (simp_all add: qualifies_def)
  from g have p: "improvementOf control pm x = PInf \<and> js_gt (getMetricValue x pm) (Fin 0)"
    unfolding im by (rule improvement_zero_control_pos)
  have "\<exists>w \<in> set variants. \<not> isControl w
          \<and> isSignificant (testSignificance control w pm cl)
          \<and> js_gt (getMetricValue w pm) (Fin 0)
          \<and> winnerVariantId (compareTreatments control ?ts pm cl) = Some (variantId w)
          \<and> confidence (compareTreatments control ?ts pm cl)
              = js_sub (Fin 1) (pValue (testSignificance control w pm cl))"
    using x(1,3,5) s p by auto
  with w x(4) p show ?thesis unfolding eq by simp
qed

text \<open>A control with no clicks against 700 conversions on 5000 clicks, on \<open>cvr\<close>.\<close>

theorem zero_control_improvement_infinite_witness:
  "\<not> length [zero_click_control, scenario_better] < 2
   \<and> find isControl [zero_click_control, scenario_better] = Some zero_click_control
   \<and> \<not> js_lt (totalSampleSize [zero_click_control, scenario_better]) (Fin 100)
   \<and> getMetricValue zero_click_control Cvr = Fin 0
   \<and> \<not> isControl scenario_better
   \<and> js_gt (getMetricValue scenario_better Cvr) (Fin 0)
   \<and> isSignificant (testSignificance zero_click_control scenario_better Cvr (Fin (95 / 100)))
   \<and> status (determineWinner [zero_click_control, scenario_better] Cvr (Fin (95 / 100)) (Fin 100))
       = Winner
   \<and> improvement (determineWinner [zero_click_control, scenario_better] Cvr (Fin (95 / 100)) (Fin 100))
       = Some PInf"
proof -
  let ?c = zero_click_control and ?t = scenario_better
  have h1: "\<not> length [?c, ?t] < 2" by simp
  have h2: "find isControl [?c, ?t] = Some ?c" by simp
  have h3: "\<not> js_lt (totalSampleSize [?c, ?t]) (Fin 100)" by (simp add: totalSampleSize_def)
  have h6: "getMetricValue ?c Cvr = Fin 0"
    by (simp add: getMetricValue_def calculateVariantMetrics_def calculateCVR_def)
  have h7: "?t \<in> set [?c, ?t]" by simp
  have h8: "\<not> isControl ?t" by simp
  have h9: "js_gt (getMetricValue ?t Cvr) (Fin 0)"
    by (simp add: getMetricValue_def calculateVariantMetrics_def calculateCVR_def)
  have h10: "isSignificant (testSignificance ?c ?t Cvr (Fin (95 / 100)))"
    by (rule zero_control_significant) simp_all
  have "Cvr \<noteq> Cpa" "Cvr \<noteq> Cpc" by simp_all
  from zero_control_improvement_infinite [OF h1 h2 h3 this h6 h7 h8 h9 h10]
  show ?thesis using h1 h2 h3 h6 h8 h9 h10 by simp
qed


end
